(* ===== verification/Prelude.thy ===== *)
theory Prelude
  imports Main "HOL-Library.Word"
begin

section \<open>Shared vocabulary: C strings, faults, numerals\<close>

text \<open>
  The vocabulary every component uses: faults as values (the places where the C code would
  read or write out of bounds or through a null pointer), C strings as lists of non-NUL bytes,
  the string functions of libc that the sources call, and decimal printing and reading with
  the round-trip lemmas the wire protocol rests on.
\<close>

named_theorems cstr_simps \<open>facts about C strings and buffers\<close>

subsection \<open>Faults and results\<close>

text \<open>
  Undefined behaviour of the C code is a value of the model, so that "this input is handled"
  is a theorem and not an assumption.
\<close>

datatype c_fault =
    Buffer_Overflow   \<comment> \<open>a store outside a fixed-size buffer\<close>
  | Null_Deref        \<comment> \<open>a load or store through a null pointer\<close>
  | Out_Of_Bounds     \<comment> \<open>a load outside an object\<close>

type_synonym 'a result = "c_fault + 'a"

fun rbind :: "'e + 'a \<Rightarrow> ('a \<Rightarrow> 'e + 'b) \<Rightarrow> 'e + 'b" where
  "rbind (Inl e) f = Inl e"
| "rbind (Inr x) f = f x"

lemma rbind_cong [fundef_cong]:
  "m = m' \<Longrightarrow> (\<And>x. m' = Inr x \<Longrightarrow> f x = g x) \<Longrightarrow> rbind m f = rbind m' g"
  by (cases m') auto

lemma rbind_eq_Inr_iff: "rbind m f = Inr y \<longleftrightarrow> (\<exists>x. m = Inr x \<and> f x = Inr y)"
  by (cases m) auto

subsection \<open>C strings\<close>

abbreviation NUL :: char where "NUL \<equiv> CHR 0x00"
abbreviation NL :: char where "NL \<equiv> CHR 0x0A"
abbreviation CR :: char where "CR \<equiv> CHR 0x0D"
abbreviation TAB :: char where "TAB \<equiv> CHR 0x09"
abbreviation DQ :: char where "DQ \<equiv> CHR 0x22"
abbreviation SQ :: char where "SQ \<equiv> CHR 0x27"
abbreviation BSL :: char where "BSL \<equiv> CHR 0x5C"

text \<open>A string that fits in a C string: no NUL inside.\<close>

definition c_string :: "string \<Rightarrow> bool" where
  "c_string s \<longleftrightarrow> NUL \<notin> set s"

text \<open>What a C reader sees of a buffer: the bytes before the first NUL.\<close>

definition cstr :: "char list \<Rightarrow> string" where
  "cstr buf = takeWhile (\<lambda>c. c \<noteq> NUL) buf"

lemma cstr_id [cstr_simps]: "c_string s \<Longrightarrow> cstr s = s"
  by (auto simp: cstr_def c_string_def takeWhile_eq_all_conv)

lemma cstr_terminated [cstr_simps]: "c_string s \<Longrightarrow> cstr (s @ NUL # rest) = s"
  by (induction s) (auto simp: cstr_def c_string_def)

lemma c_string_cstr [simp]: "c_string (cstr buf)"
  by (auto simp: c_string_def cstr_def dest: set_takeWhileD)

lemma c_string_append [simp]: "c_string (s @ t) \<longleftrightarrow> c_string s \<and> c_string t"
  by (auto simp: c_string_def)

lemma c_string_Nil [simp]: "c_string []"
  by (simp add: c_string_def)

lemma c_string_Cons [simp]: "c_string (c # s) \<longleftrightarrow> c \<noteq> NUL \<and> c_string s"
  by (auto simp: c_string_def)

text \<open>The \<open>IS_SET\<close> and \<open>IS_EMPTY\<close> macros on an array member, which is never null.\<close>

definition IS_SET :: "string \<Rightarrow> bool" where
  "IS_SET x \<longleftrightarrow> length x > 0"

definition IS_EMPTY :: "string \<Rightarrow> bool" where
  "IS_EMPTY x \<longleftrightarrow> length x = 0"

lemma IS_SET_iff [simp]: "IS_SET x \<longleftrightarrow> x \<noteq> []"
  by (simp add: IS_SET_def)

lemma IS_EMPTY_iff [simp]: "IS_EMPTY x \<longleftrightarrow> x = []"
  by (simp add: IS_EMPTY_def)

text \<open>\<open>!strncmp(a, b, n)\<close> on C strings.\<close>

definition strncmp_eq :: "string \<Rightarrow> string \<Rightarrow> nat \<Rightarrow> bool" where
  "strncmp_eq a b n \<longleftrightarrow> take n a = take n b"

text \<open>\<open>strsep\<close> in a loop with one delimiter: every field, empty ones included.\<close>

fun strsep_all :: "char \<Rightarrow> string \<Rightarrow> string list" where
  "strsep_all d [] = [[]]"
| "strsep_all d (c # cs) =
     (if c = d then [] # strsep_all d cs
      else (case strsep_all d cs of [] \<Rightarrow> [[c]] | f # fs \<Rightarrow> (c # f) # fs))"

lemma strsep_all_nonempty [simp]: "strsep_all d s \<noteq> []"
  by (induction s) (auto split: list.splits)

lemma strsep_all_no_delim: "d \<notin> set s \<Longrightarrow> strsep_all d s = [s]"
  by (induction s) auto

lemma strsep_all_append:
  "d \<notin> set s \<Longrightarrow> strsep_all d (s @ d # t) = s # strsep_all d t"
  by (induction s) auto

text \<open>\<open>strtok\<close> in a loop: the maximal runs of non-delimiter bytes.\<close>

definition strtok_all :: "char list \<Rightarrow> string \<Rightarrow> string list" where
  "strtok_all ds s =
     filter (\<lambda>f. f \<noteq> []) (strsep_all CHR 0x00 (map (\<lambda>c. if c \<in> set ds then NUL else c) s))"

text \<open>ASCII case folding as \<open>strcasecmp\<close> does it in the C locale.\<close>

definition tolower :: "char \<Rightarrow> char" where
  "tolower c = (let n = (of_char c :: nat) in
     if 65 \<le> n \<and> n \<le> 90 then char_of (n + 32) else c)"

definition strcasecmp_eq :: "string \<Rightarrow> string \<Rightarrow> bool" where
  "strcasecmp_eq a b \<longleftrightarrow> map tolower a = map tolower b"

text \<open>The value of a plain \<open>char\<close> where it is signed (x86 Linux, the platform of the build).\<close>

definition schar :: "char \<Rightarrow> int" where
  "schar c = (let n = int (of_char c) in if n < 128 then n else n - 256)"

subsection \<open>Copying into a fixed-size buffer\<close>

text \<open>
  \<open>dbrelay_copy_string(dest, src, sz)\<close>: what \<open>dest\<close> holds afterwards. The
  function truncates to \<open>sz - 1\<close> bytes and terminates.
\<close>

definition dbrelay_copy_string :: "string \<Rightarrow> nat \<Rightarrow> string" where
  "dbrelay_copy_string src sz = (if length src < sz then src else take (sz - 1) src)"

lemma copy_string_fits: "0 < sz \<Longrightarrow> length (dbrelay_copy_string src sz) < sz"
  by (auto simp: dbrelay_copy_string_def)

lemma copy_string_id [cstr_simps]: "length src < sz \<Longrightarrow> dbrelay_copy_string src sz = src"
  by (simp add: dbrelay_copy_string_def)

lemma copy_string_prefix: "\<exists>rest. src = dbrelay_copy_string src sz @ rest"
  by (auto simp: dbrelay_copy_string_def intro: exI[of _ "drop (sz - 1) src"])

lemma copy_string_idem [simp]:
  "0 < sz \<Longrightarrow> dbrelay_copy_string (dbrelay_copy_string s sz) sz = dbrelay_copy_string s sz"
  by (auto simp: dbrelay_copy_string_def)

lemma c_string_copy [simp]: "c_string s \<Longrightarrow> c_string (dbrelay_copy_string s sz)"
  by (auto simp: dbrelay_copy_string_def c_string_def dest: in_set_takeD)

text \<open>\<^verbatim>\<open>strcat\<close> and \<^verbatim>\<open>strcpy\<close> into an array of \<open>n\<close> bytes.\<close>

definition into_array :: "nat \<Rightarrow> string \<Rightarrow> string result" where
  "into_array n s = (if length s < n then Inr s else Inl Buffer_Overflow)"

subsection \<open>Decimal and hexadecimal printing\<close>

definition digit_char :: "nat \<Rightarrow> char" where
  "digit_char n = char_of (48 + n)"

fun show_nat :: "nat \<Rightarrow> string" where
  "show_nat n = (if n < 10 then [digit_char n] else show_nat (n div 10) @ [digit_char (n mod 10)])"

declare show_nat.simps [simp del]

text \<open>\<open>sprintf("%d")\<close> and \<open>sprintf("%ld")\<close>; \<open>%u\<close> and \<open>%lu\<close> are \<^const>\<open>show_nat\<close>.\<close>

definition show_int :: "int \<Rightarrow> string" where
  "show_int i = (if i < 0 then CHR ''-'' # show_nat (nat (- i)) else show_nat (nat i))"

definition hex_char :: "nat \<Rightarrow> char" where
  "hex_char n = (if n < 10 then char_of (48 + n) else char_of (87 + n))"

text \<open>\<open>sprintf("%02x", (unsigned char) c)\<close>.\<close>

definition hex2 :: "char \<Rightarrow> string" where
  "hex2 c = (let n = (of_char c :: nat) in [hex_char (n div 16), hex_char (n mod 16)])"

subsection \<open>Reading decimal numbers\<close>

definition is_digit :: "char \<Rightarrow> bool" where
  "is_digit c \<longleftrightarrow> 48 \<le> (of_char c :: nat) \<and> (of_char c :: nat) \<le> 57"

definition digit_val :: "char \<Rightarrow> nat" where
  "digit_val c = (of_char c :: nat) - 48"

text \<open>\<open>isspace\<close> of the C locale.\<close>

definition is_space :: "char \<Rightarrow> bool" where
  "is_space c \<longleftrightarrow> c = CHR '' '' \<or> (9 \<le> (of_char c :: nat) \<and> (of_char c :: nat) \<le> 13)"

definition read_digits :: "string \<Rightarrow> nat" where
  "read_digits s = foldl (\<lambda>n c. 10 * n + digit_val c) 0 (takeWhile is_digit s)"

text \<open>
  \<open>strtol(s, NULL, 10)\<close> on a 64-bit \<open>long\<close>: leading blanks, an optional sign, digits,
  clamped to the range of \<open>long\<close>. \<open>atol\<close> is the same call, and glibc's \<open>atoi\<close>
  is its low 32 bits read as an \<open>int\<close>.
\<close>

definition strtol10 :: "string \<Rightarrow> int" where
  "strtol10 s =
     (case dropWhile is_space s of
        [] \<Rightarrow> 0
      | c # cs \<Rightarrow>
          if c = CHR ''-'' then - int (read_digits cs)
          else if c = CHR ''+'' then int (read_digits cs)
          else int (read_digits (c # cs)))"

definition atol :: "string \<Rightarrow> int" where
  "atol s = max (- (2 ^ 63)) (min (2 ^ 63 - 1) (strtol10 s))"

definition atoi :: "string \<Rightarrow> int" where
  "atoi s = sint (word_of_int (atol s) :: 32 word)"

lemma of_char_digit [simp]: "n < 10 \<Longrightarrow> (of_char (digit_char n) :: nat) = 48 + n"
  by (simp add: digit_char_def of_char_of)

lemma is_digit_digit_char [simp]: "n < 10 \<Longrightarrow> is_digit (digit_char n)"
  by (simp add: is_digit_def)

lemma digit_val_digit_char [simp]: "n < 10 \<Longrightarrow> digit_val (digit_char n) = n"
  by (simp add: digit_val_def)

lemma show_nat_digits: "list_all is_digit (show_nat n)"
  by (induction n rule: show_nat.induct) (subst show_nat.simps, auto)

lemma show_nat_nonempty [simp]: "show_nat n \<noteq> []"
  by (subst show_nat.simps) simp

lemma foldl_show_nat:
  "foldl (\<lambda>n c. 10 * n + digit_val c) 0 (show_nat n) = n"
proof (induction n rule: show_nat.induct)
  case (1 n)
  show ?case
  proof (cases "n < 10")
    case True
    then show ?thesis by (subst show_nat.simps) simp
  next
    case False
    then show ?thesis by (subst show_nat.simps) (simp add: "1.IH")
  qed
qed

lemma takeWhile_digits_show_nat [simp]: "takeWhile is_digit (show_nat n) = show_nat n"
  using show_nat_digits[of n] by (simp add: takeWhile_eq_all_conv list_all_iff)

lemma read_digits_show_nat [simp]: "read_digits (show_nat n) = n"
  by (simp add: read_digits_def foldl_show_nat)

lemma digit_not_space_sign:
  "is_digit c \<Longrightarrow> \<not> is_space c \<and> c \<noteq> CHR ''-'' \<and> c \<noteq> CHR ''+''"
  by (auto simp: is_digit_def is_space_def)

lemma strtol10_show_nat: "strtol10 (show_nat n) = int n"
proof -
  obtain c cs where s: "show_nat n = c # cs"
    using show_nat_nonempty[of n] by (cases "show_nat n") auto
  with show_nat_digits[of n] have d: "is_digit c" by simp
  from s digit_not_space_sign[OF d] have "strtol10 (show_nat n) = int (read_digits (show_nat n))"
    by (simp add: strtol10_def)
  then show ?thesis by simp
qed

lemma strtol10_show_int: "strtol10 (show_int i) = i"
  by (cases "i < 0") (auto simp: show_int_def strtol10_show_nat, simp add: strtol10_def is_space_def)

text \<open>Printing a \<open>long\<close> and reading it back gives the same number.\<close>

lemma atol_show_int:
  "- (2 ^ 63) \<le> i \<Longrightarrow> i < 2 ^ 63 \<Longrightarrow> atol (show_int i) = i"
  by (simp add: atol_def strtol10_show_int)

lemma show_nat_length: "n < 10 ^ Suc k \<Longrightarrow> length (show_nat n) \<le> Suc k"
proof (induction k arbitrary: n)
  case 0
  then show ?case by (subst show_nat.simps) simp
next
  case (Suc k)
  show ?case
  proof (cases "n < 10")
    case True
    then show ?thesis by (subst show_nat.simps) simp
  next
    case False
    have "n div 10 < 10 ^ Suc k" using Suc.prems by (simp add: div_less_iff_less_mult)
    from Suc.IH[OF this] False show ?thesis by (subst show_nat.simps) simp
  qed
qed

lemma show_int_of_nat: "show_int (int n) = show_nat n"
  by (simp add: show_int_def)

lemma digit_c_string: "is_digit c \<Longrightarrow> c \<noteq> NUL \<and> c \<noteq> NL"
  by (auto simp: is_digit_def)

lemma show_nat_c_string [simp]: "c_string (show_nat n)"
  using show_nat_digits[of n] by (auto simp: c_string_def list_all_iff dest: digit_c_string)

lemma show_int_c_string [simp]: "c_string (show_int i)"
  by (simp add: show_int_def)

lemma show_nat_no_NL [simp]: "NL \<notin> set (show_nat n)"
  using show_nat_digits[of n] by (auto simp: list_all_iff dest: digit_c_string)

lemma show_int_no_NL [simp]: "NL \<notin> set (show_int i)"
  by (simp add: show_int_def)

subsection \<open>Loops that may fault\<close>

text \<open>
  The value of a loop is \<open>None\<close> when it never ends, and otherwise the result of its last turn.
  \<open>and_then\<close> goes on unless there was a fault.
\<close>

fun and_then :: "'a result \<Rightarrow> ('a \<Rightarrow> 'b result option) \<Rightarrow> 'b result option" where
  "and_then (Inl e) k = Some (Inl e)"
| "and_then (Inr x) k = k x"

lemma and_then_mono [partial_function_mono]:
  "(\<And>y. mono_option (\<lambda>f. k f y)) \<Longrightarrow> mono_option (\<lambda>f. and_then r (k f))"
  by (cases r) (simp_all add: option.const_mono)

definition loop_bind :: "'a result option \<Rightarrow> ('a \<Rightarrow> 'b result option) \<Rightarrow> 'b result option" where
  "loop_bind r k = Option.bind r (\<lambda>r. and_then r k)"

lemma loop_bind_simps [simp]:
  "loop_bind None k = None" "loop_bind (Some (Inl e)) k = Some (Inl e)"
  "loop_bind (Some (Inr x)) k = k x"
  by (simp_all add: loop_bind_def)

lemma loop_bind_mono [partial_function_mono]:
  "mono_option r \<Longrightarrow> (\<And>y. mono_option (\<lambda>f. k f y)) \<Longrightarrow> mono_option (\<lambda>f. loop_bind (r f) (k f))"
  unfolding loop_bind_def by (intro bind_mono and_then_mono)

lemma and_then_eq_Inr_iff: "and_then m k = Some (Inr y) \<longleftrightarrow> (\<exists>x. m = Inr x \<and> k x = Some (Inr y))"
  by (cases m) simp_all

lemma loop_bind_eq_Inr_iff:
  "loop_bind m k = Some (Inr y) \<longleftrightarrow> (\<exists>x. m = Some (Inr x) \<and> k x = Some (Inr y))"
proof (cases m)
  case (Some a)
  then show ?thesis by (cases a) simp_all
qed simp

subsection \<open>Invariants of step relations\<close>

text \<open>
  The contract of a shared object that several processes step: where it starts, its steps, and
  an invariant that holds at the start and is kept by every step. The connection table and the
  semaphore are such objects.
\<close>

locale invariant_system =
  fixes init :: "'s \<Rightarrow> bool" and step :: "'s \<Rightarrow> 's \<Rightarrow> bool" and inv :: "'s \<Rightarrow> bool"
  assumes init_inv: "init s \<Longrightarrow> inv s"
    and step_inv: "step s t \<Longrightarrow> inv s \<Longrightarrow> inv t"
begin

lemma run_inv: "step\<^sup>*\<^sup>* s t \<Longrightarrow> inv s \<Longrightarrow> inv t"
  by (induction rule: rtranclp_induct) (auto intro: step_inv)

lemma reachable_inv: "init s \<Longrightarrow> step\<^sup>*\<^sup>* s t \<Longrightarrow> inv t"
  using init_inv run_inv by blast

end

end
