(* ===== verification/Request.thy ===== *)
theory Request
  imports Prelude
begin

section \<open>The request and how it is filled in\<close>

text \<open>
  \<^verbatim>\<open>dbrelay_request_t\<close> of src/dbrelay.h, its allocation and its completeness check
  (src/db.c), and the two functions of src/ngx_http_dbrelay_module.c that store one
  key/value pair of the query string into it. The invariant \<open>request_wf\<close> says that every
  field fits its array; every function here keeps it.
\<close>

unbundle bit_operations_syntax

subsection \<open>Constants of dbrelay.h\<close>

definition DBRELAY_MAX_CONN :: nat where "DBRELAY_MAX_CONN = 1000"
definition DBRELAY_MAX_PARAMS :: nat where "DBRELAY_MAX_PARAMS = 100"
definition DBRELAY_OBJ_SZ :: nat where "DBRELAY_OBJ_SZ = 31"
definition DBRELAY_NAME_SZ :: nat where "DBRELAY_NAME_SZ = 101"
definition DBRELAY_SOCKET_BUFSIZE :: nat where "DBRELAY_SOCKET_BUFSIZE = 4096"
definition DBRELAY_HARD_TIMEOUT :: int where "DBRELAY_HARD_TIMEOUT = 28800"

definition DBRELAY_FLAG_ECHOSQL :: "64 word" where "DBRELAY_FLAG_ECHOSQL = 0x01"
definition DBRELAY_FLAG_PP :: "64 word" where "DBRELAY_FLAG_PP = 0x02"
definition DBRELAY_FLAG_XACT :: "64 word" where "DBRELAY_FLAG_XACT = 0x04"
definition DBRELAY_FLAG_EMBEDCSV :: "64 word" where "DBRELAY_FLAG_EMBEDCSV = 0x08"
definition DBRELAY_FLAG_NOMAGIC :: "64 word" where "DBRELAY_FLAG_NOMAGIC = 0x10"

lemmas flag_defs = DBRELAY_FLAG_ECHOSQL_def DBRELAY_FLAG_PP_def DBRELAY_FLAG_XACT_def
  DBRELAY_FLAG_EMBEDCSV_def DBRELAY_FLAG_NOMAGIC_def

lemmas size_defs = DBRELAY_MAX_CONN_def DBRELAY_MAX_PARAMS_def DBRELAY_OBJ_SZ_def
  DBRELAY_NAME_SZ_def DBRELAY_SOCKET_BUFSIZE_def

definition flag_set :: "64 word \<Rightarrow> 64 word \<Rightarrow> bool" where
  "flag_set flags f \<longleftrightarrow> flags AND f \<noteq> 0"

subsection \<open>The record\<close>

text \<open>
  The \<^verbatim>\<open>log\<close> and \<^verbatim>\<open>nginx_request\<close> pointers, which only the logging and the
  embedding server use, are left out. \<open>params\<close> has \<^const>\<open>DBRELAY_MAX_PARAMS\<close> entries,
  null where the parameter is not set.
\<close>

record dbrelay_request =
  status :: int
  cmd :: string
  sql_server :: string
  sql_port :: string
  sql_database :: string
  sql_user :: string
  sql_password :: string
  sql :: "string option"
  query_tag :: string
  connection_name :: string
  connection_timeout :: int
  http_keepalive :: int
  log_level :: int
  log_level_scope :: int
  error_message :: string
  params :: "string option list"
  sql_dbtype :: string
  remote_addr :: string
  sock_path :: string
  flags :: "64 word"
  js_callback :: string
  js_error :: string

definition zero_request :: dbrelay_request where
  "zero_request = \<lparr>status = 0, cmd = [], sql_server = [], sql_port = [], sql_database = [],
     sql_user = [], sql_password = [], sql = None, query_tag = [], connection_name = [],
     connection_timeout = 0, http_keepalive = 0, log_level = 0, log_level_scope = 0,
     error_message = [], params = replicate DBRELAY_MAX_PARAMS None, sql_dbtype = [],
     remote_addr = [], sock_path = [], flags = 0, js_callback = [], js_error = []\<rparr>"

definition dbrelay_alloc_request :: dbrelay_request where
  "dbrelay_alloc_request = zero_request\<lparr>http_keepalive := 1, connection_timeout := 60\<rparr>"

text \<open>\<^verbatim>\<open>request->cmd\<close> is an array, so its address in the first test is never null.\<close>

definition dbrelay_check_request :: "dbrelay_request \<Rightarrow> bool" where
  "dbrelay_check_request r =
     (if sql r = None then False
      else if \<not> IS_SET (sql_server r) then False
      else if \<not> IS_SET (sql_user r) then False
      else True)"

subsection \<open>Storing one key and value\<close>

definition flag_token :: "string \<Rightarrow> 64 word" where
  "flag_token tok =
     (if tok = ''echosql'' then DBRELAY_FLAG_ECHOSQL
      else if tok = ''pp'' then DBRELAY_FLAG_PP
      else if tok = ''xact'' then DBRELAY_FLAG_XACT
      else if tok = ''embedcsv'' then DBRELAY_FLAG_EMBEDCSV
      else if tok = ''nomagic'' then DBRELAY_FLAG_NOMAGIC
      else 0)"

definition write_flag_values :: "dbrelay_request \<Rightarrow> string \<Rightarrow> dbrelay_request" where
  "write_flag_values r value =
     foldl (\<lambda>r tok. r\<lparr>flags := flags r OR flag_token tok\<rparr>) r (strsep_all CHR '','' value)"

definition log_levels :: "string list" where
  "log_levels = [''debug'', ''informational'', ''notice'', ''warning'', ''error'', ''critical'']"

definition log_level_scopes :: "string list" where
  "log_level_scopes = [''server'', ''connection'', ''query'']"

text \<open>The loop over a table of names, which stores the index of the last match.\<close>

fun index_loop :: "string list \<Rightarrow> string \<Rightarrow> int \<Rightarrow> int \<Rightarrow> int" where
  "index_loop [] value i cur = cur"
| "index_loop (n # ns) value i cur = index_loop ns value (i + 1) (if value = n then i else cur)"

text \<open>
  The number after \<^verbatim>\<open>param\<close> goes into an \<^verbatim>\<open>unsigned int\<close>, so a negative one is
  huge and refused.
\<close>

definition write_param :: "dbrelay_request \<Rightarrow> string \<Rightarrow> string \<Rightarrow> dbrelay_request" where
  "write_param r digits value =
     (let i = unat (word_of_int (atoi digits) :: 32 word) in
      if i > DBRELAY_MAX_PARAMS then r
      else if i > 0 then r\<lparr>params := (params r)[i - 1 := Some value]\<rparr>
      else r)"

text \<open>The dispatch of \<^verbatim>\<open>write_value\<close> on the key, once the value is decoded.\<close>

definition store_value :: "dbrelay_request \<Rightarrow> string \<Rightarrow> string \<Rightarrow> dbrelay_request" where
  "store_value r key value =
     (if key = ''cmd'' then r\<lparr>cmd := dbrelay_copy_string value DBRELAY_OBJ_SZ\<rparr>
      else if key = ''status'' then r\<lparr>status := 1\<rparr>
      else if key = ''sql_dbtype'' then r\<lparr>sql_dbtype := dbrelay_copy_string value DBRELAY_OBJ_SZ\<rparr>
      else if key = ''sql_database'' then r\<lparr>sql_database := dbrelay_copy_string value DBRELAY_OBJ_SZ\<rparr>
      else if key = ''sql_server'' then r\<lparr>sql_server := dbrelay_copy_string value DBRELAY_NAME_SZ\<rparr>
      else if key = ''sql_user'' then r\<lparr>sql_user := dbrelay_copy_string value DBRELAY_OBJ_SZ\<rparr>
      else if key = ''sql_port'' then r\<lparr>sql_port := dbrelay_copy_string value 6\<rparr>
      else if key = ''sql'' then r\<lparr>sql := Some value\<rparr>
      else if key = ''query_tag'' then r\<lparr>query_tag := dbrelay_copy_string value DBRELAY_NAME_SZ\<rparr>
      else if key = ''sql_password'' then r\<lparr>sql_password := dbrelay_copy_string value DBRELAY_OBJ_SZ\<rparr>
      else if key = ''connection_name'' then r\<lparr>connection_name := dbrelay_copy_string value DBRELAY_NAME_SZ\<rparr>
      else if key = ''connection_timeout'' then r\<lparr>connection_timeout := atol value\<rparr>
      else if key = ''http_keepalive'' then r\<lparr>http_keepalive := atoi value\<rparr>
      else if key = ''log_level'' then r\<lparr>log_level := index_loop log_levels value 0 (log_level r)\<rparr>
      else if key = ''log_level_scope'' then
        r\<lparr>log_level_scope := index_loop log_level_scopes value 0 (log_level_scope r)\<rparr>
      else if strncmp_eq key ''param'' 5 then write_param r (drop 5 key) value
      else if key = ''flags'' then write_flag_values r value
      else if key = ''js_callback'' then r\<lparr>js_callback := dbrelay_copy_string value DBRELAY_NAME_SZ\<rparr>
      else if key = ''js_error'' then r\<lparr>js_error := dbrelay_copy_string value DBRELAY_NAME_SZ\<rparr>
      else r)"

text \<open>
  The decoding at the head of \<^verbatim>\<open>write_value\<close>: each \<open>+\<close> becomes a blank, then
  \<^verbatim>\<open>ngx_unescape_uri\<close> (nginx's own code, the parameter \<open>u\<close>) undoes the percent escapes.
\<close>

definition unplus :: "string \<Rightarrow> string" where
  "unplus value = map (\<lambda>c. if c = CHR ''+'' then CHR '' '' else c) value"

lemma length_unplus [simp]: "length (unplus v) = length v"
  by (simp add: unplus_def)

definition decode_value :: "(string \<Rightarrow> string) \<Rightarrow> string \<Rightarrow> string" where
  "decode_value u value = u (unplus value)"

definition write_value ::
    "(string \<Rightarrow> string) \<Rightarrow> dbrelay_request \<Rightarrow> string \<Rightarrow> string \<Rightarrow> dbrelay_request" where
  "write_value u r key value = store_value r key (cstr (decode_value u value))"

subsection \<open>Every field fits its array\<close>

definition fits :: "nat \<Rightarrow> string \<Rightarrow> bool" where
  "fits n s \<longleftrightarrow> length s < n \<and> c_string s"

definition request_wf :: "dbrelay_request \<Rightarrow> bool" where
  "request_wf r \<longleftrightarrow>
     fits DBRELAY_NAME_SZ (cmd r) \<and> fits DBRELAY_NAME_SZ (sql_server r) \<and> fits 6 (sql_port r) \<and>
     fits DBRELAY_OBJ_SZ (sql_database r) \<and> fits DBRELAY_OBJ_SZ (sql_user r) \<and>
     fits DBRELAY_OBJ_SZ (sql_password r) \<and> pred_option c_string (sql r) \<and>
     fits DBRELAY_NAME_SZ (query_tag r) \<and> fits DBRELAY_NAME_SZ (connection_name r) \<and>
     fits 4000 (error_message r) \<and> length (params r) = DBRELAY_MAX_PARAMS \<and>
     list_all (pred_option c_string) (params r) \<and>
     fits DBRELAY_OBJ_SZ (sql_dbtype r) \<and> fits DBRELAY_OBJ_SZ (remote_addr r) \<and>
     fits 256 (sock_path r) \<and>
     fits DBRELAY_NAME_SZ (js_callback r) \<and> fits DBRELAY_NAME_SZ (js_error r)"

lemma fits_copy [simp]: "0 < n \<Longrightarrow> c_string s \<Longrightarrow> fits n (dbrelay_copy_string s n)"
  by (simp add: fits_def copy_string_fits)

lemma fits_mono: "fits n s \<Longrightarrow> n \<le> m \<Longrightarrow> fits m s"
  by (simp add: fits_def)

lemma alloc_request_wf: "request_wf dbrelay_alloc_request"
  by (simp add: request_wf_def dbrelay_alloc_request_def zero_request_def fits_def size_defs list_all_iff)

lemma flags_write_flag_values:
  "write_flag_values r value =
     r\<lparr>flags := foldl (\<lambda>f tok. f OR flag_token tok) (flags r) (strsep_all CHR '','' value)\<rparr>"
proof -
  have "foldl (\<lambda>r tok. r\<lparr>flags := flags r OR flag_token tok\<rparr>) r toks =
      r\<lparr>flags := foldl (\<lambda>f tok. f OR flag_token tok) (flags r) toks\<rparr>" for toks
    by (induction toks arbitrary: r) simp_all
  then show ?thesis by (simp add: write_flag_values_def)
qed

lemma list_all_list_update: "list_all P xs \<Longrightarrow> P x \<Longrightarrow> list_all P (xs[i := x])"
  by (induction xs arbitrary: i) (auto split: nat.splits)

lemma store_value_wf:
  assumes "request_wf r" "c_string value"
  shows "request_wf (store_value r key value)"
proof -
  have "fits DBRELAY_NAME_SZ (dbrelay_copy_string value DBRELAY_OBJ_SZ)"
    by (rule fits_mono[of DBRELAY_OBJ_SZ]) (simp_all add: size_defs assms(2))
  with assms show ?thesis
    unfolding store_value_def request_wf_def
    by (simp add: write_param_def Let_def flags_write_flag_values list_all_list_update size_defs)
qed

lemma write_value_wf: "request_wf r \<Longrightarrow> request_wf (write_value u r key value)"
  by (simp add: write_value_def store_value_wf)

end
