(* ===== verification/Socket.thy ===== *)
theory Socket
  imports Request
begin

section \<open>Lines over a local socket (src/socket.c)\<close>

text \<open>
  The worker and the connector talk in lines over a non-blocking UNIX socket. What the kernel
  answers to the calls on the socket is a list of events; a call that would wait for ever finds
  the list empty, and its value is \<open>None\<close>.
\<close>

unbundle bit_operations_syntax

subsection \<open>Waiting, creating, accepting and connecting\<close>

definition SEL_WRITE :: "32 word" where "SEL_WRITE = 1"
definition SEL_READ :: "32 word" where "SEL_READ = 2"
definition SEL_ERROR :: "32 word" where "SEL_ERROR = 4"

text \<open>The arguments \<^verbatim>\<open>dbrelay_socket_wait\<close> makes for \<^verbatim>\<open>select\<close>; no time limit is a null pointer.\<close>

record select_call =
  readfds :: bool
  writefds :: bool
  errorfds :: bool
  tv_sec :: "int option"

definition dbrelay_socket_wait :: "(select_call \<Rightarrow> int) \<Rightarrow> 32 word \<Rightarrow> int \<Rightarrow> int" where
  "dbrelay_socket_wait select_fn sel_mode timeout =
     select_fn \<lparr>readfds = (sel_mode AND SEL_READ \<noteq> 0), writefds = (sel_mode AND SEL_WRITE \<noteq> 0),
       errorfds = (sel_mode AND SEL_ERROR \<noteq> 0),
       tv_sec = (if timeout \<noteq> 0 then Some timeout else None)\<rparr>"

text \<open>
  The calls of the kernel that setting up a socket makes, by their results: \<open>sys_socket\<close>
  and \<open>sys_ioctl\<close> return \<open>-1\<close> for a failure, \<open>sys_connect\<close> takes the path and
  \<open>sys_accept\<close> gives the descriptor of a client. A path must fit \<^verbatim>\<open>sun_path\<close>.
\<close>

record sock_calls =
  sys_socket :: int
  sys_ioctl :: int
  sys_connect :: "string \<Rightarrow> int"
  sys_accept :: int
  sys_select :: "select_call \<Rightarrow> int"

definition SUN_PATH_SZ :: nat where "SUN_PATH_SZ = 108"
definition EINPROGRESS :: int where "EINPROGRESS = 115"

text \<open>
  The results of the functions are \<^verbatim>\<open>unsigned int\<close>, where \<open>-1\<close> is the largest one. The
  results of \<^verbatim>\<open>bind\<close> and \<^verbatim>\<open>listen\<close> are not looked at.
\<close>

definition dbrelay_socket_create :: "sock_calls \<Rightarrow> string \<Rightarrow> 32 word result" where
  "dbrelay_socket_create k path =
     (if sys_ioctl k < 0 then Inr (- 1)
      else if length path < SUN_PATH_SZ then Inr (word_of_int (sys_socket k))
      else Inl Buffer_Overflow)"

definition dbrelay_socket_accept :: "sock_calls \<Rightarrow> 32 word" where
  "dbrelay_socket_accept k =
     (let ret = dbrelay_socket_wait (sys_select k) SEL_READ 30
      in if ret \<le> 0 then word_of_int ret else word_of_int (sys_accept k))"

text \<open>
  The descriptor or \<open>-1\<close>, and the value of \<^verbatim>\<open>*error\<close> if it was set. The code compares the
  result of \<^verbatim>\<open>connect\<close>, which is \<open>-1\<close>, with \<^verbatim>\<open>EINPROGRESS\<close>.
\<close>

definition dbrelay_socket_connect ::
    "sock_calls \<Rightarrow> string \<Rightarrow> int \<Rightarrow> (int \<times> int option) result" where
  "dbrelay_socket_connect k path timeout =
     (if sys_socket k = - 1 then Inr (- 1, Some 1)
      else if sys_ioctl k < 0 then Inr (- 1, Some 2)
      else if \<not> length path < SUN_PATH_SZ then Inl Buffer_Overflow
      else
        (let ret = sys_connect k path in
         if ret = - 1 then
           (if ret = EINPROGRESS then
              (if dbrelay_socket_wait (sys_select k) (SEL_WRITE OR SEL_ERROR) timeout = - 1
               then Inr (- 1, Some 3) else Inr (sys_socket k, None))
            else Inr (- 1, Some 4))
         else Inr (sys_socket k, None)))"

subsection \<open>Sending a string\<close>

text \<open>One turn of the loop: the wait fails, \<^verbatim>\<open>send\<close> fails, or it takes so many bytes.\<close>

datatype send_event = Send_Wait_Failed | Send_Failed | Sent nat

text \<open>The result, the bytes that went out, and the events left.\<close>

fun dbrelay_socket_send_string ::
    "send_event list \<Rightarrow> string \<Rightarrow> (int \<times> string \<times> send_event list) option" where
  "dbrelay_socket_send_string evs [] = Some (0, [], evs)"
| "dbrelay_socket_send_string [] (c # cs) = None"
| "dbrelay_socket_send_string (e # evs) (c # cs) =
     (case e of
        Send_Wait_Failed \<Rightarrow> Some (- 1, [], evs)
      | Send_Failed \<Rightarrow> Some (- 1, [], evs)
      | Sent n \<Rightarrow>
          map_option (\<lambda>(ret, out, evs). (ret, take n (c # cs) @ out, evs))
            (dbrelay_socket_send_string evs (drop n (c # cs))))"

subsection \<open>Receiving a line\<close>

text \<open>
  One turn of the wait and \<^verbatim>\<open>recv\<close>: bytes, an interrupted call, the end of the stream, or a
  failure (of the wait, of the call, or a time limit that ran out, after which the call finds
  nothing to read).
\<close>

datatype recv_event = Bytes string | Interrupted | Closed | Recv_Failed

text \<open>
  \<open>in_buf\<close> is what the last \<^verbatim>\<open>recv\<close> put before its NUL, \<open>in_ptr\<close> the position in it
  or \<open>-1\<close> for an empty buffer, both kept by the caller between calls.
\<close>

record recv_state =
  in_buf :: string
  in_ptr :: int

definition no_input :: recv_state where
  "no_input = \<lparr>in_buf = [], in_ptr = - 1\<rparr>"

definition reset_ptr :: "int \<Rightarrow> int \<Rightarrow> int" where
  "reset_ptr bound p = (if p \<ge> bound then - 1 else p)"

text \<open>
  The work on a filled buffer: the new state and the bytes in \<^verbatim>\<open>out_buf\<close>, with \<open>True\<close> for
  \<open>return 1\<close> and \<open>False\<close> for another turn of the loop.
\<close>

definition take_line :: "recv_state \<Rightarrow> string \<Rightarrow> recv_state \<times> string \<times> bool" where
  "take_line st out =
     (let txt = cstr (in_buf st);
          p = nat (in_ptr st);
          len = length txt;
          avail = length (takeWhile (\<lambda>c. c \<noteq> NL) (drop p txt));
          space = DBRELAY_SOCKET_BUFSIZE - length out - 1
      in if space > avail then
           (let out = out @ take avail (drop p txt);
                p = p + avail
            in if p < len \<and> txt ! p = NL then
                 (st\<lparr>in_ptr := reset_ptr (int len) (int p + 1)\<rparr>, out @ [NL], True)
               else (st\<lparr>in_ptr := reset_ptr (int len) (int p)\<rparr>, out, False))
         else
           (st\<lparr>in_ptr := reset_ptr (int DBRELAY_SOCKET_BUFSIZE - 1) (int (p + space))\<rparr>,
            out @ take space (drop p txt), True))"

text \<open>The loop. The result is the return value, \<^verbatim>\<open>out_buf\<close>, the state and the events left.\<close>

function recv_loop ::
    "recv_event list \<Rightarrow> recv_state \<Rightarrow> string \<Rightarrow>
     (int \<times> string \<times> recv_state \<times> recv_event list) option" where
  "recv_loop evs st out =
     (let st = st\<lparr>in_ptr := reset_ptr (int DBRELAY_SOCKET_BUFSIZE - 1) (in_ptr st)\<rparr> in
      if in_ptr st = - 1 then
        (case evs of
           [] \<Rightarrow> None
         | Interrupted # evs \<Rightarrow> recv_loop evs st out
         | Closed # evs \<Rightarrow> Some (0, out, st, evs)
         | Recv_Failed # evs \<Rightarrow> Some (- 1, out, st, evs)
         | Bytes bs # evs \<Rightarrow>
             (case take_line (st\<lparr>in_buf := bs, in_ptr := 0\<rparr>) out of
                (st, out, True) \<Rightarrow> Some (1, out, st, evs)
              | (st, out, False) \<Rightarrow> recv_loop evs st out))
      else
        (case take_line st out of
           (st, out, True) \<Rightarrow> Some (1, out, st, evs)
         | (st, out, False) \<Rightarrow> recv_loop evs st out))"
  by pat_completeness auto

lemma take_line_again:
  assumes "take_line st out = (st', out', False)"
  shows "in_ptr st' = - 1"
proof -
  let ?xs = "drop (nat (in_ptr st)) (cstr (in_buf st))"
  have "?xs ! length (takeWhile (\<lambda>c. c \<noteq> NL) ?xs) = NL"
    if "length (takeWhile (\<lambda>c. c \<noteq> NL) ?xs) < length ?xs"
    using nth_length_takeWhile[OF that] by simp
  with assms show ?thesis
    by (auto simp: take_line_def Let_def reset_ptr_def split: if_splits)
qed

text \<open>Every turn that does not return reads an event, or empties the buffer.\<close>

termination recv_loop
proof (relation "measure (\<lambda>(evs, st, out). 2 * length evs + (if in_ptr st = - 1 then 0 else 1))")
qed (auto simp: reset_ptr_def dest!: sym[of _ "take_line _ _"] dest: take_line_again split: if_splits)

text \<open>What the worker and the connector call, with \<^verbatim>\<open>out_buf\<close> empty at first.\<close>

definition dbrelay_socket_recv_string ::
    "recv_event list \<Rightarrow> recv_state \<Rightarrow> (int \<times> string \<times> recv_state \<times> recv_event list) option" where
  "dbrelay_socket_recv_string evs st = recv_loop evs st []"

subsection \<open>The next line of a stream\<close>

text \<open>
  The contract of receiving: \<open>piece n s\<close> is the next piece of the stream \<open>s\<close> for a
  buffer with room for \<open>n\<close> bytes, a line with its newline, or the first \<open>n\<close> bytes when
  no line ends among them; the second component is what is left.
\<close>

fun piece :: "nat \<Rightarrow> string \<Rightarrow> (string \<times> string) option" where
  "piece 0 s = Some ([], s)"
| "piece (Suc n) [] = None"
| "piece (Suc n) (c # s) =
     (if c = NL then Some ([c], s) else map_option (\<lambda>(a, r). (c # a, r)) (piece n s))"

fun stream :: "recv_event list \<Rightarrow> string" where
  "stream [] = []"
| "stream (Bytes bs # evs) = bs @ stream evs"
| "stream (Interrupted # evs) = stream evs"
| "stream (Closed # evs) = []"
| "stream (Recv_Failed # evs) = []"

definition pending_in :: "recv_state \<Rightarrow> string" where
  "pending_in st = (if in_ptr st = - 1 then [] else drop (nat (in_ptr st)) (in_buf st))"

text \<open>What the kernel promises of the bytes of one \<^verbatim>\<open>recv\<close>, and the peer of the protocol.\<close>

fun bytes_ok :: "recv_event \<Rightarrow> bool" where
  "bytes_ok (Bytes bs) \<longleftrightarrow> bs \<noteq> [] \<and> length bs < DBRELAY_SOCKET_BUFSIZE \<and> c_string bs"
| "bytes_ok e \<longleftrightarrow> True"

definition recv_ok :: "recv_state \<Rightarrow> bool" where
  "recv_ok st \<longleftrightarrow> c_string (in_buf st) \<and> length (in_buf st) < DBRELAY_SOCKET_BUFSIZE \<and>
     - 1 \<le> in_ptr st \<and> in_ptr st \<le> int (length (in_buf st))"

lemma piece_append:
  "piece n s = Some (a, r) \<Longrightarrow> piece n (s @ t) = Some (a, r @ t)"
  by (induction n s arbitrary: a rule: piece.induct) (auto split: if_splits)

lemma piece_None: "piece n s = None \<longleftrightarrow> NL \<notin> set s \<and> length s < n"
  by (induction n s rule: piece.induct) auto

lemma piece_more:
  "piece n s = None \<Longrightarrow> piece n (s @ t) = map_option (\<lambda>(a, r). (s @ a, r)) (piece (n - length s) t)"
proof (induction n s rule: piece.induct)
  case (2 n)
  then show ?case by (cases "piece (Suc n) t") auto
next
  case (3 n c s)
  then show ?case by (cases "piece (n - length s) t") (auto split: if_splits)
qed simp

lemma piece_split: "piece n s = Some (a, r) \<Longrightarrow> s = a @ r \<and> length a \<le> n \<and> (0 < n \<longrightarrow> a \<noteq> [])"
  by (induction n s arbitrary: a rule: piece.induct) (auto split: if_splits)

lemma piece_line:
  "NL \<notin> set l \<Longrightarrow> length l < n \<Longrightarrow> piece n (l @ NL # r) = Some (l @ [NL], r)"
proof (induction l arbitrary: n)
  case Nil
  then show ?case by (cases n) simp_all
next
  case (Cons c l)
  then show ?case by (cases n) auto
qed

lemma piece_full:
  "NL \<notin> set l \<Longrightarrow> n \<le> length l \<Longrightarrow> piece n (l @ r) = Some (take n l, drop n l @ r)"
proof (induction l arbitrary: n)
  case (Cons c l)
  then show ?case by (cases n) auto
qed simp

lemma no_input_ok: "recv_ok no_input" "pending_in no_input = []"
  by (simp_all add: recv_ok_def no_input_def pending_in_def size_defs)

lemma pending_reset [simp]:
  "recv_ok st \<Longrightarrow>
     pending_in (st\<lparr>in_ptr := reset_ptr (int DBRELAY_SOCKET_BUFSIZE - 1) (in_ptr st)\<rparr>) = pending_in st"
  by (auto simp: pending_in_def reset_ptr_def recv_ok_def)

lemma recv_ok_reset [simp]:
  "recv_ok st \<Longrightarrow> recv_ok (st\<lparr>in_ptr := reset_ptr (int DBRELAY_SOCKET_BUFSIZE - 1) (in_ptr st)\<rparr>)"
  by (auto simp: reset_ptr_def recv_ok_def)

text \<open>A position at or after the bound of the buffer means that all of it was read.\<close>

lemma pending_ptr:
  "recv_ok (st\<lparr>in_ptr := int p\<rparr>) \<Longrightarrow> int (length (in_buf st)) \<le> b \<Longrightarrow>
     recv_ok (st\<lparr>in_ptr := reset_ptr b (int p)\<rparr>) \<and>
     pending_in (st\<lparr>in_ptr := reset_ptr b (int p)\<rparr>) = drop p (in_buf st)"
  by (auto simp: recv_ok_def pending_in_def reset_ptr_def)

text \<open>One turn on a filled buffer.\<close>

lemma take_line_piece:
  assumes ok: "recv_ok st" "0 \<le> in_ptr st" "length out < DBRELAY_SOCKET_BUFSIZE - 1"
  shows "case piece (DBRELAY_SOCKET_BUFSIZE - 1 - length out) (pending_in st) of
     Some (a, r) \<Rightarrow> \<exists>st'. take_line st out = (st', out @ a, True) \<and> recv_ok st' \<and> pending_in st' = r
   | None \<Rightarrow> \<exists>st'. take_line st out = (st', out @ pending_in st, False) \<and> recv_ok st' \<and>
       in_ptr st' = - 1"
proof -
  obtain p where p: "in_ptr st = int p" "p \<le> length (in_buf st)"
    using ok by (auto simp: recv_ok_def dest: nonneg_int_cases)
  define s where "s = drop p (in_buf st)"
  define l where "l = takeWhile (\<lambda>c. c \<noteq> NL) s"
  define n where "n = DBRELAY_SOCKET_BUFSIZE - 1 - length out"
  have c: "cstr (in_buf st) = in_buf st" using ok(1) by (simp add: recv_ok_def cstr_simps)
  have ps: "pending_in st = s" by (simp add: pending_in_def p s_def)
  have ptr: "recv_ok (st\<lparr>in_ptr := int q\<rparr>)" if "q \<le> length (in_buf st)" for q
    using ok(1) that by (simp add: recv_ok_def)
  have nl: "NL \<notin> set l" by (auto simp: l_def dest: set_takeWhileD)
  have s: "s = l @ dropWhile (\<lambda>c. c \<noteq> NL) s" by (simp add: l_def)
  have len: "length (in_buf st) = p + length s" using p by (simp add: s_def)
  have rest: "dropWhile (\<lambda>c. c \<noteq> NL) s = [] \<or> (\<exists>r. dropWhile (\<lambda>c. c \<noteq> NL) s = NL # r)"
    by (cases "dropWhile (\<lambda>c. c \<noteq> NL) s") (auto simp: dropWhile_eq_Cons_conv)
  have n: "DBRELAY_SOCKET_BUFSIZE - length out - 1 = n" using ok(3) by (simp add: n_def)
  have n2: "DBRELAY_SOCKET_BUFSIZE - Suc (length out) = n" by (simp add: n_def)
  note def = take_line_def Let_def c p(1) nat_int s_def[symmetric] l_def[symmetric] n n2
  consider (full) "n \<le> length l"
    | (line) r where "length l < n" "s = l @ NL # r"
    | (part) "length l < n" "s = l"
    using s rest by (metis append_Nil2 linorder_not_le)
  then show ?thesis
  proof cases
    case full
    have "piece n s = Some (take n s, drop n s)"
      using piece_full[OF nl full, of "dropWhile (\<lambda>c. c \<noteq> NL) s"] s full by (metis append_eq_append_conv append_take_drop_id drop_append drop_eq_Nil take_append diff_is_0_eq take_0 drop_0 append_Nil2)
    moreover have "p + n \<le> length (in_buf st)"
      using full len s by (metis add_le_cancel_left le_add1 length_append order_trans)
    moreover note pending_ptr[OF ptr, of "p + n" "int DBRELAY_SOCKET_BUFSIZE - 1"]
    ultimately show ?thesis using full ok(1)
      by (simp add: def ps recv_ok_def) (simp add: s_def add.commute)
  next
    case line
    let ?st = "st\<lparr>in_ptr := reset_ptr (int (length (in_buf st))) (int (p + length l + 1))\<rparr>"
    have nth: "p + length l < length (in_buf st)" "in_buf st ! (p + length l) = NL"
    proof -
      show "p + length l < length (in_buf st)" using len line(2) by simp
      have "drop p (in_buf st) ! length l = NL" using line(2) by (simp flip: s_def)
      then show "in_buf st ! (p + length l) = NL" using p(2) by simp
    qed
    have "take (length l) s = l" using line(2) by simp
    with line(1) nth have "take_line st out = (?st, out @ l @ [NL], True)"
      by (simp add: def add.commute)
    moreover have "drop (p + length l + 1) (in_buf st) = drop (length l + 1) s"
      by (simp add: s_def add_ac)
    then have "recv_ok ?st \<and> pending_in ?st = r"
      using pending_ptr[OF ptr, of "p + length l + 1" "int (length (in_buf st))"] nth(1)
      by (simp add: line(2))
    ultimately show ?thesis
      using piece_line[OF nl line(1), of r] line(2) by (simp add: ps n2)
  next
    case part
    then have "piece n s = None" using nl by (simp add: piece_None)
    have tl: "takeWhile (\<lambda>c. c \<noteq> NL) l = l" using nl by (auto simp: takeWhile_eq_all_conv)
    show ?thesis using part len ptr[of "p + length l"] \<open>piece n s = None\<close>
      by (simp add: def ps reset_ptr_def recv_ok_def tl)
  qed
qed

subsection \<open>The loop returns the next line of the stream\<close>

definition room :: "string \<Rightarrow> nat" where
  "room out = DBRELAY_SOCKET_BUFSIZE - 1 - length out"

lemma room_append [simp]: "room (out @ s) = room out - length s"
  by (simp add: room_def)

lemma room_pos: "length out < DBRELAY_SOCKET_BUFSIZE - 1 \<longleftrightarrow> 0 < room out"
  unfolding room_def by linarith

declare recv_loop.simps [simp del]

text \<open>
  \<open>receives st evs out res s\<close>: the loop's result \<open>res\<close> for the bytes \<open>out\<close> so
  far and the bytes \<open>s\<close> to come.
\<close>

definition receives ::
    "string \<Rightarrow> string \<Rightarrow> (int \<times> string \<times> recv_state \<times> recv_event list) option \<Rightarrow> bool" where
  "receives out s res \<longleftrightarrow>
     (case piece (room out) s of
        Some (a, r) \<Rightarrow>
          (\<exists>st' evs'. res = Some (1, out @ a, st', evs') \<and> recv_ok st' \<and> list_all bytes_ok evs' \<and>
             pending_in st' @ stream evs' = r)
      | None \<Rightarrow> (case res of None \<Rightarrow> True | Some (ret, _) \<Rightarrow> ret \<le> 0))"

lemma receives_piece:
  "piece (room out) s = Some (a, r) \<Longrightarrow> recv_ok st' \<Longrightarrow>
   list_all bytes_ok evs' \<Longrightarrow> pending_in st' = r \<Longrightarrow>
   receives out (s @ stream evs') (Some (1, out @ a, st', evs'))"
  using piece_append[of "room out" s a r "stream evs'"] by (auto simp: receives_def)

lemma receives_more:
  "piece (room out) s = None \<Longrightarrow>
   receives (out @ s) t res \<Longrightarrow> receives out (s @ t) res"
  by (cases "piece (room out - length s) t") (auto simp: receives_def piece_more)

lemma piece_None_space:
  "piece (room out) s = None \<Longrightarrow>
     0 < room (out @ s)"
  by (auto simp: piece_None)

text \<open>The work on a filled buffer, whatever comes after it.\<close>

lemma filled_receives:
  assumes "recv_ok st" "0 \<le> in_ptr st" "0 < room out"
    and "list_all bytes_ok evs"
    and "\<And>st' out'. take_line st out = (st', out', False) \<Longrightarrow> recv_ok st' \<Longrightarrow> in_ptr st' = - 1 \<Longrightarrow>
      0 < room out' \<Longrightarrow> receives out' (stream evs) (recv_loop evs st' out')"
  shows "receives out (pending_in st @ stream evs)
    (case take_line st out of
       (st, out, True) \<Rightarrow> Some (1, out, st, evs) | (st, out, False) \<Rightarrow> recv_loop evs st out)"
proof -
  note turn = take_line_piece[OF assms(1,2) assms(3)[folded room_pos], folded room_def]
  show ?thesis
  proof (cases "piece (room out) (pending_in st)")
  case None
  with turn obtain st' where
    st': "take_line st out = (st', out @ pending_in st, False)" "recv_ok st'" "in_ptr st' = - 1"
    by auto
  have "0 < room (out @ pending_in st)" using None by (rule piece_None_space)
  from receives_more[OF None assms(5)[OF st' this]] st'(1) show ?thesis by simp
next
  case (Some ar)
  with turn obtain a r st' where
    "piece (room out) (pending_in st) = Some (a, r)"
    "take_line st out = (st', out @ a, True)" "recv_ok st'" "pending_in st' = r" by (cases ar) auto
  with assms(4) show ?thesis by (auto intro: receives_piece)
qed
qed

lemma recv_loop_receives:
  "recv_ok st \<Longrightarrow> list_all bytes_ok evs \<Longrightarrow> 0 < room out \<Longrightarrow>
     receives out (pending_in st @ stream evs) (recv_loop evs st out)"
proof (induction evs st out rule: recv_loop.induct)
  case (1 evs st out)
  define st1 where "st1 = st\<lparr>in_ptr := reset_ptr (int DBRELAY_SOCKET_BUFSIZE - 1) (in_ptr st)\<rparr>"
  have st1: "recv_ok st1" "pending_in st1 = pending_in st"
    using 1 by (simp_all add: st1_def)
  note IH = 1(1-3)[OF st1_def]
  note eq = recv_loop.simps[of evs st out, folded st1_def, unfolded Let_def]
  show ?case
  proof (cases "in_ptr st1 = - 1")
    case False
    with st1(1) have "0 \<le> in_ptr st1" by (simp add: recv_ok_def)
    from filled_receives[OF st1(1) this "1.prems"(3,2)] IH False "1.prems"
    show ?thesis unfolding eq st1(2) by (force simp: pending_in_def)
  next
    case True
    then have p: "pending_in st = []" using st1(2) by (simp add: pending_in_def)
    show ?thesis
    proof (cases evs)
      case Nil
      then show ?thesis
        unfolding eq p using "1.prems"(3) True by (cases "room out") (simp_all add: receives_def)
    next
      case (Cons e evs')
      with "1.prems"(2) have evs': "bytes_ok e" "list_all bytes_ok evs'" by simp_all
      show ?thesis
      proof (cases e)
        case (Bytes bs)
        let ?st = "st1\<lparr>in_buf := bs, in_ptr := 0\<rparr>"
        from Bytes evs'(1) have st: "recv_ok ?st" "0 \<le> in_ptr ?st" "pending_in ?st = bs"
          by (simp_all add: recv_ok_def pending_in_def)
        from filled_receives[OF st(1,2) "1.prems"(3) evs'(2)] IH(1)[OF True Cons Bytes] evs'(2)
        show ?thesis unfolding eq using True Cons Bytes st(3) p by (force simp: pending_in_def)
      next
        case Interrupted
        then show ?thesis
          using IH(2)[OF True Cons Interrupted] st1 evs' p "1.prems"(3) unfolding eq by (simp add: True Cons)
      next
        case Closed
        then show ?thesis
          unfolding eq p using "1.prems"(3) True Cons by (cases "room out") (simp_all add: receives_def)
      next
        case Recv_Failed
        then show ?thesis
          unfolding eq p using "1.prems"(3) True Cons by (cases "room out") (simp_all add: receives_def)
      qed
    qed
  qed
qed

subsection \<open>Many calls in a row\<close>

fun recv_many ::
    "nat \<Rightarrow> recv_event list \<Rightarrow> recv_state \<Rightarrow> (string list \<times> recv_state \<times> recv_event list) option" where
  "recv_many 0 evs st = Some ([], st, evs)"
| "recv_many (Suc k) evs st =
     (case dbrelay_socket_recv_string evs st of
        Some (ret, out, st, evs) \<Rightarrow>
          (if ret > 0 then map_option (\<lambda>(ls, st, evs). (out # ls, st, evs)) (recv_many k evs st)
           else None)
      | None \<Rightarrow> None)"

fun pieces :: "nat \<Rightarrow> string \<Rightarrow> (string list \<times> string) option" where
  "pieces 0 s = Some ([], s)"
| "pieces (Suc k) s =
     (case piece (DBRELAY_SOCKET_BUFSIZE - 1) s of
        None \<Rightarrow> None
      | Some (a, r) \<Rightarrow> map_option (\<lambda>(ls, r). (a # ls, r)) (pieces k r))"

lemma recv_string_receives:
  "recv_ok st \<Longrightarrow> list_all bytes_ok evs \<Longrightarrow>
     receives [] (pending_in st @ stream evs) (dbrelay_socket_recv_string evs st)"
  unfolding dbrelay_socket_recv_string_def
  by (rule recv_loop_receives) (simp_all add: room_def size_defs)

lemma recv_string_Some:
  assumes "recv_ok st" "list_all bytes_ok evs"
    and "piece (DBRELAY_SOCKET_BUFSIZE - 1) (pending_in st @ stream evs) = Some (a, r)"
  obtains st' evs' where "dbrelay_socket_recv_string evs st = Some (1, a, st', evs')"
    "recv_ok st'" "list_all bytes_ok evs'" "pending_in st' @ stream evs' = r"
  using recv_string_receives[OF assms(1,2)] assms(3)
  by (auto simp: receives_def room_def)

lemma recv_string_None:
  assumes "recv_ok st" "list_all bytes_ok evs"
    and "piece (DBRELAY_SOCKET_BUFSIZE - 1) (pending_in st @ stream evs) = None"
  shows "case dbrelay_socket_recv_string evs st of None \<Rightarrow> True | Some (ret, _) \<Rightarrow> ret \<le> 0"
  using recv_string_receives[OF assms(1,2)] assms(3)
  by (simp add: receives_def room_def)

lemma recv_many_pieces:
  "recv_ok st \<Longrightarrow> list_all bytes_ok evs \<Longrightarrow>
     (case pieces k (pending_in st @ stream evs) of
        None \<Rightarrow> recv_many k evs st = None
      | Some (ls, r) \<Rightarrow> \<exists>st' evs'. recv_many k evs st = Some (ls, st', evs') \<and> recv_ok st' \<and>
          list_all bytes_ok evs' \<and> pending_in st' @ stream evs' = r)"
proof (induction k arbitrary: evs st)
  case 0
  then show ?case by simp
next
  case (Suc k)
  show ?case
  proof (cases "piece (DBRELAY_SOCKET_BUFSIZE - 1) (pending_in st @ stream evs)")
    case None
    from recv_string_None[OF Suc.prems None] None show ?thesis by (auto split: option.splits)
  next
    case (Some ar)
    then obtain a r where ar: "piece (DBRELAY_SOCKET_BUFSIZE - 1) (pending_in st @ stream evs) = Some (a, r)"
      by (cases ar) auto
    from recv_string_Some[OF Suc.prems ar] obtain st1 evs1 where
      1: "dbrelay_socket_recv_string evs st = Some (1, a, st1, evs1)" "recv_ok st1"
        "list_all bytes_ok evs1" "pending_in st1 @ stream evs1 = r" by metis
    from Suc.IH[OF 1(2,3)] 1(1,4) ar show ?thesis
      by (cases "pieces k r") auto
  qed
qed

lemma pieces_concat: "pieces k s = Some (ls, r) \<Longrightarrow> concat ls @ r = s"
  by (induction k arbitrary: s ls) (auto split: option.splits dest!: piece_split)

text \<open>A stream of short lines is returned line by line.\<close>

definition line_ok :: "string \<Rightarrow> bool" where
  "line_ok l \<longleftrightarrow> NL \<notin> set l \<and> length l < DBRELAY_SOCKET_BUFSIZE - 1"

lemma pieces_lines:
  "list_all line_ok ls \<Longrightarrow>
     pieces (length ls) (concat (map (\<lambda>l. l @ [NL]) ls) @ r) = Some (map (\<lambda>l. l @ [NL]) ls, r)"
  by (induction ls) (auto simp: line_ok_def piece_line)

subsection \<open>Properties\<close>

text \<open>However the kernel cuts the bytes of the peer, and wherever it interrupts the calls,
  \<open>dbrelay_socket_recv_string\<close> returns the next line with its newline, or the next 4095 bytes of a
  longer line, and keeps every byte after it for the next call; it waits or fails only when the
  peer has sent neither. The loop always ends.
\<close>

theorem recv_string_next_line:
  assumes "recv_ok st" "list_all bytes_ok evs"
  shows "case piece 4095 (pending_in st @ stream evs) of
     Some (a, r) \<Rightarrow>
       \<exists>st' evs'. dbrelay_socket_recv_string evs st = Some (1, a, st', evs') \<and> recv_ok st' \<and>
         list_all bytes_ok evs' \<and> pending_in st' @ stream evs' = r
   | None \<Rightarrow>
       (case dbrelay_socket_recv_string evs st of None \<Rightarrow> True | Some (ret, _) \<Rightarrow> ret \<le> 0)"
  using recv_string_receives[OF assms] by (auto simp: receives_def room_def size_defs split: option.splits)

theorem recv_string_next_line_witness:
  "\<exists>st' evs'. dbrelay_socket_recv_string [Bytes '':O'', Interrupted, Bytes (''K'' @ [NL] @ ''x'')]
      no_input = Some (1, '':OK'' @ [NL], st', evs') \<and> pending_in st' @ stream evs' = ''x''"
  using recv_string_next_line[OF no_input_ok(1),
      of "[Bytes '':O'', Interrupted, Bytes (''K'' @ [NL] @ ''x'')]"]
  by (auto simp: no_input_ok size_defs numeral_eq_Suc)

text \<open>C12.
  Nothing is lost, doubled or reordered by the buffering: the strings that any number of calls
  return, in order, followed by what is still buffered or to come, are the stream of the peer.
\<close>

theorem recv_many_no_loss:
  assumes "recv_ok st" "list_all bytes_ok evs" "recv_many k evs st = Some (ls, st', evs')"
  shows "concat ls @ pending_in st' @ stream evs' = pending_in st @ stream evs"
proof (cases "pieces k (pending_in st @ stream evs)")
  case None
  with recv_many_pieces[OF assms(1,2), of k] assms(3) show ?thesis by simp
next
  case (Some lr)
  with recv_many_pieces[OF assms(1,2), of k] assms(3) show ?thesis
    by (cases lr) (auto dest: pieces_concat)
qed

theorem recv_many_no_loss_witness:
  "\<exists>ls st' evs'. recv_many 2 [Bytes ([NL] @ ''a''), Bytes [NL]] no_input = Some (ls, st', evs') \<and>
     concat ls @ pending_in st' @ stream evs' = [NL] @ ''a'' @ [NL]"
proof -
  have "list_all bytes_ok [Bytes ([NL] @ ''a''), Bytes [NL]]" by (simp add: size_defs)
  note m = recv_many_pieces[OF no_input_ok(1) this, of 2] recv_many_no_loss[OF no_input_ok(1) this]
  have "pieces 2 ([NL] @ ''a'' @ [NL]) = Some ([[NL], ''a'' @ [NL]], [])"
    using pieces_lines[of "[[], ''a'']" "[]"] by (simp add: line_ok_def size_defs numeral_2_eq_2)
  with m(1) m(2)[of 2] show ?thesis by (auto simp: no_input_ok)
qed

text \<open>A call that always takes something gets the string through.\<close>

lemma send_string_progress:
  "length s \<le> length evs \<Longrightarrow> \<forall>e\<in>set evs. \<exists>n. e = Sent (Suc n) \<Longrightarrow>
     \<exists>evs'. dbrelay_socket_send_string evs s = Some (0, s, evs')"
proof (induction evs s rule: dbrelay_socket_send_string.induct)
  case (3 e evs c cs)
  then obtain n where e: "e = Sent (Suc n)" by auto
  with "3.prems" have "length (drop (Suc n) (c # cs)) \<le> length evs" by simp
  with 3 e obtain evs' where
    "dbrelay_socket_send_string evs (drop (Suc n) (c # cs)) = Some (0, drop (Suc n) (c # cs), evs')"
    by fastforce
  with e show ?case by simp
qed simp_all

text \<open>However little each call of \<^verbatim>\<open>send\<close> takes, when the result is \<open>0\<close> the whole string went out,
  in order and once; any other result is \<open>-1\<close>, and what went out is a prefix of the string.
\<close>

theorem send_string_whole_or_prefix:
  "case dbrelay_socket_send_string evs s of
     None \<Rightarrow> True
   | Some (ret, out, evs') \<Rightarrow> ret = 0 \<and> out = s \<or> ret = - 1 \<and> (\<exists>rest. s = out @ rest)"
proof (induction evs s rule: dbrelay_socket_send_string.induct)
  case (3 e evs c cs)
  show ?case
  proof (cases e)
    case (Sent n)
    from 3[OF Sent] Sent show ?thesis
      by (auto split: option.splits prod.splits) (metis append_Cons append_assoc append_take_drop_id)+
  qed auto
qed simp_all

end
