(* ===== verification/Stringbuf.thy ===== *)
theory Stringbuf
  imports Prelude
begin

section \<open>String buffers (src/stringbuf.c)\<close>

text \<open>
  \<^verbatim>\<open>stringbuf_t\<close> is a linked list of heap-allocated parts. Two models of it: the list
  of parts, which the JSON writer and the query code use, and the linked list itself, cell
  by cell in an explicit store, with the loads and stores of every function written out. The
  locale \<open>text_buffer\<close> is the contract both keep, and the last section shows that the
  linked list implements the list of parts: no operation faults, the walks end, the buffer
  that \<^verbatim>\<open>sb_to_char\<close> allocates is exactly large enough, and \<^verbatim>\<open>sb_free\<close> releases
  every cell of the list and no other.
\<close>

subsection \<open>The list of parts\<close>

type_synonym stringbuf = "string option list"

definition part_text :: "string option \<Rightarrow> string" where
  "part_text p = (case p of None \<Rightarrow> [] | Some s \<Rightarrow> s)"

definition sb_new :: "string option \<Rightarrow> stringbuf" where
  "sb_new s = [s]"

definition sb_append :: "stringbuf \<Rightarrow> string \<Rightarrow> stringbuf" where
  "sb_append sb s = sb @ [Some s]"

definition sb_len :: "stringbuf \<Rightarrow> nat" where
  "sb_len sb = sum_list (map (\<lambda>p. length (part_text p)) sb)"

definition sb_to_char :: "stringbuf \<Rightarrow> string" where
  "sb_to_char sb = concat (map part_text sb)"

lemma part_text_simps [simp]: "part_text None = []" "part_text (Some s) = s"
  by (simp_all add: part_text_def)

lemma sb_to_char_new [simp]: "sb_to_char (sb_new s) = part_text s"
  by (simp add: sb_to_char_def sb_new_def)

lemma sb_to_char_append [simp]: "sb_to_char (sb_append sb s) = sb_to_char sb @ s"
  by (simp add: sb_to_char_def sb_append_def)

lemma sb_to_char_snoc [simp]: "sb_to_char (sb @ [p]) = sb_to_char sb @ part_text p"
  by (simp add: sb_to_char_def)

lemma sb_len_eq [simp]: "sb_len sb = length (sb_to_char sb)"
  by (induction sb) (auto simp: sb_len_def sb_to_char_def)

subsection \<open>The contract of a text buffer\<close>

locale text_buffer =
  fixes new_buf :: "string option \<Rightarrow> 'b"
    and add :: "'b \<Rightarrow> string option \<Rightarrow> 'b result"
    and to_char :: "'b \<Rightarrow> string result option"
    and holds :: "'b \<Rightarrow> stringbuf \<Rightarrow> bool"
  assumes holds_new: "holds (new_buf s) (sb_new s)"
    and holds_add: "holds b sb \<Longrightarrow> \<exists>b'. add b s = Inr b' \<and> holds b' (sb @ [s])"
    and to_char_holds: "holds b sb \<Longrightarrow> to_char b = Some (Inr (sb_to_char sb))"
begin

fun add_all :: "'b \<Rightarrow> string option list \<Rightarrow> 'b result" where
  "add_all b [] = Inr b"
| "add_all b (s # ss) = rbind (add b s) (\<lambda>b'. add_all b' ss)"

lemma add_all_holds:
  "holds b sb \<Longrightarrow> \<exists>b'. add_all b ss = Inr b' \<and> holds b' (sb @ ss)"
proof (induction ss arbitrary: b sb)
  case Nil
  then show ?case by simp
next
  case (Cons s ss)
  from holds_add[OF Cons.prems, of s] obtain b1
    where "add b s = Inr b1" "holds b1 (sb @ [s])" by blast
  with Cons.IH[of b1 "sb @ [s]"] show ?case by auto
qed

text \<open>A buffer built by appending reads back as the concatenation of what was appended.\<close>

lemma build_to_char:
  "\<exists>b. add_all (new_buf s) ss = Inr b \<and>
       to_char b = Some (Inr (part_text s @ concat (map part_text ss)))"
proof -
  from add_all_holds[OF holds_new, of s ss] obtain b
    where "add_all (new_buf s) ss = Inr b" "holds b (sb_new s @ ss)" by blast
  with to_char_holds show ?thesis by (auto simp: sb_to_char_def sb_new_def)
qed

end

interpretation parts_buffer: text_buffer
  "sb_new" "\<lambda>sb s. Inr (sb @ [s])" "\<lambda>sb. Some (Inr (sb_to_char sb))" "\<lambda>sb sb'. sb = sb'"
  by unfold_locales auto

subsection \<open>The linked list, cell by cell\<close>

text \<open>
  The store of \<^verbatim>\<open>stringbuf_node_t\<close> cells; \<open>brk\<close> is the next address \<^verbatim>\<open>malloc\<close>
  hands out. An address without a cell was never allocated or has been freed, and reading or
  writing it is a fault. \<^verbatim>\<open>malloc\<close> and \<^verbatim>\<open>strdup\<close> are taken to succeed, as the code
  takes them.
\<close>

record sb_node =
  part :: "string option"
  next_node :: "nat option"

record sb_mem =
  cells :: "nat \<Rightarrow> sb_node option"
  brk :: nat

record stringbuf_t =
  head :: nat
  tail :: nat

definition empty_mem :: sb_mem where
  "empty_mem = \<lparr>cells = (\<lambda>_. None), brk = 0\<rparr>"

definition alloc_node :: "string option \<Rightarrow> sb_mem \<Rightarrow> nat \<times> sb_mem" where
  "alloc_node s m =
     (brk m, m\<lparr>cells := (cells m)(brk m := Some \<lparr>part = s, next_node = None\<rparr>),
               brk := Suc (brk m)\<rparr>)"

definition h_sb_new :: "string option \<Rightarrow> sb_mem \<Rightarrow> stringbuf_t \<times> sb_mem" where
  "h_sb_new s m =
     (let (new_node, m') = alloc_node s m
      in (\<lparr>head = new_node, tail = new_node\<rparr>, m'))"

definition h_sb_append ::
    "stringbuf_t \<times> sb_mem \<Rightarrow> string option \<Rightarrow> (stringbuf_t \<times> sb_mem) result" where
  "h_sb_append b s =
     (let (str, m) = b; (new_node, m1) = alloc_node s m in
      case cells m1 (tail str) of
        None \<Rightarrow> Inl Out_Of_Bounds
      | Some t \<Rightarrow>
          Inr (str\<lparr>tail := new_node\<rparr>,
               m1\<lparr>cells := (cells m1)(tail str := Some (t\<lparr>next_node := Some new_node\<rparr>))\<rparr>))"

text \<open>The three loops are \<^verbatim>\<open>do ... while (node)\<close>; on a cyclic list they would not end.\<close>

partial_function (option) h_len_loop :: "sb_mem \<Rightarrow> nat \<Rightarrow> nat \<Rightarrow> nat result option" where
  "h_len_loop m node len =
     (case cells m node of
        None \<Rightarrow> Some (Inl Out_Of_Bounds)
      | Some n \<Rightarrow>
          (case next_node n of
             None \<Rightarrow> Some (Inr (len + length (part_text (part n))))
           | Some node' \<Rightarrow> h_len_loop m node' (len + length (part_text (part n)))))"

definition h_sb_len :: "stringbuf_t \<times> sb_mem \<Rightarrow> nat result option" where
  "h_sb_len b = (let (str, m) = b in h_len_loop m (head str) 0)"

text \<open>
  The copy loop of \<^verbatim>\<open>sb_to_char\<close>: \<open>out\<close> is what \<open>outstr\<close> holds before its
  terminator, so \<open>end\<close> is its length; \<^verbatim>\<open>strcpy\<close> of a part stores it and a NUL, which
  must stay inside the \<open>cap\<close> bytes that were allocated.
\<close>

partial_function (option) h_copy_loop ::
    "sb_mem \<Rightarrow> nat \<Rightarrow> nat \<Rightarrow> string \<Rightarrow> string result option" where
  "h_copy_loop m cap node out =
     (case cells m node of
        None \<Rightarrow> Some (Inl Out_Of_Bounds)
      | Some n \<Rightarrow>
          (let out' = out @ part_text (part n) in
           if part n \<noteq> None \<and> cap < length out' + 1 then Some (Inl Buffer_Overflow)
           else (case next_node n of
                   None \<Rightarrow> Some (Inr out')
                 | Some node' \<Rightarrow> h_copy_loop m cap node' out')))"

definition h_sb_to_char :: "stringbuf_t \<times> sb_mem \<Rightarrow> string result option" where
  "h_sb_to_char b =
     (let (str, m) = b in
      case h_sb_len b of
        None \<Rightarrow> None
      | Some (Inl e) \<Rightarrow> Some (Inl e)
      | Some (Inr len) \<Rightarrow> h_copy_loop m (len + 1) (head str) [])"

partial_function (option) h_free_loop :: "sb_mem \<Rightarrow> nat \<Rightarrow> sb_mem result option" where
  "h_free_loop m node =
     (case cells m node of
        None \<Rightarrow> Some (Inl Out_Of_Bounds)
      | Some prev \<Rightarrow>
          (let m' = m\<lparr>cells := (cells m)(node := None)\<rparr> in
           case next_node prev of
             None \<Rightarrow> Some (Inr m')
           | Some node' \<Rightarrow> h_free_loop m' node'))"

text \<open>\<^verbatim>\<open>sb_free\<close> returns at once on a null buffer.\<close>

definition h_sb_free :: "stringbuf_t option \<Rightarrow> sb_mem \<Rightarrow> sb_mem result option" where
  "h_sb_free s m = (case s of None \<Rightarrow> Some (Inr m) | Some str \<Rightarrow> h_free_loop m (head str))"

subsection \<open>The linked list implements the list of parts\<close>

text \<open>
  \<open>chain m a ns\<close>: from address \<open>a\<close> the cells are those of \<open>ns\<close>, in order, and the
  last one ends the list.
\<close>

fun chain :: "sb_mem \<Rightarrow> nat option \<Rightarrow> (nat \<times> string option) list \<Rightarrow> bool" where
  "chain m a [] \<longleftrightarrow> a = None"
| "chain m a ((b, p) # ns) \<longleftrightarrow>
     a = Some b \<and>
     (\<exists>n. cells m b = Some n \<and> part n = p \<and> chain m (next_node n) ns)"

definition linked :: "stringbuf_t \<times> sb_mem \<Rightarrow> (nat \<times> string option) list \<Rightarrow> bool" where
  "linked b ns \<longleftrightarrow>
     (let (str, m) = b in
      ns \<noteq> [] \<and> chain m (Some (head str)) ns \<and> fst (last ns) = tail str \<and>
      distinct (map fst ns) \<and> (\<forall>a\<in>set (map fst ns). a < brk m))"

definition h_holds :: "stringbuf_t \<times> sb_mem \<Rightarrow> stringbuf \<Rightarrow> bool" where
  "h_holds b sb \<longleftrightarrow> (\<exists>ns. linked b ns \<and> map snd ns = sb)"

lemma chain_ConsD:
  "chain m (Some a) (n # ns) \<Longrightarrow>
   fst n = a \<and> (\<exists>c. cells m a = Some c \<and> part c = snd n \<and> chain m (next_node c) ns)"
  by (cases n) simp

lemma chain_frame:
  "(\<forall>x\<in>set (map fst ns). cells m' x = cells m x) \<Longrightarrow> chain m' a ns = chain m a ns"
  by (induction ns arbitrary: a) auto

lemma chain_snoc:
  assumes "chain m a (ns @ [(t, q)])" "distinct (map fst (ns @ [(t, q)]))"
    and "b \<notin> set (map fst (ns @ [(t, q)]))"
    and "cells m' t = Some \<lparr>part = q, next_node = Some b\<rparr>"
    and "cells m' b = Some \<lparr>part = p, next_node = None\<rparr>"
    and "\<forall>x. x \<noteq> t \<longrightarrow> x \<noteq> b \<longrightarrow> cells m' x = cells m x"
  shows "chain m' a (ns @ [(t, q), (b, p)])"
  using assms
proof (induction ns arbitrary: a)
  case Nil
  then show ?case by auto
next
  case (Cons n ns)
  then show ?case by (cases n) auto
qed

lemma chain_last_end:
  "chain m a (ns @ [(t, q)]) \<Longrightarrow> cells m t = Some \<lparr>part = q, next_node = None\<rparr>"
  by (induction ns arbitrary: a) (auto simp: sb_node.defs intro: sb_node.equality)

lemma h_holds_new: "h_holds (h_sb_new s m) (sb_new s)"
proof -
  have "linked (h_sb_new s m) [(brk m, s)]"
    by (simp add: linked_def h_sb_new_def alloc_node_def)
  then show ?thesis unfolding h_holds_def by (intro exI[of _ "[(brk m, s)]"]) (simp add: sb_new_def)
qed

lemma h_append_linked:
  assumes "linked (str, m) ns"
  shows "\<exists>b'. h_sb_append (str, m) s = Inr b' \<and> linked b' (ns @ [(brk m, s)])"
proof -
  from assms have ne: "ns \<noteq> []" by (simp add: linked_def)
  then obtain ns0 t q where ns: "ns = ns0 @ [(t, q)]"
    by (metis append_butlast_last_id surj_pair)
  from assms ns have ch: "chain m (Some (head str)) (ns0 @ [(t, q)])" and t: "t = tail str"
    and dist: "distinct (map fst (ns0 @ [(t, q)]))"
    and lt: "\<forall>a\<in>set (map fst (ns0 @ [(t, q)])). a < brk m"
    by (auto simp: linked_def)
  from lt have fresh: "brk m \<notin> set (map fst (ns0 @ [(t, q)]))" by blast
  from lt have "t < brk m" by simp
  moreover from chain_last_end[OF ch] have "cells m t = Some \<lparr>part = q, next_node = None\<rparr>" .
  ultimately have app: "h_sb_append (str, m) s =
      Inr (str\<lparr>tail := brk m\<rparr>,
        m\<lparr>cells := (cells m)(brk m := Some \<lparr>part = s, next_node = None\<rparr>,
                              t := Some \<lparr>part = q, next_node = Some (brk m)\<rparr>),
          brk := Suc (brk m)\<rparr>)" (is "_ = Inr (?str, ?m)")
    using t by (simp add: h_sb_append_def alloc_node_def)
  have "chain ?m (Some (head str)) (ns0 @ [(t, q), (brk m, s)])"
    by (rule chain_snoc[OF ch dist fresh]) (use \<open>t < brk m\<close> in auto)
  with dist lt fresh ns have "linked (?str, ?m) (ns @ [(brk m, s)])"
    by (auto simp: linked_def)
  with app show ?thesis by blast
qed

lemma h_len_loop_chain:
  "chain m (Some a) ns \<Longrightarrow>
   h_len_loop m a len = Some (Inr (len + length (sb_to_char (map snd ns))))"
proof (induction ns arbitrary: a len)
  case Nil
  then show ?case by simp
next
  case (Cons n ns)
  from chain_ConsD[OF Cons.prems(1)] obtain c
    where c: "cells m a = Some c" "part c = snd n" and n: "fst n = a"
    and ch: "chain m (next_node c) ns" by blast
  show ?case
  proof (cases "next_node c")
    case None
    with ch have "ns = []" by (cases ns) auto
    with c None n show ?thesis by (subst h_len_loop.simps) (simp add: sb_to_char_def)
  next
    case (Some a')
    with Cons.IH[of a' "len + length (part_text (snd n))"] ch c n show ?thesis
      by (subst h_len_loop.simps) (simp add: sb_to_char_def)
  qed
qed

lemma h_copy_loop_chain:
  "chain m (Some a) ns \<Longrightarrow> length out + length (sb_to_char (map snd ns)) + 1 \<le> cap \<Longrightarrow>
   h_copy_loop m cap a out = Some (Inr (out @ sb_to_char (map snd ns)))"
proof (induction ns arbitrary: a out)
  case Nil
  then show ?case by simp
next
  case (Cons n ns)
  from chain_ConsD[OF Cons.prems(1)] obtain c
    where c: "cells m a = Some c" "part c = snd n" and n: "fst n = a"
    and ch: "chain m (next_node c) ns" by blast
  show ?case
  proof (cases "next_node c")
    case None
    with ch have "ns = []" by (cases ns) auto
    with c None n Cons.prems(2) show ?thesis
      by (subst h_copy_loop.simps) (auto simp: sb_to_char_def Let_def)
  next
    case (Some a')
    with Cons.IH[of a' "out @ part_text (snd n)"] ch c n Cons.prems(2) show ?thesis
      by (subst h_copy_loop.simps) (auto simp: sb_to_char_def Let_def)
  qed
qed

lemma h_to_char_holds: "h_holds b sb \<Longrightarrow> h_sb_to_char b = Some (Inr (sb_to_char sb))"
  by (cases b) (auto simp: h_holds_def linked_def h_sb_to_char_def h_sb_len_def
      h_len_loop_chain h_copy_loop_chain)

interpretation heap_buffer: text_buffer
  "\<lambda>s. h_sb_new s empty_mem" h_sb_append h_sb_to_char h_holds
proof
  fix s show "h_holds (h_sb_new s empty_mem) (sb_new s)" by (rule h_holds_new)
next
  fix b sb s
  assume "h_holds b sb"
  then show "\<exists>b'. h_sb_append b s = Inr b' \<and> h_holds b' (sb @ [s])"
    by (cases b) (force simp: h_holds_def dest: h_append_linked)
next
  fix b sb assume "h_holds b sb"
  then show "h_sb_to_char b = Some (Inr (sb_to_char sb))" by (rule h_to_char_holds)
qed

lemma h_free_loop_chain:
  "chain m (Some a) ns \<Longrightarrow> distinct (map fst ns) \<Longrightarrow>
   h_free_loop m a =
     Some (Inr (m\<lparr>cells := (\<lambda>x. if x \<in> set (map fst ns) then None else cells m x)\<rparr>))"
proof (induction ns arbitrary: a m)
  case Nil
  then show ?case by simp
next
  case (Cons n ns)
  from chain_ConsD[OF Cons.prems(1)] obtain c
    where c: "cells m a = Some c" "part c = snd n" and n: "fst n = a"
    and ch: "chain m (next_node c) ns" by blast
  from Cons.prems(2) n have a: "a \<notin> set (map fst ns)" by auto
  let ?m = "m\<lparr>cells := (cells m)(a := None)\<rparr>"
  show ?case
  proof (cases "next_node c")
    case None
    with ch have "ns = []" by (cases ns) auto
    with c None n show ?thesis
      by (subst h_free_loop.simps) (auto intro!: sb_mem.equality)
  next
    case (Some a')
    have "\<forall>x\<in>set (map fst ns). cells ?m x = cells m x" using a by auto
    with ch Some chain_frame have "chain ?m (Some a') ns" by metis
    from Cons.IH[OF this] Cons.prems(2) n c Some show ?thesis
      by (subst h_free_loop.simps) (auto intro!: sb_mem.equality)
  qed
qed

text \<open>C20.
  A buffer built on the heap by \<open>sb_new\<close> and any number of \<open>sb_append\<close> calls reads back as the
  concatenation of the pieces, absent ones as nothing: no call faults, the loops over the cells
  end, and the copy fits the block that is allocated for it.
\<close>

theorem sb_heap_build_reads_back:
  "\<exists>b. heap_buffer.add_all (h_sb_new s empty_mem) ss = Inr b \<and>
       h_sb_to_char b = Some (Inr (part_text s @ concat (map part_text ss)))"
  by (rule heap_buffer.build_to_char)

text \<open>Freeing a buffer frees each of its cells once and touches no other cell.
\<close>

theorem sb_free_exact:
  assumes "linked (str, m) ns"
  shows "\<exists>m'. h_sb_free (Some str) m = Some (Inr m') \<and>
    (\<forall>a. cells m' a = (if a \<in> set (map fst ns) then None else cells m a))"
  using assms by (auto simp: linked_def h_sb_free_def h_free_loop_chain)

lemma sample_linked:
  "linked (\<lparr>head = 0, tail = 0\<rparr>, \<lparr>cells = [0 \<mapsto> \<lparr>part = Some ''a'', next_node = None\<rparr>], brk = 1\<rparr>)
     [(0, Some ''a'')]"
  by (simp add: linked_def)

theorem sb_free_exact_witness:
  "\<exists>m'. h_sb_free (Some \<lparr>head = 0, tail = 0\<rparr>)
       \<lparr>cells = [0 \<mapsto> \<lparr>part = Some ''a'', next_node = None\<rparr>], brk = 1\<rparr> = Some (Inr m') \<and>
     cells m' 0 = None"
  using sb_free_exact[OF sample_linked] by auto

end
