(* ===== verification/Client.thy ===== *)
theory Client
  imports Socket Stringbuf
begin

section \<open>The client of a connector (src/client.c)\<close>

text \<open>
  What a worker says to a connector. The functions work on a socket given by its two
  operations, sending a string and receiving a line, on a state \<open>'w\<close>; theory \<open>Session\<close>
  puts the connector at the other end. A call that waits for ever has the value \<open>None\<close>. The
  results of \<^verbatim>\<open>recv\<close> that the code ignores are ignored here.
\<close>

record 'w channel =
  ch_send :: "string \<Rightarrow> 'w \<Rightarrow> (int \<times> 'w) option"
  ch_recv :: "recv_state \<Rightarrow> 'w \<Rightarrow> (int \<times> string \<times> recv_state \<times> 'w) option"

text \<open>The buffer of a line that could not be received is as it was on the stack.\<close>

definition out_buf :: "string \<Rightarrow> int \<Rightarrow> string \<Rightarrow> string" where
  "out_buf garbage ret out = (if ret \<le> 0 \<and> out = [] then garbage else out)"

definition send_and_recv ::
    "'w channel \<Rightarrow> string \<Rightarrow> 'w \<Rightarrow> (int \<times> int \<times> string \<times> 'w) option" where
  "send_and_recv ch str w =
     Option.bind (ch_send ch str w) (\<lambda>(sent, w).
     Option.bind (ch_recv ch no_input w) (\<lambda>(ret, out, st, w). Some (sent, ret, out, w)))"

definition dbrelay_conn_kill :: "'w channel \<Rightarrow> 'w \<Rightarrow> 'w option" where
  "dbrelay_conn_kill ch w =
     map_option (\<lambda>(sent, ret, out, w). w) (send_and_recv ch ('':DIE'' @ [NL]) w)"

definition dbrelay_conn_close :: "'w channel \<Rightarrow> 'w \<Rightarrow> 'w option" where
  "dbrelay_conn_close ch w =
     map_option (\<lambda>(sent, ret, out, w). w) (send_and_recv ch ('':QUIT'' @ [NL]) w)"

text \<open>\<^verbatim>\<open>while (out_buf[strlen(out_buf)-1]=='\n')\<close> on a line that starts with more than newlines.\<close>

fun trim_newlines :: "string \<Rightarrow> string" where
  "trim_newlines s = rev (dropWhile (\<lambda>c. c = NL) (rev s))"

definition dbrelay_conn_initialize ::
    "'w channel \<Rightarrow> string \<Rightarrow> 'w \<Rightarrow> (int \<times> 'w) option" where
  "dbrelay_conn_initialize ch garbage w =
     Option.bind (ch_send ch ('':HELO'' @ [NL]) w) (\<lambda>(sent, w).
       if sent < 0 then Some (- 1, w)
       else Option.bind (ch_recv ch no_input w) (\<lambda>(ret, out, st, w).
         let out = out_buf garbage ret out in
         if \<not> strncmp_eq '':PID '' out 5 then Some (- 1, w)
         else Some (atoi (drop 5 (trim_newlines out)), w)))"

definition dbrelay_conn_set_option ::
    "'w channel \<Rightarrow> string \<Rightarrow> string \<Rightarrow> 'w \<Rightarrow> (int \<times> 'w) option" where
  "dbrelay_conn_set_option ch opt val w =
     Option.bind (ch_send ch ('':SET '' @ opt @ '' '' @ val @ [NL]) w) (\<lambda>(sent, w).
       if sent = - 1 then Some (- 1, w)
       else Option.bind (ch_recv ch no_input w) (\<lambda>(ret, out, st, w). Some (0, w)))"

definition dbrelay_conn_socket_error :: string where
  "dbrelay_conn_socket_error =
     sb_to_char (sb_append (sb_new None)
       ''Internal Error: connector terminated connection unexpectedly.'')"

subsection \<open>Receiving results\<close>

record results_state =
  in_results :: bool
  in_errors :: bool
  err_flag :: int
  sb_rslt :: stringbuf

text \<open>One line, without its newline; \<open>None\<close> is the \<^verbatim>\<open>break\<close>.\<close>

definition result_line :: "string \<Rightarrow> results_state \<Rightarrow> results_state option" where
  "result_line line rs =
     (if line = '':BYE'' \<or> line = '':OK'' \<or> line = '':ERR'' then None
      else
        (let rs = (if line = '':RESULTS END'' then rs\<lparr>in_results := False\<rparr> else rs);
             rs = (if line = '':ERROR END'' then rs\<lparr>in_errors := False\<rparr> else rs);
             rs = (if in_results rs \<or> in_errors rs
                   then rs\<lparr>sb_rslt := sb_append (sb_rslt rs) line\<rparr> else rs);
             rs = (if line = '':RESULTS BEGIN'' then rs\<lparr>in_results := True\<rparr> else rs);
             rs = (if line = '':ERROR BEGIN'' then rs\<lparr>err_flag := 1, in_errors := True\<rparr> else rs)
         in Some rs))"

definition chop_line :: "string \<Rightarrow> string" where
  "chop_line line = (if last line = NL then butlast line else line)"

text \<open>The result is the last value of \<^verbatim>\<open>t\<close>, the state and the socket.\<close>

partial_function (option) results_loop ::
    "'w channel \<Rightarrow> recv_state \<Rightarrow> results_state \<Rightarrow> 'w \<Rightarrow> (int \<times> results_state \<times> 'w) result option" where
  "results_loop ch st rs w =
     Option.bind (ch_recv ch st w) (\<lambda>(t, out, st, w).
       if t \<le> 0 then Some (Inr (t, rs, w))
       else if out = [] then Some (Inl Out_Of_Bounds)
       else (case result_line (chop_line out) rs of
               None \<Rightarrow> Some (Inr (t, rs, w))
             | Some rs \<Rightarrow> results_loop ch st rs w))"

subsection \<open>Sending a request\<close>

text \<open>
  One step of the function after another, as long as they succeed: a step that fails returns
  the error text with the value that \<^verbatim>\<open>*error\<close> has at the time.
\<close>

definition or_fail ::
    "int \<Rightarrow> (int \<times> 'w) option \<Rightarrow> ('w \<Rightarrow> (string \<times> int \<times> 'w) result option) \<Rightarrow>
     (string \<times> int \<times> 'w) result option" where
  "or_fail err call rest =
     Option.bind call (\<lambda>(ret, w).
       if ret < 0 then Some (Inr (dbrelay_conn_socket_error, err, w)) else rest w)"

text \<open>Printing into \<^verbatim>\<open>char tmp[20]\<close>.\<close>

definition into_tmp ::
    "string \<Rightarrow> (string \<Rightarrow> (string \<times> int \<times> 'w) result option) \<Rightarrow> (string \<times> int \<times> 'w) result option" where
  "into_tmp s k = (if length s < 20 then k s else Some (Inl Buffer_Overflow))"

text \<open>
  The first half sends the options, the second the text and the command to run it. The result
  is the text, the value of \<^verbatim>\<open>*error\<close> and the socket.
\<close>

definition send_options ::
    "'w channel \<Rightarrow> dbrelay_request \<Rightarrow> ('w \<Rightarrow> (string \<times> int \<times> 'w) result option) \<Rightarrow> 'w \<Rightarrow>
     (string \<times> int \<times> 'w) result option" where
  "send_options ch r rest w =
     or_fail 2 (dbrelay_conn_set_option ch ''SERVER'' (sql_server r) w) (\<lambda>w.
     or_fail 2 (dbrelay_conn_set_option ch ''DATABASE'' (sql_database r) w) (\<lambda>w.
     or_fail 2 (dbrelay_conn_set_option ch ''USER'' (sql_user r) w) (\<lambda>w.
     or_fail 2 (if sql_password r \<noteq> [] then dbrelay_conn_set_option ch ''PASSWORD'' (sql_password r) w
                else Some (0, w)) (\<lambda>w.
     into_tmp (show_int (connection_timeout r)) (\<lambda>tmp.
     or_fail 2 (dbrelay_conn_set_option ch ''TIMEOUT'' tmp w) (\<lambda>w.
     into_tmp (show_nat (unat (flags r))) (\<lambda>tmp.
     or_fail 2 (dbrelay_conn_set_option ch ''FLAGS'' tmp w) (\<lambda>w.
     or_fail 2 (dbrelay_conn_set_option ch ''APPNAME'' (connection_name r) w) rest))))))))"

definition send_sql ::
    "'w channel \<Rightarrow> string \<Rightarrow> ('w \<Rightarrow> (string \<times> int \<times> 'w) result option) \<Rightarrow> 'w \<Rightarrow>
     (string \<times> int \<times> 'w) result option" where
  "send_sql ch q rest w =
     or_fail 2 (ch_send ch q w) (\<lambda>w.
     or_fail 2 (ch_send ch [NL] w) (\<lambda>w.
     or_fail 2 (ch_send ch ('':SQL END'' @ [NL]) w) rest))"

definition run_and_collect ::
    "'w channel \<Rightarrow> 'w \<Rightarrow> (string \<times> int \<times> 'w) result option" where
  "run_and_collect ch w =
     Option.bind (ch_recv ch no_input w) (\<lambda>(ret, out, st, w).
     or_fail 0 (ch_send ch ('':RUN'' @ [NL]) w) (\<lambda>w.
     loop_bind (results_loop ch st \<lparr>in_results = False, in_errors = False, err_flag = 0,
         sb_rslt = sb_new None\<rparr> w) (\<lambda>(t, rs, w).
       if t = - 1 then Some (Inr (dbrelay_conn_socket_error, 2, w))
       else Some (Inr (sb_to_char (sb_rslt rs), err_flag rs, w)))))"

definition dbrelay_conn_send_request ::
    "'w channel \<Rightarrow> dbrelay_request \<Rightarrow> 'w \<Rightarrow> (string \<times> int \<times> 'w) result option" where
  "dbrelay_conn_send_request ch r w =
     send_options ch r (\<lambda>w.
       or_fail 2 (ch_send ch ('':SQL BEGIN'' @ [NL]) w) (\<lambda>w.
         case sql r of
           None \<Rightarrow> Some (Inl Null_Deref)
         | Some q \<Rightarrow> send_sql ch q (run_and_collect ch) w)) w"

subsection \<open>Launching a connector\<close>

text \<open>
  The processes that come back from \<^verbatim>\<open>dbrelay_conn_launch_connector\<close> with the value each
  gets: whether the binary is there, what \<^verbatim>\<open>fork\<close> gave the parent, and whether
  \<^verbatim>\<open>execv\<close> took the place of the child. The parent waits for the child, which is over as
  soon as the connector has made its socket and forked.
\<close>

datatype returning = In_Parent int | In_Child int

definition dbrelay_conn_launch_connector :: "bool \<Rightarrow> int \<Rightarrow> bool \<Rightarrow> returning list" where
  "dbrelay_conn_launch_connector there child replaced =
     (if \<not> there then [In_Parent (- 1)]
      else In_Parent child # (if child = - 1 \<or> replaced then [] else [In_Child 0]))"

text \<open>When the binary cannot be executed, a second worker goes on with the request.\<close>

lemma launch_second_worker:
  "In_Child n \<in> set (dbrelay_conn_launch_connector there child replaced) \<longleftrightarrow>
     there \<and> child \<noteq> - 1 \<and> \<not> replaced \<and> n = 0"
  by (auto simp: dbrelay_conn_launch_connector_def)

end
