(* ===== verification/Json.thy ===== *)
theory Json
  imports Stringbuf
begin

section \<open>The streaming JSON writer (src/json.c, src/json.h)\<close>

text \<open>
  \<^verbatim>\<open>json_t\<close> as a record and one definition per function of \<^verbatim>\<open>json.c\<close>, in its
  order. The writer appends text to its string buffer and keeps a stack of open containers;
  nothing checks that the calls make sense, so what a sequence of calls writes is the subject
  of the theory \<open>Json_Tree\<close>. Here: the operations, and the string escaping with its
  round trip.
\<close>

datatype node_type = ARRAY | OBJECT

record json_node =
  ntype :: node_type
  num_items :: nat

datatype json_mode = JSON_MODE_STD | JSON_MODE_CSV

text \<open>
  \<open>stack\<close> is the linked list of open containers, innermost first. \<open>pending\<close> is set
  between a key and its value. \<open>tab_level\<close> is a C \<^verbatim>\<open>int\<close>: an unmatched end makes it
  negative.
\<close>

record json =
  sb :: stringbuf
  tab_level :: int
  stack :: "json_node list"
  pending :: bool
  prettyprint :: bool
  mode :: json_mode

definition put :: "json \<Rightarrow> string \<Rightarrow> json" where
  "put j s = j\<lparr>sb := sb_append (sb j) s\<rparr>"

definition json_new :: json where
  "json_new = \<lparr>sb = sb_new None, tab_level = 0, stack = [], pending = False,
               prettyprint = False, mode = JSON_MODE_STD\<rparr>"

definition json_pretty_print :: "json \<Rightarrow> bool \<Rightarrow> json" where
  "json_pretty_print j pp = j\<lparr>prettyprint := pp\<rparr>"

definition json_to_string :: "json \<Rightarrow> string" where
  "json_to_string j = sb_to_char (sb j)"

text \<open>The loop \<open>for (i = 0; i < tab_level; i++)\<close>, by the number of passes left.\<close>

primrec tab_loop :: "nat \<Rightarrow> json \<Rightarrow> json" where
  "tab_loop 0 j = j"
| "tab_loop (Suc n) j = tab_loop n (put j ''   '')"

definition json_tab :: "json \<Rightarrow> json" where
  "json_tab j = (if \<not> prettyprint j then j else tab_loop (nat (tab_level j)) j)"

definition json_push :: "json \<Rightarrow> node_type \<Rightarrow> json" where
  "json_push j t = j\<lparr>stack := \<lparr>ntype = t, num_items = 0\<rparr> # stack j\<rparr>"

text \<open>\<open>if (json->stack) json->stack->num_items++\<close>.\<close>

definition count_item :: "json \<Rightarrow> json" where
  "count_item j =
     (case stack j of
        [] \<Rightarrow> j
      | n # ns \<Rightarrow> j\<lparr>stack := n\<lparr>num_items := num_items n + 1\<rparr> # ns\<rparr>)"

definition has_items :: "json \<Rightarrow> bool" where
  "has_items j = (case stack j of [] \<Rightarrow> False | n # _ \<Rightarrow> num_items n \<noteq> 0)"

definition put_nl :: "json \<Rightarrow> json" where
  "put_nl j = (if prettyprint j then put j [NL] else j)"

definition json_new_object :: "json \<Rightarrow> json" where
  "json_new_object j =
     (let j = (if \<not> pending j
               then json_tab (if has_items j then put_nl (put j '','') else j)
               else j);
          j = put_nl (put j ''{'');
          j = j\<lparr>tab_level := tab_level j + 1\<rparr>;
          j = json_push (count_item j) OBJECT
      in j\<lparr>pending := False\<rparr>)"

definition pop_node :: "json \<Rightarrow> json" where
  "pop_node j = (case stack j of [] \<Rightarrow> j | _ # ns \<Rightarrow> j\<lparr>stack := ns\<rparr>)"

definition json_end_object :: "json \<Rightarrow> json" where
  "json_end_object j =
     (let j = j\<lparr>tab_level := tab_level j - 1\<rparr>
      in pop_node (put (json_tab (put_nl j)) ''}''))"

definition json_new_array :: "json \<Rightarrow> json" where
  "json_new_array j =
     (let j = (if \<not> pending j
               then json_tab (if has_items j then put_nl (put j '','') else j)
               else j);
          j = put_nl (put j ''['');
          j = j\<lparr>tab_level := tab_level j + 1\<rparr>;
          j = json_push (count_item j) ARRAY
      in j\<lparr>pending := False\<rparr>)"

definition json_end_array :: "json \<Rightarrow> json" where
  "json_end_array j =
     (let j = j\<lparr>tab_level := tab_level j - 1\<rparr>
      in pop_node (put (json_tab (put_nl j)) '']''))"

definition json_add_value :: "json \<Rightarrow> string \<Rightarrow> json" where
  "json_add_value j value =
     (let j = (if has_items j \<and> \<not> pending j then put j '','' else j)
      in count_item (put j value))"

text \<open>The key is written between quotes as it is: nothing escapes it.\<close>

definition json_add_key :: "json \<Rightarrow> string \<Rightarrow> json" where
  "json_add_key j key =
     (let j = (case stack j of
                 [] \<Rightarrow> j
               | n # _ \<Rightarrow>
                   count_item (if num_items n \<noteq> 0
                               then (if \<not> pending j then put j '', '' else j)
                               else json_tab j));
          j = put (put (put j [DQ]) key) [DQ];
          j = (if prettyprint j then put j '' '' else j);
          j = put j '':'';
          j = (if prettyprint j then put j '' '' else j)
      in j\<lparr>pending := True\<rparr>)"

definition json_add_number :: "json \<Rightarrow> string \<Rightarrow> string \<Rightarrow> json" where
  "json_add_number j key value = (put (json_add_key j key) value)\<lparr>pending := False\<rparr>"

text \<open>
  The comparison \<open>c < ' '\<close> is on a signed \<^verbatim>\<open>char\<close>: bytes from 128 up are negative
  and so not printable.
\<close>

definition is_printable :: "char \<Rightarrow> bool" where
  "is_printable c \<longleftrightarrow> \<not> (schar c < 32 \<or> c = DQ \<or> c = BSL)"

definition escape_nonprintable :: "char \<Rightarrow> string" where
  "escape_nonprintable c =
     (if c = DQ then [BSL, DQ]
      else if c = BSL then [BSL, BSL]
      else if c = CHR ''/'' then [BSL, CHR ''/'']
      else if c = CHR 0x08 then [BSL, CHR ''b'']
      else if c = CHR 0x0C then [BSL, CHR ''f'']
      else if c = NL then [BSL, CHR ''n'']
      else if c = CR then [BSL, CHR ''r'']
      else if c = TAB then [BSL, CHR ''t'']
      else BSL # ''u00'' @ hex2 c)"

definition append_nonprintable :: "stringbuf \<Rightarrow> char \<Rightarrow> stringbuf" where
  "append_nonprintable buf c = sb_append buf (escape_nonprintable c)"

definition json_add_null :: "json \<Rightarrow> string \<Rightarrow> json" where
  "json_add_null j key = (put (json_add_key j key) ''null'')\<lparr>pending := False\<rparr>"

text \<open>
  The loop over a copy of the value: \<open>first\<close> is the run of printable bytes since the last
  flush, which is appended before each escape and at the end.
\<close>

fun add_string_loop :: "stringbuf \<Rightarrow> string \<Rightarrow> string \<Rightarrow> stringbuf" where
  "add_string_loop buf first [] = sb_append buf first"
| "add_string_loop buf first (c # s) =
     (if \<not> is_printable c
      then add_string_loop (append_nonprintable (sb_append buf first) c) [] s
      else add_string_loop buf (first @ [c]) s)"

definition json_add_string :: "json \<Rightarrow> string \<Rightarrow> string \<Rightarrow> json" where
  "json_add_string j key value =
     (let j = put (json_add_key j key) [DQ];
          j = j\<lparr>sb := add_string_loop (sb j) [] value\<rparr>
      in (put j [DQ])\<lparr>pending := False\<rparr>)"

definition json_add_json :: "json \<Rightarrow> string \<Rightarrow> json" where
  "json_add_json j value = put j value"

definition json_add_callback :: "json \<Rightarrow> string \<Rightarrow> json" where
  "json_add_callback j value = put (put j value) ''(''"

definition json_end_callback :: "json \<Rightarrow> json" where
  "json_end_callback j = put j '');''"

definition json_set_mode :: "json \<Rightarrow> json_mode \<Rightarrow> json" where
  "json_set_mode j m = j\<lparr>mode := m\<rparr>"

definition json_get_mode :: "json \<Rightarrow> json_mode" where
  "json_get_mode j = mode j"

subsection \<open>What each primitive leaves alone\<close>

lemma put_simps [simp]:
  "json_to_string (put j s) = json_to_string j @ s"
  "tab_level (put j s) = tab_level j" "stack (put j s) = stack j"
  "pending (put j s) = pending j" "prettyprint (put j s) = prettyprint j"
  "mode (put j s) = mode j"
  by (simp_all add: put_def json_to_string_def)

lemma json_to_string_update [simp]:
  "json_to_string (j\<lparr>tab_level := l\<rparr>) = json_to_string j"
  "json_to_string (j\<lparr>stack := st\<rparr>) = json_to_string j"
  "json_to_string (j\<lparr>pending := p\<rparr>) = json_to_string j"
  "json_to_string (j\<lparr>prettyprint := pp\<rparr>) = json_to_string j"
  "json_to_string (j\<lparr>mode := m\<rparr>) = json_to_string j"
  by (simp_all add: json_to_string_def)

lemma json_new_simps [simp]:
  "json_to_string json_new = []" "tab_level json_new = 0" "stack json_new = []"
  "\<not> pending json_new" "\<not> prettyprint json_new" "mode json_new = JSON_MODE_STD"
  by (simp_all add: json_new_def json_to_string_def)

definition indent :: "bool \<Rightarrow> int \<Rightarrow> string" where
  "indent pp l = (if pp then concat (replicate (nat l) ''   '') else [])"

definition newline :: "bool \<Rightarrow> string" where
  "newline pp = (if pp then [NL] else [])"

definition blank :: "bool \<Rightarrow> string" where
  "blank pp = (if pp then '' '' else [])"

lemma tab_loop_simps [simp]:
  "json_to_string (tab_loop n j) = json_to_string j @ concat (replicate n ''   '')"
  "tab_level (tab_loop n j) = tab_level j" "stack (tab_loop n j) = stack j"
  "pending (tab_loop n j) = pending j" "prettyprint (tab_loop n j) = prettyprint j"
  "mode (tab_loop n j) = mode j"
  by (induction n arbitrary: j) simp_all

lemma json_tab_simps [simp]:
  "json_to_string (json_tab j) = json_to_string j @ indent (prettyprint j) (tab_level j)"
  "tab_level (json_tab j) = tab_level j" "stack (json_tab j) = stack j"
  "pending (json_tab j) = pending j" "prettyprint (json_tab j) = prettyprint j"
  "mode (json_tab j) = mode j"
  by (simp_all add: json_tab_def indent_def)

lemma put_nl_simps [simp]:
  "json_to_string (put_nl j) = json_to_string j @ newline (prettyprint j)"
  "tab_level (put_nl j) = tab_level j" "stack (put_nl j) = stack j"
  "pending (put_nl j) = pending j" "prettyprint (put_nl j) = prettyprint j"
  "mode (put_nl j) = mode j"
  by (simp_all add: put_nl_def newline_def)

lemma count_item_simps [simp]:
  "json_to_string (count_item j) = json_to_string j"
  "tab_level (count_item j) = tab_level j"
  "pending (count_item j) = pending j" "prettyprint (count_item j) = prettyprint j"
  "mode (count_item j) = mode j"
  by (simp_all add: count_item_def split: list.splits)

definition counted :: "json_node list \<Rightarrow> json_node list" where
  "counted st = (case st of [] \<Rightarrow> [] | n # ns \<Rightarrow> n\<lparr>num_items := num_items n + 1\<rparr> # ns)"

lemma stack_count_item [simp]: "stack (count_item j) = counted (stack j)"
  by (simp add: count_item_def counted_def split: list.splits)

lemma counted_simps [simp]:
  "counted [] = []"
  "counted (n # ns) = n\<lparr>num_items := num_items n + 1\<rparr> # ns"
  by (simp_all add: counted_def)

lemma pop_node_simps [simp]:
  "json_to_string (pop_node j) = json_to_string j"
  "tab_level (pop_node j) = tab_level j" "stack (pop_node j) = tl (stack j)"
  "pending (pop_node j) = pending j" "prettyprint (pop_node j) = prettyprint j"
  "mode (pop_node j) = mode j"
  by (simp_all add: pop_node_def split: list.splits)

lemma json_push_simps [simp]:
  "json_to_string (json_push j t) = json_to_string j"
  "tab_level (json_push j t) = tab_level j"
  "stack (json_push j t) = \<lparr>ntype = t, num_items = 0\<rparr> # stack j"
  "pending (json_push j t) = pending j" "prettyprint (json_push j t) = prettyprint j"
  "mode (json_push j t) = mode j"
  by (simp_all add: json_push_def json_to_string_def)

subsection \<open>Escaping\<close>

definition escape_char :: "char \<Rightarrow> string" where
  "escape_char c = (if is_printable c then [c] else escape_nonprintable c)"

definition escape :: "string \<Rightarrow> string" where
  "escape s = concat (map escape_char s)"

lemma escape_simps [simp]: "escape [] = []" "escape (c # s) = escape_char c @ escape s"
  by (simp_all add: escape_def)

lemma sb_to_char_add_string_loop [simp]:
  "sb_to_char (add_string_loop b first s) = sb_to_char b @ first @ escape s"
  by (induction b first s rule: add_string_loop.induct)
    (auto simp: append_nonprintable_def escape_char_def)

lemma json_to_string_sb_update [simp]: "json_to_string (j\<lparr>sb := b\<rparr>) = sb_to_char b"
  by (simp add: json_to_string_def)

text \<open>
  A reader of the bytes between the quotes of a JSON string. Escapes of the form
  \<open>u00xy\<close> stand for the byte \<open>xy\<close>: the writer has no other.
\<close>

definition hex_val :: "char \<Rightarrow> nat option" where
  "hex_val c = (let n = (of_char c :: nat) in
     if 48 \<le> n \<and> n \<le> 57 then Some (n - 48)
     else if 97 \<le> n \<and> n \<le> 102 then Some (n - 87) else None)"

definition simple_escape :: "char \<Rightarrow> char option" where
  "simple_escape c =
     (if c = DQ then Some DQ else if c = BSL then Some BSL else if c = CHR ''/'' then Some c
      else if c = CHR ''b'' then Some (CHR 0x08) else if c = CHR ''f'' then Some (CHR 0x0C)
      else if c = CHR ''n'' then Some NL else if c = CHR ''r'' then Some CR
      else if c = CHR ''t'' then Some TAB else None)"

fun read_string :: "string \<Rightarrow> (string \<times> string) option" where
  "read_string [] = None"
| "read_string (c # s) =
     (if c = DQ then Some ([], s)
      else if c = BSL then
        (case s of
           [] \<Rightarrow> None
         | e # s' \<Rightarrow>
             (case simple_escape e of
                Some d \<Rightarrow> map_option (\<lambda>(v, r). (d # v, r)) (read_string s')
              | None \<Rightarrow>
                  (case s' of
                     a # b # x # y # r \<Rightarrow>
                       (if e = CHR ''u'' \<and> a = CHR ''0'' \<and> b = CHR ''0'' then
                          (case (hex_val x, hex_val y) of
                             (Some m, Some n) \<Rightarrow>
                               map_option (\<lambda>(v, r). (char_of (16 * m + n) # v, r)) (read_string r)
                           | _ \<Rightarrow> None)
                        else None)
                   | _ \<Rightarrow> None)))
      else if 32 \<le> (of_char c :: nat) then map_option (\<lambda>(v, r). (c # v, r)) (read_string s)
      else None)"

lemma hex_val_hex_char [simp]: "n < 16 \<Longrightarrow> hex_val (hex_char n) = Some n"
  by (auto simp: hex_val_def hex_char_def of_char_of Let_def)

lemma hex2_char: "char_of (16 * ((of_char c :: nat) div 16) + (of_char c :: nat) mod 16) = c"
  by simp

lemma of_char_less_256: "(of_char c :: nat) < 256"
  by simp

lemma schar_less_32_iff:
  "schar c < 32 \<longleftrightarrow> (of_char c :: nat) < 32 \<or> 128 \<le> (of_char c :: nat)"
proof -
  have *: "(of_char c :: nat) < 256" by (rule of_char_less_256)
  show ?thesis unfolding schar_def Let_def
    by (cases "int (of_char c) < 128") (use * in \<open>simp_all only: if_True if_False\<close>, linarith+)
qed

lemma is_printable_range:
  "is_printable c \<longleftrightarrow>
     32 \<le> (of_char c :: nat) \<and> (of_char c :: nat) < 128 \<and> c \<noteq> DQ \<and> c \<noteq> BSL"
  by (auto simp: is_printable_def schar_less_32_iff)

lemma read_string_escape_char:
  "read_string (escape_char c @ r) = map_option (\<lambda>(v, r'). (c # v, r')) (read_string r)"
proof (cases "is_printable c")
  case True
  then show ?thesis by (simp add: escape_char_def is_printable_range)
next
  case False
  have n: "(of_char c :: nat) div 16 < 16"
    by (rule less_mult_imp_div_less) simp
  have m: "(of_char c :: nat) mod 16 < 16" by simp
  from False show ?thesis
    by (auto simp: escape_char_def escape_nonprintable_def simple_escape_def hex2_def Let_def n m)
qed

lemma read_string_escape: "read_string (escape s @ DQ # r) = Some (s, r)"
  by (induction s) (simp_all add: read_string_escape_char)

lemma escape_nonprintable_ascii:
  "c' \<in> set (escape_nonprintable c) \<Longrightarrow>
   32 \<le> (of_char c' :: nat) \<and> (of_char c' :: nat) < 128"
proof -
  assume c': "c' \<in> set (escape_nonprintable c)"
  have hex: "32 \<le> (of_char (hex_char n) :: nat) \<and> (of_char (hex_char n) :: nat) < 128" if "n < 16" for n
    using that by (auto simp: hex_char_def of_char_of)
  have n: "(of_char c :: nat) div 16 < 16"
    by (rule less_mult_imp_div_less) simp
  from c' hex[OF n] hex[of "(of_char c :: nat) mod 16"] show ?thesis
    by (auto simp: escape_nonprintable_def hex2_def Let_def split: if_splits)
qed

lemma escape_ascii:
  "c \<in> set (escape s) \<Longrightarrow> 32 \<le> (of_char c :: nat) \<and> (of_char c :: nat) < 128"
  by (auto simp: escape_def escape_char_def is_printable_range split: if_splits
      dest: escape_nonprintable_ascii)

end
