(* ===== verification/Json_Tree.thy ===== *)
theory Json_Tree
  imports Json
begin

section \<open>What the JSON writer writes\<close>

text \<open>
  The specification of the writer of \<open>Json\<close>: a tree of JSON values, the calls that emit it
  (the way the query, status and admin code make them), and its text. The main lemmas say
  that emitting a tree appends exactly the text of the tree, separators, indentation and
  escapes included, in both the compact and the indented style, and leaves the writer ready
  for the next item.
\<close>

datatype jtree =
    JNull
  | JNum string
  | JStr string
  | JArr "jtree list"
  | JObj "(string \<times> jtree) list"

fun is_container :: "jtree \<Rightarrow> bool" where
  "is_container (JArr vs) = True"
| "is_container (JObj ms) = True"
| "is_container v = False"

definition quoted :: "string \<Rightarrow> string" where
  "quoted s = DQ # s @ [DQ]"

subsection \<open>The text of a tree\<close>

definition key_text :: "bool \<Rightarrow> string \<Rightarrow> string" where
  "key_text pp k = quoted k @ blank pp @ '':'' @ blank pp"

definition elem_sep :: "bool \<Rightarrow> int \<Rightarrow> bool \<Rightarrow> jtree \<Rightarrow> string" where
  "elem_sep pp l first v =
     (if is_container v then (if first then [] else '','' @ newline pp) @ indent pp l
      else (if first then [] else '',''))"

definition member_sep :: "bool \<Rightarrow> int \<Rightarrow> bool \<Rightarrow> string" where
  "member_sep pp l first = (if first then indent pp l else '', '')"

fun render :: "bool \<Rightarrow> int \<Rightarrow> jtree \<Rightarrow> string"
  and render_elems :: "bool \<Rightarrow> int \<Rightarrow> bool \<Rightarrow> jtree list \<Rightarrow> string"
  and render_members :: "bool \<Rightarrow> int \<Rightarrow> bool \<Rightarrow> (string \<times> jtree) list \<Rightarrow> string"
where
  "render pp l JNull = ''null''"
| "render pp l (JNum n) = n"
| "render pp l (JStr s) = quoted (escape s)"
| "render pp l (JArr vs) =
     ''['' @ newline pp @ render_elems pp (l + 1) True vs @ newline pp @ indent pp l @ '']''"
| "render pp l (JObj ms) =
     ''{'' @ newline pp @ render_members pp (l + 1) True ms @ newline pp @ indent pp l @ ''}''"
| "render_elems pp l first [] = []"
| "render_elems pp l first (v # vs) =
     elem_sep pp l first v @ render pp l v @ render_elems pp l False vs"
| "render_members pp l first [] = []"
| "render_members pp l first ((k, v) # ms) =
     member_sep pp l first @ key_text pp k @ render pp l v @ render_members pp l False ms"

subsection \<open>The calls that emit a tree\<close>

fun emit_elem :: "jtree \<Rightarrow> json \<Rightarrow> json"
  and emit_elems :: "jtree list \<Rightarrow> json \<Rightarrow> json"
  and emit_member :: "string \<Rightarrow> jtree \<Rightarrow> json \<Rightarrow> json"
  and emit_members :: "(string \<times> jtree) list \<Rightarrow> json \<Rightarrow> json"
where
  "emit_elem JNull j = json_add_value j ''null''"
| "emit_elem (JNum n) j = json_add_value j n"
| "emit_elem (JStr s) j = json_add_value j (quoted (escape s))"
| "emit_elem (JArr vs) j = json_end_array (emit_elems vs (json_new_array j))"
| "emit_elem (JObj ms) j = json_end_object (emit_members ms (json_new_object j))"
| "emit_elems [] j = j"
| "emit_elems (v # vs) j = emit_elems vs (emit_elem v j)"
| "emit_member k JNull j = json_add_null j k"
| "emit_member k (JNum n) j = json_add_number j k n"
| "emit_member k (JStr s) j = json_add_string j k s"
| "emit_member k (JArr vs) j = json_end_array (emit_elems vs (json_new_array (json_add_key j k)))"
| "emit_member k (JObj ms) j = json_end_object (emit_members ms (json_new_object (json_add_key j k)))"
| "emit_members [] j = j"
| "emit_members ((k, v) # ms) j = emit_members ms (emit_member k v j)"

subsection \<open>The effect of each call\<close>

lemma has_items_Cons [simp]: "stack j = n # ns \<Longrightarrow> has_items j \<longleftrightarrow> num_items n \<noteq> 0"
  by (simp add: has_items_def)

lemma has_items_Nil [simp]: "stack j = [] \<Longrightarrow> \<not> has_items j"
  by (simp add: has_items_def)

lemma has_items_counted: "stack j = counted st \<Longrightarrow> has_items j \<longleftrightarrow> st \<noteq> []"
  by (cases st) auto

lemma tl_counted [simp]: "tl (counted st) = tl st"
  by (cases st) simp_all

lemma counted_eq_Nil [simp]: "counted st = [] \<longleftrightarrow> st = []"
  by (cases st) simp_all

definition open_sep :: "json \<Rightarrow> string" where
  "open_sep j =
     (if pending j then []
      else (if has_items j then '','' @ newline (prettyprint j) else []) @
           indent (prettyprint j) (tab_level j))"

lemma json_new_object_simps [simp]:
  "json_to_string (json_new_object j) =
     json_to_string j @ open_sep j @ ''{'' @ newline (prettyprint j)"
  "tab_level (json_new_object j) = tab_level j + 1"
  "stack (json_new_object j) = \<lparr>ntype = OBJECT, num_items = 0\<rparr> # counted (stack j)"
  "pending (json_new_object j) = False"
  "prettyprint (json_new_object j) = prettyprint j" "mode (json_new_object j) = mode j"
  by (simp_all add: json_new_object_def Let_def open_sep_def)

lemma json_new_array_simps [simp]:
  "json_to_string (json_new_array j) =
     json_to_string j @ open_sep j @ ''['' @ newline (prettyprint j)"
  "tab_level (json_new_array j) = tab_level j + 1"
  "stack (json_new_array j) = \<lparr>ntype = ARRAY, num_items = 0\<rparr> # counted (stack j)"
  "pending (json_new_array j) = False"
  "prettyprint (json_new_array j) = prettyprint j" "mode (json_new_array j) = mode j"
  by (simp_all add: json_new_array_def Let_def open_sep_def)

lemma json_end_object_simps [simp]:
  "json_to_string (json_end_object j) =
     json_to_string j @ newline (prettyprint j) @ indent (prettyprint j) (tab_level j - 1) @ ''}''"
  "tab_level (json_end_object j) = tab_level j - 1"
  "stack (json_end_object j) = tl (stack j)"
  "pending (json_end_object j) = pending j"
  "prettyprint (json_end_object j) = prettyprint j" "mode (json_end_object j) = mode j"
  by (simp_all add: json_end_object_def Let_def)

lemma json_end_array_simps [simp]:
  "json_to_string (json_end_array j) =
     json_to_string j @ newline (prettyprint j) @ indent (prettyprint j) (tab_level j - 1) @ '']''"
  "tab_level (json_end_array j) = tab_level j - 1"
  "stack (json_end_array j) = tl (stack j)"
  "pending (json_end_array j) = pending j"
  "prettyprint (json_end_array j) = prettyprint j" "mode (json_end_array j) = mode j"
  by (simp_all add: json_end_array_def Let_def)

lemma json_add_value_simps [simp]:
  "json_to_string (json_add_value j s) =
     json_to_string j @ (if has_items j \<and> \<not> pending j then '','' else []) @ s"
  "tab_level (json_add_value j s) = tab_level j"
  "stack (json_add_value j s) = counted (stack j)"
  "pending (json_add_value j s) = pending j"
  "prettyprint (json_add_value j s) = prettyprint j" "mode (json_add_value j s) = mode j"
  by (simp_all add: json_add_value_def Let_def)

definition key_sep :: "json \<Rightarrow> string" where
  "key_sep j =
     (if stack j = [] then []
      else if has_items j then (if pending j then [] else '', '')
      else indent (prettyprint j) (tab_level j))"

lemma json_add_key_simps [simp]:
  "json_to_string (json_add_key j k) = json_to_string j @ key_sep j @ key_text (prettyprint j) k"
  "tab_level (json_add_key j k) = tab_level j"
  "stack (json_add_key j k) = counted (stack j)"
  "pending (json_add_key j k) = True"
  "prettyprint (json_add_key j k) = prettyprint j" "mode (json_add_key j k) = mode j"
  by (cases "stack j";
      simp add: json_add_key_def Let_def key_sep_def key_text_def quoted_def blank_def)+

lemma json_add_scalar_simps [simp]:
  "json_to_string (json_add_null j k) =
     json_to_string j @ key_sep j @ key_text (prettyprint j) k @ ''null''"
  "json_to_string (json_add_number j k n) =
     json_to_string j @ key_sep j @ key_text (prettyprint j) k @ n"
  "json_to_string (json_add_string j k s) =
     json_to_string j @ key_sep j @ key_text (prettyprint j) k @ quoted (escape s)"
  "tab_level (json_add_null j k) = tab_level j"
  "tab_level (json_add_number j k n) = tab_level j"
  "tab_level (json_add_string j k s) = tab_level j"
  "stack (json_add_null j k) = counted (stack j)"
  "stack (json_add_number j k n) = counted (stack j)"
  "stack (json_add_string j k s) = counted (stack j)"
  "pending (json_add_null j k) = False" "pending (json_add_number j k n) = False"
  "pending (json_add_string j k s) = False"
  "prettyprint (json_add_null j k) = prettyprint j"
  "prettyprint (json_add_number j k n) = prettyprint j"
  "prettyprint (json_add_string j k s) = prettyprint j"
  "mode (json_add_null j k) = mode j" "mode (json_add_number j k n) = mode j"
  "mode (json_add_string j k s) = mode j"
proof -
  have "json_to_string (put (json_add_key j k) [DQ]) =
      json_to_string j @ key_sep j @ key_text (prettyprint j) k @ [DQ]" by simp
  then show "json_to_string (json_add_string j k s) =
     json_to_string j @ key_sep j @ key_text (prettyprint j) k @ quoted (escape s)"
    by (simp add: json_add_string_def Let_def json_to_string_def [of "put (json_add_key j k) [DQ]", symmetric] quoted_def)
qed (simp_all add: json_add_null_def json_add_number_def json_add_string_def Let_def)

lemma json_add_json_simps [simp]:
  "json_to_string (json_add_json j s) = json_to_string j @ s"
  "tab_level (json_add_json j s) = tab_level j" "stack (json_add_json j s) = stack j"
  "pending (json_add_json j s) = pending j" "prettyprint (json_add_json j s) = prettyprint j"
  "mode (json_add_json j s) = mode j"
  by (simp_all add: json_add_json_def)

lemma json_callback_simps [simp]:
  "json_to_string (json_add_callback j s) = json_to_string j @ s @ ''(''"
  "tab_level (json_add_callback j s) = tab_level j" "stack (json_add_callback j s) = stack j"
  "pending (json_add_callback j s) = pending j"
  "prettyprint (json_add_callback j s) = prettyprint j"
  "mode (json_add_callback j s) = mode j"
  "json_to_string (json_end_callback j) = json_to_string j @ '');''"
  by (simp_all add: json_add_callback_def json_end_callback_def)

lemma json_flag_simps [simp]:
  "json_to_string (json_pretty_print j pp) = json_to_string j"
  "tab_level (json_pretty_print j pp) = tab_level j" "stack (json_pretty_print j pp) = stack j"
  "pending (json_pretty_print j pp) = pending j" "prettyprint (json_pretty_print j pp) = pp"
  "mode (json_pretty_print j pp) = mode j"
  "json_to_string (json_set_mode j m) = json_to_string j"
  "tab_level (json_set_mode j m) = tab_level j" "stack (json_set_mode j m) = stack j"
  "pending (json_set_mode j m) = pending j" "prettyprint (json_set_mode j m) = prettyprint j"
  "mode (json_set_mode j m) = m" "json_get_mode j = mode j"
  by (simp_all add: json_pretty_print_def json_set_mode_def json_get_mode_def)

subsection \<open>Emitting a tree writes its text\<close>

text \<open>What a call leaves unchanged: the level, the style, and everything below the top.\<close>

definition same_frame :: "json \<Rightarrow> json \<Rightarrow> bool" where
  "same_frame j j' \<longleftrightarrow>
     tab_level j' = tab_level j \<and> prettyprint j' = prettyprint j \<and> mode j' = mode j \<and>
     tl (stack j') = tl (stack j) \<and> (stack j' = [] \<longleftrightarrow> stack j = [])"

lemma same_frame_refl [simp]: "same_frame j j"
  by (simp add: same_frame_def)

lemma same_frame_trans: "same_frame j1 j2 \<Longrightarrow> same_frame j2 j3 \<Longrightarrow> same_frame j1 j3"
  by (simp add: same_frame_def)

definition elem_prefix :: "json \<Rightarrow> jtree \<Rightarrow> string" where
  "elem_prefix j v =
     (if pending j then []
      else elem_sep (prettyprint j) (tab_level j) (\<not> has_items j) v)"

definition elem_ok :: "jtree \<Rightarrow> json \<Rightarrow> json \<Rightarrow> bool" where
  "elem_ok v j j' \<longleftrightarrow>
     json_to_string j' =
       json_to_string j @ elem_prefix j v @ render (prettyprint j) (tab_level j) v \<and>
     same_frame j j' \<and> stack j' = counted (stack j) \<and>
     pending j' = (pending j \<and> \<not> is_container v)"

definition items_ok :: "bool \<Rightarrow> string \<Rightarrow> json \<Rightarrow> json \<Rightarrow> bool" where
  "items_ok some txt j j' \<longleftrightarrow>
     json_to_string j' = json_to_string j @ txt \<and>
     same_frame j j' \<and> \<not> pending j' \<and> (has_items j' \<longleftrightarrow> has_items j \<or> some)"

lemma emit_ok:
  shows "elem_ok v j (emit_elem v j)"
    and "\<not> pending j \<Longrightarrow> stack j \<noteq> [] \<Longrightarrow>
      items_ok (vs \<noteq> []) (render_elems (prettyprint j) (tab_level j) (\<not> has_items j) vs)
        j (emit_elems vs j)"
    and "\<not> pending j \<Longrightarrow> stack j \<noteq> [] \<Longrightarrow>
      items_ok True (member_sep (prettyprint j) (tab_level j) (\<not> has_items j) @
          key_text (prettyprint j) k @ render (prettyprint j) (tab_level j) v)
        j (emit_member k v j)"
    and "\<not> pending j \<Longrightarrow> stack j \<noteq> [] \<Longrightarrow>
      items_ok (ms \<noteq> []) (render_members (prettyprint j) (tab_level j) (\<not> has_items j) ms)
        j (emit_members ms j)"
proof (induction v j and vs j and k v j and ms j
    rule: emit_elem_emit_elems_emit_member_emit_members.induct)
qed (auto simp: elem_ok_def items_ok_def same_frame_def elem_prefix_def elem_sep_def
      open_sep_def key_sep_def member_sep_def has_items_counted)

lemma json_pretty_print_simps [simp]:
  "json_to_string (json_pretty_print j pp) = json_to_string j"
  "tab_level (json_pretty_print j pp) = tab_level j" "stack (json_pretty_print j pp) = stack j"
  "pending (json_pretty_print j pp) = pending j" "prettyprint (json_pretty_print j pp) = pp"
  "mode (json_pretty_print j pp) = mode j"
  by (simp_all add: json_pretty_print_def json_to_string_def)

subsection \<open>Properties\<close>

text \<open>C14.
  Emitting any tree of values with a fresh writer, in either style, yields exactly the text of
  the tree: every comma, bracket and indentation in its place, every string escaped.
\<close>

theorem json_document_text:
  "json_to_string (emit_elem t (json_pretty_print json_new pp)) = render pp 0 t"
  using emit_ok(1)[of t "json_pretty_print json_new pp"]
  by (auto simp: elem_ok_def elem_prefix_def elem_sep_def indent_def)

text \<open>C15.
  A string value is written so that a JSON reader that stops at the closing quote gets back every
  byte of it, whatever bytes it holds, and the text in between is printable ASCII.
\<close>

theorem json_string_roundtrip:
  "(\<exists>txt. json_to_string (json_add_string (json_new_object json_new) k s) =
      ''{'' @ key_text False k @ DQ # txt @ [DQ] \<and>
      read_string (txt @ DQ # rest) = Some (s, rest) \<and>
      {c \<in> set txt. \<not> (32 \<le> (of_char c :: nat) \<and> (of_char c :: nat) < 128)} = {})"
proof (rule exI[of _ "escape s"], intro conjI)
  have "items_ok True (member_sep False 1 True @ key_text False k @ render False 1 (JStr s))
      (json_new_object json_new) (emit_member k (JStr s) (json_new_object json_new))"
    using emit_ok(3)[of "json_new_object json_new" k "JStr s"]
    by simp
  then show "json_to_string (json_add_string (json_new_object json_new) k s) =
      ''{'' @ key_text False k @ DQ # escape s @ [DQ]"
    by (simp add: items_ok_def member_sep_def indent_def quoted_def open_sep_def newline_def)
qed (auto simp: read_string_escape dest: escape_ascii)

end
