(* ===== verification/Result.thy ===== *)
theory Result
  imports Json_Tree Request
begin

section \<open>Running a query and writing its results (src/db.c)\<close>

text \<open>
  The driver interface of src/dbrelay.h as a record of functions on the state \<open>'d\<close> of the
  database, and the functions of src/db.c that run a query through it and write what comes back.
  A function of a driver may fault, like everything that is called with a null pointer or fills an
  array, and what called it then does not go on. A loop that the driver never ends has the value
  \<open>None\<close>.
\<close>

type_synonym handle = "nat option"

record 'd dbapi =
  api_connected :: "handle \<Rightarrow> 'd \<Rightarrow> bool result"
  api_change_db :: "handle \<Rightarrow> string \<Rightarrow> 'd \<Rightarrow> (bool \<times> 'd) result"
  api_exec :: "handle \<Rightarrow> string option \<Rightarrow> 'd \<Rightarrow> (bool \<times> 'd) result"
  api_rowcount :: "handle \<Rightarrow> 'd \<Rightarrow> int result"
  api_has_results :: "handle \<Rightarrow> 'd \<Rightarrow> (bool \<times> 'd) result"
  api_numcols :: "handle \<Rightarrow> 'd \<Rightarrow> int result"
  api_colname :: "handle \<Rightarrow> nat \<Rightarrow> 'd \<Rightarrow> string option result"
  api_coltype :: "handle \<Rightarrow> nat \<Rightarrow> 'd \<Rightarrow> string result"
  api_collen :: "handle \<Rightarrow> nat \<Rightarrow> 'd \<Rightarrow> int result"
  api_colprec :: "handle \<Rightarrow> nat \<Rightarrow> 'd \<Rightarrow> int result"
  api_colscale :: "handle \<Rightarrow> nat \<Rightarrow> 'd \<Rightarrow> int result"
  api_fetch_row :: "handle \<Rightarrow> 'd \<Rightarrow> (bool \<times> 'd) result"
  api_colvalue :: "handle \<Rightarrow> nat \<Rightarrow> 'd \<Rightarrow> string option result"
  api_is_quoted :: "handle \<Rightarrow> nat \<Rightarrow> 'd \<Rightarrow> bool result"
  api_error :: "handle \<Rightarrow> 'd \<Rightarrow> string result"
  api_catalogsql :: "nat \<Rightarrow> string option list \<Rightarrow> string option result"
  api_isalive :: "handle \<Rightarrow> 'd \<Rightarrow> bool result"
  api_connect :: "dbrelay_request \<Rightarrow> 'd \<Rightarrow> (handle \<times> 'd) result"
  api_assign_request :: "handle \<Rightarrow> dbrelay_request option \<Rightarrow> 'd \<Rightarrow> 'd result"
  api_close :: "handle \<Rightarrow> 'd \<Rightarrow> 'd result"

definition DBRELAY_DBCMD_TABLES :: nat where "DBRELAY_DBCMD_TABLES = 0"
definition DBRELAY_DBCMD_COLUMNS :: nat where "DBRELAY_DBCMD_COLUMNS = 1"
definition DBRELAY_DBCMD_PKEY :: nat where "DBRELAY_DBCMD_PKEY = 2"
definition DBRELAY_DBCMD_BEGIN :: nat where "DBRELAY_DBCMD_BEGIN = 3"
definition DBRELAY_DBCMD_COMMIT :: nat where "DBRELAY_DBCMD_COMMIT = 4"
definition DBRELAY_DBCMD_ROLLBACK :: nat where "DBRELAY_DBCMD_ROLLBACK = 5"

lemmas dbcmd_defs = DBRELAY_DBCMD_TABLES_def DBRELAY_DBCMD_COLUMNS_def DBRELAY_DBCMD_PKEY_def
  DBRELAY_DBCMD_BEGIN_def DBRELAY_DBCMD_COMMIT_def DBRELAY_DBCMD_ROLLBACK_def

subsection \<open>Columns\<close>

definition dbrelay_is_unnamed_column :: "string option \<Rightarrow> bool" where
  "dbrelay_is_unnamed_column colname =
     (case colname of None \<Rightarrow> True | Some n \<Rightarrow> \<not> IS_SET n \<or> n = ''?column?'')"

text \<open>
  The name a column gets, and the new \<^verbatim>\<open>maxcolname\<close>: unnamed columns are numbered after the
  largest number seen so far, the numbers that start a column name included.
\<close>

definition number_column :: "string option \<Rightarrow> int \<Rightarrow> string \<times> int" where
  "number_column colname m =
     (if dbrelay_is_unnamed_column colname then (show_int (m + 1), m + 1)
      else (let n = the colname; l = atoi n in (n, if l > 0 \<and> l > m then l else m)))"

definition add_number_unless0 :: "json \<Rightarrow> string \<Rightarrow> int \<Rightarrow> json" where
  "add_number_unless0 j key l = (if l \<noteq> 0 then json_add_number j key (show_int l) else j)"

definition dbrelay_write_json_colinfo ::
    "'d dbapi \<Rightarrow> handle \<Rightarrow> 'd \<Rightarrow> json \<Rightarrow> nat \<Rightarrow> int \<Rightarrow> (json \<times> int) result" where
  "dbrelay_write_json_colinfo api db d j colnum m =
     (let j = json_new_object j in
      rbind (api_colname api db colnum d) (\<lambda>colname.
        let (name, m) = number_column colname m;
            j = json_add_string j ''name'' name in
        rbind (api_coltype api db colnum d) (\<lambda>tmp.
          let j = json_add_string j ''sql_type'' tmp in
          rbind (api_collen api db colnum d) (\<lambda>l.
            let j = add_number_unless0 j ''length'' l in
            rbind (api_colprec api db colnum d) (\<lambda>l.
              let j = add_number_unless0 j ''precision'' l in
              rbind (api_colscale api db colnum d) (\<lambda>l.
                let j = add_number_unless0 j ''scale'' l
                in Inr (json_end_object j, m)))))))"

text \<open>
  The driver copies the value into a block of \<^verbatim>\<open>colsize > 256 ? colsize : 256\<close> bytes, its
  terminator included.
\<close>

definition fetch_value ::
    "'d dbapi \<Rightarrow> handle \<Rightarrow> 'd \<Rightarrow> nat \<Rightarrow> string option result" where
  "fetch_value api db d colnum =
     rbind (api_collen api db colnum d) (\<lambda>colsize.
       let sz = (if colsize > 256 then colsize else 256) in
       rbind (api_colvalue api db colnum d) (\<lambda>value.
         case value of
           None \<Rightarrow> Inr None
         | Some v \<Rightarrow> if int (length v) < sz then Inr (Some v) else Inl Buffer_Overflow))"

definition dbrelay_write_json_column_csv ::
    "'d dbapi \<Rightarrow> handle \<Rightarrow> 'd \<Rightarrow> json \<Rightarrow> nat \<Rightarrow> json result" where
  "dbrelay_write_json_column_csv api db d j colnum =
     rbind (fetch_value api db d colnum) (\<lambda>tmp.
       case tmp of
         None \<Rightarrow> Inr j
       | Some v \<Rightarrow>
           (let escape_it = CHR '','' \<in> set v;
                j = (if escape_it then json_add_json j [BSL, DQ] else j);
                j = json_add_json j v;
                j = (if escape_it then json_add_json j [BSL, DQ] else j)
            in Inr j))"

definition dbrelay_write_json_column_std ::
    "'d dbapi \<Rightarrow> handle \<Rightarrow> 'd \<Rightarrow> json \<Rightarrow> nat \<Rightarrow> string \<Rightarrow> json result" where
  "dbrelay_write_json_column_std api db d j colnum colname =
     rbind (fetch_value api db d colnum) (\<lambda>tmp.
       case tmp of
         None \<Rightarrow> Inr (json_add_null j colname)
       | Some v \<Rightarrow>
           rbind (api_is_quoted api db colnum d) (\<lambda>quoted.
             Inr (if quoted then json_add_string j colname v else json_add_number j colname v)))"

text \<open>The name goes through a buffer of 256 bytes.\<close>

definition dbrelay_write_json_column ::
    "'d dbapi \<Rightarrow> handle \<Rightarrow> 'd \<Rightarrow> json \<Rightarrow> nat \<Rightarrow> int \<Rightarrow> (json \<times> int) result" where
  "dbrelay_write_json_column api db d j colnum m =
     rbind (api_colname api db colnum d) (\<lambda>colname.
       let (name, m) = number_column colname m
       in if \<not> length name < 256 then Inl Buffer_Overflow
          else rbind
            (if json_get_mode j = JSON_MODE_CSV then dbrelay_write_json_column_csv api db d j colnum
             else dbrelay_write_json_column_std api db d j colnum name)
            (\<lambda>j. Inr (j, m)))"

subsection \<open>Result sets\<close>

fun colinfo_loop :: "'d dbapi \<Rightarrow> handle \<Rightarrow> 'd \<Rightarrow> json \<Rightarrow> nat list \<Rightarrow> int \<Rightarrow> json result" where
  "colinfo_loop api db d j [] m = Inr j"
| "colinfo_loop api db d j (colnum # cs) m =
     rbind (dbrelay_write_json_colinfo api db d j colnum m) (\<lambda>(j, m). colinfo_loop api db d j cs m)"

fun column_loop ::
    "'d dbapi \<Rightarrow> handle \<Rightarrow> 'd \<Rightarrow> nat \<Rightarrow> json \<Rightarrow> nat list \<Rightarrow> int \<Rightarrow> json result" where
  "column_loop api db d numcols j [] m = Inr j"
| "column_loop api db d numcols j (colnum # cs) m =
     rbind (dbrelay_write_json_column api db d j colnum m) (\<lambda>(j, m).
       let j = (if json_get_mode j = JSON_MODE_CSV \<and> colnum \<noteq> numcols
                then json_add_json j '','' else j)
       in column_loop api db d numcols j cs m)"

text \<open>\<^verbatim>\<open>for (colnum=1; colnum<=numcols; colnum++)\<close>.\<close>

definition colnums :: "int \<Rightarrow> nat list" where
  "colnums numcols = [1..<Suc (nat numcols)]"

definition write_row :: "'d dbapi \<Rightarrow> handle \<Rightarrow> 'd \<Rightarrow> int \<Rightarrow> json \<Rightarrow> json result" where
  "write_row api db d numcols j =
     (let j = (if json_get_mode j = JSON_MODE_STD then json_new_object j else j)
      in rbind (column_loop api db d (nat numcols) j (colnums numcols) 0) (\<lambda>j.
           Inr (if json_get_mode j = JSON_MODE_STD then json_end_object j
                else json_add_json j [BSL, CHR ''n''])))"

partial_function (option) row_loop ::
    "'d dbapi \<Rightarrow> handle \<Rightarrow> int \<Rightarrow> json \<Rightarrow> 'd \<Rightarrow> (json \<times> 'd) result option" where
  "row_loop api db numcols j d =
     and_then (api_fetch_row api db d) (\<lambda>(more, d).
       if more then and_then (write_row api db d numcols j) (\<lambda>j. row_loop api db numcols j d)
       else Some (Inr (j, d)))"

definition begin_set :: "'d dbapi \<Rightarrow> handle \<Rightarrow> 'd \<Rightarrow> int \<Rightarrow> json \<Rightarrow> json result" where
  "begin_set api db d numcols j =
     (let j = json_new_object j;
          j = json_new_array (json_add_key j ''fields'')
      in rbind (colinfo_loop api db d j (colnums numcols) 0) (\<lambda>j.
           let j = json_end_array j;
               j = json_add_key j ''rows''
           in Inr (if json_get_mode j = JSON_MODE_STD then json_new_array j else json_add_json j [DQ])))"

definition end_set :: "'d dbapi \<Rightarrow> handle \<Rightarrow> 'd \<Rightarrow> json \<Rightarrow> json result" where
  "end_set api db d j =
     (let j = (if json_get_mode j = JSON_MODE_STD then json_end_array j
               else json_add_json j [DQ, CHR '',''])
      in rbind (api_rowcount api db d) (\<lambda>n.
           let j = (if n = - 1 then json_add_null j ''count'' else json_add_number j ''count'' (show_int n))
           in Inr (json_end_object j)))"

partial_function (option) set_loop ::
    "'d dbapi \<Rightarrow> handle \<Rightarrow> json \<Rightarrow> 'd \<Rightarrow> (json \<times> 'd) result option" where
  "set_loop api db j d =
     and_then (api_has_results api db d) (\<lambda>(more, d).
       if more then
         and_then (api_numcols api db d) (\<lambda>numcols.
         and_then (begin_set api db d numcols j) (\<lambda>j.
         loop_bind (row_loop api db numcols j d) (\<lambda>(j, d).
         and_then (end_set api db d j) (\<lambda>j. set_loop api db j d))))
       else Some (Inr (j, d)))"

definition dbrelay_db_fill_data ::
    "'d dbapi \<Rightarrow> handle \<Rightarrow> json \<Rightarrow> 'd \<Rightarrow> (json \<times> 'd) result option" where
  "dbrelay_db_fill_data api db j d =
     (let j = json_new_array (json_add_key j ''data'')
      in loop_bind (set_loop api db j d) (\<lambda>(j, d). Some (Inr (json_end_array j, d))))"

subsection \<open>Executing a query\<close>

text \<open>The text of the results, or \<open>None\<close> when the driver refused the query.\<close>

definition exec_if :: "bool \<Rightarrow> 'd dbapi \<Rightarrow> handle \<Rightarrow> nat \<Rightarrow> 'd \<Rightarrow> 'd result" where
  "exec_if xact api db dbcmd d =
     (if xact then
        rbind (api_catalogsql api dbcmd []) (\<lambda>q. rbind (api_exec api db q d) (\<lambda>(ok, d). Inr d))
      else Inr d)"

definition dbrelay_exec_query ::
    "'d dbapi \<Rightarrow> handle \<Rightarrow> string \<Rightarrow> string option \<Rightarrow> 64 word \<Rightarrow> 'd \<Rightarrow>
     (string option \<times> 'd) result option" where
  "dbrelay_exec_query api db database sqltext fl d =
     (let j = json_new;
          j = (if flag_set fl DBRELAY_FLAG_PP then json_pretty_print j True else j);
          j = (if flag_set fl DBRELAY_FLAG_EMBEDCSV then json_set_mode j JSON_MODE_CSV else j);
          xact = flag_set fl DBRELAY_FLAG_XACT
      in and_then (api_change_db api db database d) (\<lambda>(ok, d).
         and_then (exec_if xact api db DBRELAY_DBCMD_BEGIN d) (\<lambda>d.
         and_then (api_exec api db sqltext d) (\<lambda>(ok, d).
           if ok then
             loop_bind (dbrelay_db_fill_data api db j d) (\<lambda>(j, d).
             and_then (exec_if xact api db DBRELAY_DBCMD_COMMIT d) (\<lambda>d.
               Some (Inr (Some (json_to_string j), d))))
           else
             and_then (exec_if xact api db DBRELAY_DBCMD_ROLLBACK d) (\<lambda>d. Some (Inr (None, d)))))))"

subsection \<open>What a driver delivers\<close>

text \<open>
  The documented behaviour of a driver, as far as the code relies on it: from state \<open>d\<close> it
  delivers the result sets \<open>ss\<close>, each with its columns, its rows and its count, and ends in
  state \<open>d'\<close>. Columns are numbered from one.
\<close>

record column =
  col_name :: "string option"
  col_type :: string
  col_len :: int
  col_prec :: int
  col_scale :: int
  col_quoted :: bool

record result_set =
  columns :: "column list"
  rows :: "string option list list"
  row_count :: int

definition shows_columns :: "'d dbapi \<Rightarrow> handle \<Rightarrow> 'd \<Rightarrow> column list \<Rightarrow> bool" where
  "shows_columns api db d cs \<longleftrightarrow> api_numcols api db d = Inr (int (length cs)) \<and>
     (\<forall>i<length cs. api_colname api db (Suc i) d = Inr (col_name (cs ! i)) \<and>
        api_coltype api db (Suc i) d = Inr (col_type (cs ! i)) \<and>
        api_collen api db (Suc i) d = Inr (col_len (cs ! i)) \<and>
        api_colprec api db (Suc i) d = Inr (col_prec (cs ! i)) \<and>
        api_colscale api db (Suc i) d = Inr (col_scale (cs ! i)))"

definition shows_row :: "'d dbapi \<Rightarrow> handle \<Rightarrow> 'd \<Rightarrow> column list \<Rightarrow> string option list \<Rightarrow> bool" where
  "shows_row api db d cs vs \<longleftrightarrow> length vs = length cs \<and>
     (\<forall>i<length cs. api_colname api db (Suc i) d = Inr (col_name (cs ! i)) \<and>
        api_collen api db (Suc i) d = Inr (col_len (cs ! i)) \<and>
        api_is_quoted api db (Suc i) d = Inr (col_quoted (cs ! i)) \<and>
        api_colvalue api db (Suc i) d = Inr (vs ! i))"

fun delivers_rows ::
    "'d dbapi \<Rightarrow> handle \<Rightarrow> column list \<Rightarrow> 'd \<Rightarrow> string option list list \<Rightarrow> 'd \<Rightarrow> bool" where
  "delivers_rows api db cs d [] d' \<longleftrightarrow> api_fetch_row api db d = Inr (False, d')"
| "delivers_rows api db cs d (vs # vss) d' \<longleftrightarrow>
     (\<exists>d1. api_fetch_row api db d = Inr (True, d1) \<and> shows_row api db d1 cs vs \<and>
        delivers_rows api db cs d1 vss d')"

fun delivers :: "'d dbapi \<Rightarrow> handle \<Rightarrow> 'd \<Rightarrow> result_set list \<Rightarrow> 'd \<Rightarrow> bool" where
  "delivers api db d [] d' \<longleftrightarrow> api_has_results api db d = Inr (False, d')"
| "delivers api db d (s # ss) d' \<longleftrightarrow>
     (\<exists>d1 d2. api_has_results api db d = Inr (True, d1) \<and> shows_columns api db d1 (columns s) \<and>
        delivers_rows api db (columns s) d1 (rows s) d2 \<and> api_rowcount api db d2 = Inr (row_count s) \<and>
        delivers api db d2 ss d')"

text \<open>The names and values fit the buffers of the code.\<close>

fun col_names :: "int \<Rightarrow> column list \<Rightarrow> string list" where
  "col_names m [] = []"
| "col_names m (c # cs) = (let (n, m) = number_column (col_name c) m in n # col_names m cs)"

definition value_fits :: "column \<Rightarrow> string option \<Rightarrow> bool" where
  "value_fits c v \<longleftrightarrow> (case v of None \<Rightarrow> True | Some s \<Rightarrow> int (length s) < max 256 (col_len c))"

definition set_fits :: "result_set \<Rightarrow> bool" where
  "set_fits s \<longleftrightarrow> list_all (\<lambda>n. length n < 256) (col_names 0 (columns s)) \<and>
     list_all (\<lambda>vs. list_all2 value_fits (columns s) vs) (rows s)"

subsection \<open>The tree of a result\<close>

definition col_tree :: "string \<Rightarrow> column \<Rightarrow> jtree" where
  "col_tree name c = JObj ([(''name'', JStr name), (''sql_type'', JStr (col_type c))] @
     (if col_len c \<noteq> 0 then [(''length'', JNum (show_int (col_len c)))] else []) @
     (if col_prec c \<noteq> 0 then [(''precision'', JNum (show_int (col_prec c)))] else []) @
     (if col_scale c \<noteq> 0 then [(''scale'', JNum (show_int (col_scale c)))] else []))"

fun col_trees :: "int \<Rightarrow> column list \<Rightarrow> jtree list" where
  "col_trees m [] = []"
| "col_trees m (c # cs) =
     (let (n, m) = number_column (col_name c) m in col_tree n c # col_trees m cs)"

definition value_tree :: "column \<Rightarrow> string option \<Rightarrow> jtree" where
  "value_tree c v =
     (case v of None \<Rightarrow> JNull | Some s \<Rightarrow> if col_quoted c then JStr s else JNum s)"

fun row_members :: "int \<Rightarrow> column list \<Rightarrow> string option list \<Rightarrow> (string \<times> jtree) list" where
  "row_members m (c # cs) (v # vs) =
     (let (n, m) = number_column (col_name c) m in (n, value_tree c v) # row_members m cs vs)"
| "row_members m cs vs = []"

definition count_tree :: "result_set \<Rightarrow> jtree" where
  "count_tree s = (if row_count s = - 1 then JNull else JNum (show_int (row_count s)))"

definition set_tree :: "result_set \<Rightarrow> jtree" where
  "set_tree s = JObj [(''fields'', JArr (col_trees 0 (columns s))),
     (''rows'', JArr (map (\<lambda>vs. JObj (row_members 0 (columns s) vs)) (rows s))),
     (''count'', count_tree s)]"

subsection \<open>The code emits the tree\<close>

lemma json_get_mode_simp [simp]: "json_get_mode j = mode j"
  by (simp add: json_get_mode_def)

lemma mode_emit [simp]:
  "mode (emit_elem v j) = mode j" "mode (emit_elems vs j) = mode j"
  "mode (emit_member k v j) = mode j" "mode (emit_members ms j) = mode j"
  by (induction v j and vs j and k v j and ms j
      rule: emit_elem_emit_elems_emit_member_emit_members.induct) simp_all

lemma emit_members_append: "emit_members (ms @ ns) j = emit_members ns (emit_members ms j)"
  by (induction ms arbitrary: j) auto

lemma emit_elems_append: "emit_elems (vs @ ws) j = emit_elems ws (emit_elems vs j)"
  by (induction vs arbitrary: j) auto

lemma colinfo_emit:
  assumes "api_colname api db n d = Inr (col_name c)" "api_coltype api db n d = Inr (col_type c)"
    "api_collen api db n d = Inr (col_len c)" "api_colprec api db n d = Inr (col_prec c)"
    "api_colscale api db n d = Inr (col_scale c)"
  shows "dbrelay_write_json_colinfo api db d j n m =
    (case number_column (col_name c) m of (name, m) \<Rightarrow> Inr (emit_elem (col_tree name c) j, m))"
  by (simp add: dbrelay_write_json_colinfo_def add_number_unless0_def assms col_tree_def Let_def
      emit_members_append split: prod.splits)

definition nums :: "nat \<Rightarrow> nat \<Rightarrow> nat list" where
  "nums k n = [Suc k..<Suc (k + n)]"

lemma nums_simps [simp]: "nums k 0 = []" "nums k (Suc n) = Suc k # nums (Suc k) n"
  by (simp_all add: nums_def upt_conv_Cons del: upt_Suc)

lemma colnums_nums: "colnums (int n) = nums 0 n"
  by (simp add: colnums_def nums_def)

lemma colinfo_loop_emit:
  assumes "\<forall>i<length cs. api_colname api db (Suc (k + i)) d = Inr (col_name (cs ! i)) \<and>
        api_coltype api db (Suc (k + i)) d = Inr (col_type (cs ! i)) \<and>
        api_collen api db (Suc (k + i)) d = Inr (col_len (cs ! i)) \<and>
        api_colprec api db (Suc (k + i)) d = Inr (col_prec (cs ! i)) \<and>
        api_colscale api db (Suc (k + i)) d = Inr (col_scale (cs ! i))"
  shows "colinfo_loop api db d j (nums k (length cs)) m = Inr (emit_elems (col_trees m cs) j)"
  using assms
proof (induction cs arbitrary: k j m)
  case Nil
  then show ?case by simp
next
  case (Cons c cs)
  from Cons.prems[rule_format, of 0] have c: "api_colname api db (Suc k) d = Inr (col_name c)"
    "api_coltype api db (Suc k) d = Inr (col_type c)" "api_collen api db (Suc k) d = Inr (col_len c)"
    "api_colprec api db (Suc k) d = Inr (col_prec c)" "api_colscale api db (Suc k) d = Inr (col_scale c)"
    by simp_all
  note IH = Cons.IH[of "Suc k"]
  from Cons.prems[rule_format, of "Suc i" for i]
  show ?case
    by (simp add: colinfo_emit[OF c] IH split: prod.splits)
qed

lemma column_emit:
  assumes "mode j = JSON_MODE_STD" "api_colname api db n d = Inr (col_name c)"
    and "api_collen api db n d = Inr (col_len c)" "api_is_quoted api db n d = Inr (col_quoted c)"
    and "api_colvalue api db n d = Inr v" "value_fits c v"
    and "number_column (col_name c) m = (name, m')" "length name < 256"
  shows "dbrelay_write_json_column api db d j n m = Inr (emit_member name (value_tree c v) j, m')"
  using assms
  by (auto simp: dbrelay_write_json_column_def dbrelay_write_json_column_std_def fetch_value_def
      value_fits_def value_tree_def Let_def split: option.splits)

definition row_emitted ::
    "'d dbapi \<Rightarrow> handle \<Rightarrow> 'd \<Rightarrow> nat \<Rightarrow> column list \<Rightarrow> string option list \<Rightarrow> bool" where
  "row_emitted api db d k cs vs \<longleftrightarrow> length vs = length cs \<and>
     (\<forall>i<length cs. api_colname api db (Suc (k + i)) d = Inr (col_name (cs ! i)) \<and>
        api_collen api db (Suc (k + i)) d = Inr (col_len (cs ! i)) \<and>
        api_is_quoted api db (Suc (k + i)) d = Inr (col_quoted (cs ! i)) \<and>
        api_colvalue api db (Suc (k + i)) d = Inr (vs ! i))"

lemma row_emitted_Cons:
  assumes "row_emitted api db d k (c # cs) (v # vs)"
  shows "api_colname api db (Suc k) d = Inr (col_name c)" "api_collen api db (Suc k) d = Inr (col_len c)"
    "api_is_quoted api db (Suc k) d = Inr (col_quoted c)" "api_colvalue api db (Suc k) d = Inr v"
    "row_emitted api db d (Suc k) cs vs"
proof -
  from assms have *: "i < length (c # cs) \<Longrightarrow>
      api_colname api db (Suc (k + i)) d = Inr (col_name ((c # cs) ! i)) \<and>
        api_collen api db (Suc (k + i)) d = Inr (col_len ((c # cs) ! i)) \<and>
        api_is_quoted api db (Suc (k + i)) d = Inr (col_quoted ((c # cs) ! i)) \<and>
        api_colvalue api db (Suc (k + i)) d = Inr ((v # vs) ! i)" for i
    unfolding row_emitted_def by blast
  from *[of 0] show "api_colname api db (Suc k) d = Inr (col_name c)"
    "api_collen api db (Suc k) d = Inr (col_len c)" "api_is_quoted api db (Suc k) d = Inr (col_quoted c)"
    "api_colvalue api db (Suc k) d = Inr v" by simp_all
  from assms *[of "Suc i" for i] show "row_emitted api db d (Suc k) cs vs"
    by (simp add: row_emitted_def)
qed

lemma column_loop_emit:
  assumes "mode j = JSON_MODE_STD" "row_emitted api db d k cs vs" "list_all2 value_fits cs vs"
    and "list_all (\<lambda>n. length n < 256) (col_names m cs)"
  shows "column_loop api db d nc j (nums k (length cs)) m = Inr (emit_members (row_members m cs vs) j)"
  using assms
proof (induction cs arbitrary: k j m vs)
  case Nil
  then show ?case by simp
next
  case (Cons c cs)
  from Cons.prems(3) obtain v vs' where vs: "vs = v # vs'" "value_fits c v" "list_all2 value_fits cs vs'"
    by (cases vs) auto
  obtain name m' where n: "number_column (col_name c) m = (name, m')" by force
  from Cons.prems(4) n have len: "length name < 256" "list_all (\<lambda>n. length n < 256) (col_names m' cs)"
    by simp_all
  note r = row_emitted_Cons[OF Cons.prems(2)[unfolded vs(1)]]
  from column_emit[OF Cons.prems(1) r(1-4) vs(2) n len(1)]
    Cons.IH[OF _ r(5) vs(3) len(2), of "emit_member name (value_tree c v) j"] Cons.prems(1)
  show ?case by (simp add: vs(1) n)
qed

lemma write_row_emit:
  assumes "mode j = JSON_MODE_STD" "shows_row api db d cs vs" "list_all2 value_fits cs vs"
    and "list_all (\<lambda>n. length n < 256) (col_names 0 cs)"
  shows "write_row api db d (int (length cs)) j = Inr (emit_elem (JObj (row_members 0 cs vs)) j)"
proof -
  from assms(2) have "row_emitted api db d 0 cs vs" by (simp add: shows_row_def row_emitted_def)
  from column_loop_emit[OF _ this assms(3,4), of "json_new_object j" "length cs"] assms(1)
  show ?thesis by (simp add: write_row_def colnums_nums)
qed

lemma row_loop_emit:
  "mode j = JSON_MODE_STD \<Longrightarrow> delivers_rows api db cs d vss d' \<Longrightarrow>
   list_all (list_all2 value_fits cs) vss \<Longrightarrow> list_all (\<lambda>n. length n < 256) (col_names 0 cs) \<Longrightarrow>
   row_loop api db (int (length cs)) j d =
     Some (Inr (emit_elems (map (\<lambda>vs. JObj (row_members 0 cs vs)) vss) j, d'))"
proof (induction vss arbitrary: j d)
  case Nil
  then show ?case by (subst row_loop.simps) simp
next
  case (Cons vs vss)
  then obtain d1 where d1: "api_fetch_row api db d = Inr (True, d1)" "shows_row api db d1 cs vs"
    "delivers_rows api db cs d1 vss d'" by auto
  from Cons.prems(3) have fits: "list_all2 value_fits cs vs" "list_all (list_all2 value_fits cs) vss"
    by simp_all
  from write_row_emit[OF Cons.prems(1) d1(2) fits(1) Cons.prems(4)]
    Cons.IH[OF _ d1(3) fits(2) Cons.prems(4), of "emit_elem (JObj (row_members 0 cs vs)) j"]
    Cons.prems(1) d1(1)
  show ?case by (subst row_loop.simps) simp
qed

lemma begin_set_emit:
  assumes "mode j = JSON_MODE_STD" "shows_columns api db d cs"
  shows "begin_set api db d (int (length cs)) j = Inr (json_new_array (json_add_key
    (emit_member ''fields'' (JArr (col_trees 0 cs)) (json_new_object j)) ''rows''))"
proof -
  from assms(2) have "colinfo_loop api db d j' (nums 0 (length cs)) 0 = Inr (emit_elems (col_trees 0 cs) j')" for j'
    by (intro colinfo_loop_emit) (simp add: shows_columns_def)
  with assms(1) show ?thesis by (simp add: begin_set_def Let_def colnums_nums)
qed

lemma end_set_emit:
  "mode j = JSON_MODE_STD \<Longrightarrow> api_rowcount api db d = Inr (row_count s) \<Longrightarrow>
     end_set api db d j = Inr (json_end_object (emit_member ''count'' (count_tree s) (json_end_array j)))"
  by (simp add: end_set_def count_tree_def)

lemma set_loop_emit:
  "mode j = JSON_MODE_STD \<Longrightarrow> delivers api db d ss d' \<Longrightarrow> list_all set_fits ss \<Longrightarrow>
   set_loop api db j d = Some (Inr (emit_elems (map set_tree ss) j, d'))"
proof (induction ss arbitrary: j d)
  case Nil
  then show ?case by (subst set_loop.simps) simp
next
  case (Cons s ss)
  then obtain d1 d2 where d: "api_has_results api db d = Inr (True, d1)"
    "shows_columns api db d1 (columns s)" "delivers_rows api db (columns s) d1 (rows s) d2"
    "api_rowcount api db d2 = Inr (row_count s)" "delivers api db d2 ss d'" by auto
  from Cons.prems(3) have fits: "list_all (list_all2 value_fits (columns s)) (rows s)"
    "list_all (\<lambda>n. length n < 256) (col_names 0 (columns s))" "list_all set_fits ss"
    using set_fits_def[of s] by simp_all
  define j1 where "j1 = json_new_array (json_add_key
    (emit_member ''fields'' (JArr (col_trees 0 (columns s))) (json_new_object j)) ''rows'')"
  have n: "api_numcols api db d1 = Inr (int (length (columns s)))" using d(2) by (simp add: shows_columns_def)
  have b: "begin_set api db d1 (int (length (columns s))) j = Inr j1"
    using begin_set_emit[OF Cons.prems(1) d(2)] by (simp add: j1_def)
  have m: "mode j1 = JSON_MODE_STD" using Cons.prems(1) by (simp add: j1_def)
  note rows = row_loop_emit[OF m d(3) fits(1,2)]
  let ?j2 = "emit_elems (map (\<lambda>vs. JObj (row_members 0 (columns s) vs)) (rows s)) j1"
  have e: "end_set api db d2 ?j2 = Inr (emit_elem (set_tree s) j)"
    using m by (simp add: end_set_emit[OF _ d(4)]) (simp add: j1_def set_tree_def)
  have "mode (emit_elem (set_tree s) j) = JSON_MODE_STD" using Cons.prems(1) by simp
  from Cons.IH[OF this d(5) fits(3)] show ?case
    by (subst set_loop.simps) (simp add: d(1) n b rows e)
qed

lemma fill_data_emit:
  "mode j = JSON_MODE_STD \<Longrightarrow> delivers api db d ss d' \<Longrightarrow> list_all set_fits ss \<Longrightarrow>
   dbrelay_db_fill_data api db j d =
     Some (Inr (emit_member ''data'' (JArr (map set_tree ss)) j, d'))"
  by (simp add: dbrelay_db_fill_data_def set_loop_emit)

subsection \<open>The text of a query's results\<close>

lemma emit_member_top:
  assumes "stack j = []" "\<not> pending j"
  shows "json_to_string (emit_member k (JArr vs) j) =
    json_to_string j @ key_text (prettyprint j) k @ render (prettyprint j) (tab_level j) (JArr vs)"
  using emit_ok(1)[of "JArr vs" "json_add_key j k"] assms
  by (simp add: elem_ok_def elem_prefix_def key_sep_def)

text \<open>The query is sent after the change of the database and the start of a transaction.\<close>

definition before_query :: "'d dbapi \<Rightarrow> handle \<Rightarrow> string \<Rightarrow> 64 word \<Rightarrow> 'd \<Rightarrow> 'd result" where
  "before_query api db database fl d =
     rbind (api_change_db api db database d)
       (\<lambda>(ok, d). exec_if (flag_set fl DBRELAY_FLAG_XACT) api db DBRELAY_DBCMD_BEGIN d)"

definition query_sent ::
    "'d dbapi \<Rightarrow> handle \<Rightarrow> string \<Rightarrow> string \<Rightarrow> 64 word \<Rightarrow> 'd \<Rightarrow> (bool \<times> 'd) result" where
  "query_sent api db database q fl d = rbind (before_query api db database fl d) (api_exec api db (Some q))"

lemma exec_query_sent:
  assumes "query_sent api db database q fl d = Inr (ok, d1)"
  shows "dbrelay_exec_query api db database (Some q) fl d =
    (let j = json_new;
         j = (if flag_set fl DBRELAY_FLAG_PP then json_pretty_print j True else j);
         j = (if flag_set fl DBRELAY_FLAG_EMBEDCSV then json_set_mode j JSON_MODE_CSV else j)
     in if ok then
          loop_bind (dbrelay_db_fill_data api db j d1) (\<lambda>(j, d).
          and_then (exec_if (flag_set fl DBRELAY_FLAG_XACT) api db DBRELAY_DBCMD_COMMIT d) (\<lambda>d.
            Some (Inr (Some (json_to_string j), d))))
        else
          and_then (exec_if (flag_set fl DBRELAY_FLAG_XACT) api db DBRELAY_DBCMD_ROLLBACK d1)
            (\<lambda>d. Some (Inr (None, d))))"
  using assms
  by (auto simp: query_sent_def before_query_def dbrelay_exec_query_def rbind_eq_Inr_iff Let_def)

lemma exec_query_std:
  assumes "\<not> flag_set fl DBRELAY_FLAG_EMBEDCSV"
    and "query_sent api db database q fl d = Inr (True, d1)"
    and "delivers api db d1 ss d2" "list_all set_fits ss"
    and "exec_if (flag_set fl DBRELAY_FLAG_XACT) api db DBRELAY_DBCMD_COMMIT d2 = Inr d3"
  shows "dbrelay_exec_query api db database (Some q) fl d =
    Some (Inr (Some (key_text (flag_set fl DBRELAY_FLAG_PP) ''data'' @
        render (flag_set fl DBRELAY_FLAG_PP) 0 (JArr (map set_tree ss))), d3))"
proof -
  define j where "j = (if flag_set fl DBRELAY_FLAG_PP then json_pretty_print json_new True else json_new)"
  have j: "stack j = []" "\<not> pending j" "mode j = JSON_MODE_STD" "tab_level j = 0"
    "json_to_string j = []" "prettyprint j = flag_set fl DBRELAY_FLAG_PP" by (simp_all add: j_def)
  have "dbrelay_exec_query api db database (Some q) fl d =
      loop_bind (dbrelay_db_fill_data api db j d1) (\<lambda>(j, d).
        and_then (exec_if (flag_set fl DBRELAY_FLAG_XACT) api db DBRELAY_DBCMD_COMMIT d) (\<lambda>d.
          Some (Inr (Some (json_to_string j), d))))"
    using assms(1) exec_query_sent[OF assms(2)] by (simp add: Let_def j_def)
  with emit_member_top[OF j(1,2), of "''data''" "map set_tree ss"] j assms(5) show ?thesis
    by (simp add: fill_data_emit[OF j(3) assms(3,4)] del: emit_member.simps)
qed

lemma exec_query_refused:
  assumes "query_sent api db database q fl d = Inr (False, d1)"
    and "exec_if (flag_set fl DBRELAY_FLAG_XACT) api db DBRELAY_DBCMD_ROLLBACK d1 = Inr d2"
  shows "dbrelay_exec_query api db database (Some q) fl d = Some (Inr (None, d2))"
  using exec_query_sent[OF assms(1)] assms(2) by (simp add: Let_def)

subsection \<open>What the database sees\<close>

text \<open>The same driver with a log of the statements it was asked to execute.\<close>

definition keep_log :: "'l \<Rightarrow> ('a \<times> 'd) result \<Rightarrow> ('a \<times> 'd \<times> 'l) result" where
  "keep_log l r = rbind r (\<lambda>(x, d). Inr (x, d, l))"

definition logged :: "'d dbapi \<Rightarrow> ('d \<times> string option list) dbapi" where
  "logged api = \<lparr>
     api_connected = (\<lambda>db d. api_connected api db (fst d)),
     api_change_db = (\<lambda>db n d. keep_log (snd d) (api_change_db api db n (fst d))),
     api_exec = (\<lambda>db q d. keep_log (snd d @ [q]) (api_exec api db q (fst d))),
     api_rowcount = (\<lambda>db d. api_rowcount api db (fst d)),
     api_has_results = (\<lambda>db d. keep_log (snd d) (api_has_results api db (fst d))),
     api_numcols = (\<lambda>db d. api_numcols api db (fst d)),
     api_colname = (\<lambda>db i d. api_colname api db i (fst d)),
     api_coltype = (\<lambda>db i d. api_coltype api db i (fst d)),
     api_collen = (\<lambda>db i d. api_collen api db i (fst d)),
     api_colprec = (\<lambda>db i d. api_colprec api db i (fst d)),
     api_colscale = (\<lambda>db i d. api_colscale api db i (fst d)),
     api_fetch_row = (\<lambda>db d. keep_log (snd d) (api_fetch_row api db (fst d))),
     api_colvalue = (\<lambda>db i d. api_colvalue api db i (fst d)),
     api_is_quoted = (\<lambda>db i d. api_is_quoted api db i (fst d)),
     api_error = (\<lambda>db d. api_error api db (fst d)),
     api_catalogsql = api_catalogsql api,
     api_isalive = (\<lambda>db d. api_isalive api db (fst d)),
     api_connect = (\<lambda>r d. keep_log (snd d) (api_connect api r (fst d))),
     api_assign_request = (\<lambda>db r d. rbind (api_assign_request api db r (fst d)) (\<lambda>d'. Inr (d', snd d))),
     api_close = (\<lambda>db d. rbind (api_close api db (fst d)) (\<lambda>d'. Inr (d', snd d)))\<rparr>"

lemma logged_shows:
  "shows_columns (logged api) db (d, l) cs = shows_columns api db d cs"
  "shows_row (logged api) db (d, l) cs vs = shows_row api db d cs vs"
  by (simp_all add: shows_columns_def shows_row_def logged_def)

lemma logged_delivers_rows:
  "delivers_rows api db cs d vss d' \<Longrightarrow> delivers_rows (logged api) db cs (d, l) vss (d', l)"
  by (induction vss arbitrary: d) (auto simp: logged_shows, auto simp: logged_def keep_log_def)

lemma logged_delivers:
  "delivers api db d ss d' \<Longrightarrow> delivers (logged api) db (d, l) ss (d', l)"
proof (induction ss arbitrary: d)
  case Nil
  then show ?case by (simp add: logged_def keep_log_def)
next
  case (Cons s ss)
  then obtain d1 d2 where d: "api_has_results api db d = Inr (True, d1)"
    "shows_columns api db d1 (columns s)" "delivers_rows api db (columns s) d1 (rows s) d2"
    "api_rowcount api db d2 = Inr (row_count s)" "delivers api db d2 ss d'" by auto
  from d(1,4) have "api_has_results (logged api) db (d, l) = Inr (True, (d1, l))"
    "api_rowcount (logged api) db (d2, l) = Inr (row_count s)" by (simp_all add: logged_def keep_log_def)
  with Cons.IH[OF d(5)] d(2) logged_delivers_rows[OF d(3), of l] show ?case
    by (auto simp: logged_shows intro!: exI[of _ d1] exI[of _ d2] exI[of _ l])
qed

lemma logged_change_db: "api_change_db (logged api) db n (d, l) = keep_log l (api_change_db api db n d)"
  and logged_exec: "api_exec (logged api) db q (d, l) = keep_log (l @ [q]) (api_exec api db q d)"
  and logged_catalogsql: "api_catalogsql (logged api) = api_catalogsql api"
  by (simp_all add: logged_def)

text \<open>The statements that a successful call adds to the log.\<close>

lemma logged_exec_if:
  assumes "exec_if x api db c d = Inr d'" "api_catalogsql api c [] = Inr q"
  shows "exec_if x (logged api) db c (d, l) = Inr (d', l @ (if x then [q] else []))"
  using assms
  by (auto simp: exec_if_def logged_exec logged_catalogsql keep_log_def rbind_eq_Inr_iff split: if_splits)

lemma logged_sent:
  assumes "query_sent api db database q fl d = Inr (ok, d')" "flag_set fl DBRELAY_FLAG_XACT"
    and "api_catalogsql api DBRELAY_DBCMD_BEGIN [] = Inr b"
  shows "query_sent (logged api) db database q fl (d, l) = Inr (ok, d', l @ [b, Some q])"
proof -
  from assms(1,2) obtain ok0 d0 d1 where d: "api_change_db api db database d = Inr (ok0, d0)"
    "exec_if True api db DBRELAY_DBCMD_BEGIN d0 = Inr d1" "api_exec api db (Some q) d1 = Inr (ok, d')"
    by (auto simp: query_sent_def before_query_def rbind_eq_Inr_iff)
  show ?thesis
    using d(1,3) assms(2) logged_exec_if[OF d(2) assms(3), of l]
    by (simp add: query_sent_def before_query_def logged_change_db logged_exec keep_log_def)
qed

subsection \<open>A driver in memory, to run the samples with\<close>

type_synonym memory_db = "result_set list \<times> result_set \<times> string option list"

definition no_set :: result_set where
  "no_set = \<lparr>columns = [], rows = [], row_count = - 1\<rparr>"

definition memory_column :: "memory_db \<Rightarrow> nat \<Rightarrow> column" where
  "memory_column d i = columns (fst (snd d)) ! (i - 1)"

definition memory_api :: "memory_db dbapi" where
  "memory_api = \<lparr>
     api_connected = (\<lambda>db d. Inr (db \<noteq> None)),
     api_change_db = (\<lambda>db n d. Inr (True, d)),
     api_exec = (\<lambda>db q d. Inr (q \<noteq> Some ''bad'', d)),
     api_rowcount = (\<lambda>db d. Inr (row_count (fst (snd d)))),
     api_has_results = (\<lambda>db d. case d of ([], cur) \<Rightarrow> Inr (False, ([], cur))
                                     | (s # ss, cur) \<Rightarrow> Inr (True, (ss, s, []))),
     api_numcols = (\<lambda>db d. Inr (int (length (columns (fst (snd d)))))),
     api_colname = (\<lambda>db i d. Inr (col_name (memory_column d i))),
     api_coltype = (\<lambda>db i d. Inr (col_type (memory_column d i))),
     api_collen = (\<lambda>db i d. Inr (col_len (memory_column d i))),
     api_colprec = (\<lambda>db i d. Inr (col_prec (memory_column d i))),
     api_colscale = (\<lambda>db i d. Inr (col_scale (memory_column d i))),
     api_fetch_row = (\<lambda>db d. case d of (ss, s, v) \<Rightarrow>
        (case rows s of [] \<Rightarrow> Inr (False, d) | vs # vss \<Rightarrow> Inr (True, (ss, s\<lparr>rows := vss\<rparr>, vs)))),
     api_colvalue = (\<lambda>db i d. Inr (snd (snd d) ! (i - 1))),
     api_is_quoted = (\<lambda>db i d. Inr (col_quoted (memory_column d i))),
     api_error = (\<lambda>db d. Inr ''refused''),
     api_catalogsql = (\<lambda>c ps. Inr (if c = 3 then Some ''begin'' else if c = 4 then Some ''commit''
        else if c = 5 then Some ''rollback'' else None)),
     api_isalive = (\<lambda>db d. Inr True),
     api_connect = (\<lambda>r d. Inr (Some 1, d)),
     api_assign_request = (\<lambda>db r d. Inr d),
     api_close = (\<lambda>db d. Inr d)\<rparr>"

definition sample_set :: result_set where
  "sample_set = \<lparr>columns = [\<lparr>col_name = None, col_type = ''int'', col_len = 4, col_prec = 0,
       col_scale = 0, col_quoted = False\<rparr>,
     \<lparr>col_name = Some ''n'', col_type = ''varchar'', col_len = 20, col_prec = 0, col_scale = 0,
       col_quoted = True\<rparr>],
     rows = [[Some ''1'', Some [DQ]], [None, Some ''b'']], row_count = 2\<rparr>"

lemma sample_delivers:
  "delivers memory_api db ([sample_set], no_set, []) [sample_set]
     ([], sample_set\<lparr>rows := []\<rparr>, [None, Some ''b''])"
  by (simp add: memory_api_def sample_set_def shows_columns_def shows_row_def memory_column_def
      less_Suc_eq)

lemma sample_fits: "set_fits sample_set"
  by (simp add: set_fits_def sample_set_def number_column_def dbrelay_is_unnamed_column_def
      value_fits_def show_int_def show_nat.simps Let_def)

subsection \<open>Properties\<close>

text \<open>A query that the database accepts is answered with the tree of all its result sets, in order:
  the columns with their types and sizes, every row with its values, quoted where the type asks
  for it and null where there is none, and the count. The loops end when the driver ends them.
\<close>

theorem exec_query_results:
  assumes "\<not> flag_set fl DBRELAY_FLAG_EMBEDCSV" "query_sent api db database q fl d = Inr (True, d1)"
    and "delivers api db d1 ss d2" "list_all set_fits ss"
    and "exec_if (flag_set fl DBRELAY_FLAG_XACT) api db DBRELAY_DBCMD_COMMIT d2 = Inr d3"
  shows "dbrelay_exec_query api db database (Some q) fl d =
    Some (Inr (Some (key_text (flag_set fl DBRELAY_FLAG_PP) ''data'' @
        render (flag_set fl DBRELAY_FLAG_PP) 0 (JArr (map set_tree ss))), d3))"
  by (rule exec_query_std[OF assms])

theorem exec_query_results_witness:
  "\<exists>d'. dbrelay_exec_query memory_api (Some 1) ''db'' (Some ''select'') 0 ([sample_set], no_set, []) =
     Some (Inr (Some (key_text False ''data'' @ render False 0 (JArr [set_tree sample_set])), d'))"
proof -
  have fl: "\<not> flag_set 0 f" for f by (simp add: flag_set_def)
  have "query_sent memory_api (Some 1) ''db'' ''select'' 0 ([sample_set], no_set, []) =
      Inr (True, ([sample_set], no_set, []))"
    by (simp add: query_sent_def before_query_def exec_if_def fl) (simp add: memory_api_def)
  from exec_query_results[OF fl this sample_delivers, unfolded exec_if_def if_not_P[OF fl]] sample_fits fl
  show ?thesis by (simp del: render.simps)
qed



end
