(* ===== verification/Connector.thy ===== *)
theory Connector
  imports Socket Result
begin

section \<open>The connector process (src/connector.c)\<close>

text \<open>
  A connector keeps one database connection open and serves the workers that share it, one
  client after the other, in lines. Its globals are a record; what it does to the outside is a
  list of events. \<open>garb_arg\<close> and \<open>garb_flag\<close> are the contents of the uninitialised arrays
  \<^verbatim>\<open>arg\<close> and \<^verbatim>\<open>flag_str\<close> on the stack of \<^verbatim>\<open>process_line\<close>.
\<close>

datatype line_ret = OK | QUIT | ERR | DIE | RUN | CONT | HELO

record 'd connector =
  c_request :: dbrelay_request
  timeout_str :: string
  receive_sql :: bool
  sb_sql :: "stringbuf option"
  conn_db :: handle
  conn_connected :: bool
  dbstate :: 'd

datatype conn_event = Reply string | Set_Timer int | Close_Client

subsection \<open>Commands\<close>

definition check_command :: "string \<Rightarrow> string \<Rightarrow> bool" where
  "check_command line command \<longleftrightarrow>
     length command + 1 \<le> length line \<and> strncmp_eq (drop 1 line) command (length command)"

text \<open>What a matching \<open>check_command\<close> leaves in its destination of size \<open>maxsz\<close>.\<close>

definition command_arg :: "string \<Rightarrow> string \<Rightarrow> nat \<Rightarrow> string \<Rightarrow> string" where
  "command_arg line command maxsz dest =
     (if length command + 1 < length line
      then dbrelay_copy_string (drop (length command + 2) line) maxsz
      else dest)"

text \<open>Overwriting the trailing newline.\<close>

definition chop_newline :: "string \<Rightarrow> string" where
  "chop_newline line = (if last line = NL then butlast line else line)"

text \<open>
  Reading the byte before an empty line is out of bounds. The collected SQL text is used after
  \<^verbatim>\<open>SQL END\<close> freed it, or before \<^verbatim>\<open>SQL BEGIN\<close> made it, when no text is open: both are
  a dereference of a pointer that is not valid.
\<close>

definition process_line ::
    "string \<Rightarrow> string \<Rightarrow> string \<Rightarrow> 'd connector \<Rightarrow> (line_ret \<times> 'd connector) result" where
  "process_line garb_arg garb_flag line st =
     (if receive_sql st \<and> (length line < 8 \<or> \<not> strncmp_eq line '':SQL END'' 8) then
        (case sb_sql st of
           None \<Rightarrow> Inl Null_Deref
         | Some b \<Rightarrow> Inr (CONT, st\<lparr>sb_sql := Some (sb_append b line)\<rparr>))
      else if line = [] then Inl Out_Of_Bounds
      else
        (let len = length line;
             line = chop_newline line;
             r = c_request st
         in
         if len < 1 \<or> take 1 line \<noteq> '':'' then Inr (ERR, st)
         else if check_command line ''HELO'' then Inr (HELO, st)
         else if check_command line ''QUIT'' then Inr (QUIT, st)
         else if check_command line ''RUN'' then Inr (RUN, st)
         else if check_command line ''DIE'' then Inr (DIE, st)
         else if check_command line ''SET NAME'' then
           Inr (OK, st\<lparr>c_request := r\<lparr>connection_name :=
             command_arg line ''SET NAME'' DBRELAY_NAME_SZ (connection_name r)\<rparr>\<rparr>)
         else if check_command line ''SET PORT'' then
           Inr (OK, st\<lparr>c_request := r\<lparr>sql_port := command_arg line ''SET PORT'' 6 (sql_port r)\<rparr>\<rparr>)
         else if check_command line ''SET SERVER'' then
           Inr (OK, st\<lparr>c_request := r\<lparr>sql_server :=
             command_arg line ''SET SERVER'' DBRELAY_NAME_SZ (sql_server r)\<rparr>\<rparr>)
         else if check_command line ''SET DATABASE'' then
           Inr (OK, st\<lparr>c_request := r\<lparr>sql_database :=
             command_arg line ''SET DATABASE'' DBRELAY_OBJ_SZ (sql_database r)\<rparr>\<rparr>)
         else if check_command line ''SET USER'' then
           Inr (OK, st\<lparr>c_request := r\<lparr>sql_user :=
             command_arg line ''SET USER'' DBRELAY_OBJ_SZ (sql_user r)\<rparr>\<rparr>)
         else if check_command line ''SET PASSWORD'' then
           Inr (OK, st\<lparr>c_request := r\<lparr>sql_password :=
             command_arg line ''SET PASSWORD'' DBRELAY_OBJ_SZ (sql_password r)\<rparr>\<rparr>)
         else if check_command line ''SET APPNAME'' then
           Inr (OK, st\<lparr>c_request := r\<lparr>connection_name :=
             command_arg line ''SET APPNAME'' DBRELAY_NAME_SZ (connection_name r)\<rparr>\<rparr>)
         else if check_command line ''SET TIMEOUT'' then
           (let t = command_arg line ''SET TIMEOUT'' 10 (timeout_str st)
            in Inr (OK, st\<lparr>timeout_str := t, c_request := r\<lparr>connection_timeout := atol t\<rparr>\<rparr>))
         else if check_command line ''SET FLAGS'' then
           Inr (OK, st\<lparr>c_request := r\<lparr>flags :=
             word_of_int (atol (command_arg line ''SET FLAGS'' 10 garb_flag))\<rparr>\<rparr>)
         else if check_command line ''SQL'' then
           (let arg = command_arg line ''SQL'' 100 garb_arg in
            if arg = ''BEGIN'' then
              Inr (CONT, st\<lparr>receive_sql := True, sb_sql := Some (sb_new None),
                c_request := r\<lparr>sql := None\<rparr>\<rparr>)
            else if arg = ''END'' then
              (case sb_sql st of
                 None \<Rightarrow> Inl Null_Deref
               | Some b \<Rightarrow>
                   Inr (OK, st\<lparr>receive_sql := False, sb_sql := None,
                     c_request := r\<lparr>sql := Some (sb_to_char b)\<rparr>\<rparr>))
            else Inr (ERR, st))
         else Inr (ERR, st)))"

subsection \<open>Serving a client\<close>

text \<open>What the main loop does after a line: the next line, the next client, or the end.\<close>

datatype next_turn = Next_Line | Next_Client | Exit_Process

text \<open>
  The database connection is made by the first \<^verbatim>\<open>RUN\<close>; when it cannot be made, the process
  ends after reporting the error. A driver that faults ends it too; what was already sent for the
  line is then not followed.
\<close>

definition connect_once :: "'d dbapi \<Rightarrow> 'd connector \<Rightarrow> 'd connector result" where
  "connect_once api st =
     (if conn_connected st then Inr st
      else rbind (api_connect api (c_request st) (dbstate st)) (\<lambda>(h, d).
        Inr (st\<lparr>conn_db := h, conn_connected := True, dbstate := d\<rparr>)))"

definition timer_unless0 :: "dbrelay_request \<Rightarrow> int \<Rightarrow> conn_event list" where
  "timer_unless0 r secs = (if connection_timeout r \<noteq> 0 then [Set_Timer secs] else [])"

definition error_reply :: "string \<Rightarrow> conn_event list" where
  "error_reply err = [Reply ('':ERROR BEGIN'' @ [NL]), Reply err, Reply [NL],
     Reply ('':ERROR END'' @ [NL])]"

definition results_reply :: "string \<Rightarrow> conn_event list" where
  "results_reply txt = [Reply ('':RESULTS BEGIN'' @ [NL]), Reply txt, Reply [NL],
     Reply ('':RESULTS END'' @ [NL])]"

definition query_reply :: "'d dbapi \<Rightarrow> handle \<Rightarrow> string option \<Rightarrow> 'd \<Rightarrow> conn_event list result" where
  "query_reply api h results d =
     (case results of
        None \<Rightarrow> rbind (api_error api h d) (\<lambda>err. Inr (error_reply err))
      | Some txt \<Rightarrow> Inr (results_reply txt))"

definition run_command ::
    "'d dbapi \<Rightarrow> 'd connector \<Rightarrow> (next_turn \<times> 'd connector \<times> conn_event list) result option" where
  "run_command api st =
     (let st = st\<lparr>c_request := (c_request st)\<lparr>error_message := []\<rparr>\<rparr>;
          fresh = \<not> conn_connected st
      in and_then (connect_once api st) (\<lambda>st.
           let r = c_request st in
           if fresh \<and> conn_db st = None then
             and_then (api_error api None (dbstate st)) (\<lambda>err.
               Some (Inr (Exit_Process, st, error_reply err @ [Reply ('':OK'' @ [NL])])))
           else
             loop_bind (dbrelay_exec_query api (conn_db st) (sql_database r) (sql r) (flags r) (dbstate st))
               (\<lambda>(results, d).
                 let st = st\<lparr>dbstate := d\<rparr> in
                 and_then (query_reply api (conn_db st) results d) (\<lambda>reply.
                   Some (Inr (Next_Line, st,
                     timer_unless0 r DBRELAY_HARD_TIMEOUT @ reply @ [Reply ('':OK'' @ [NL])] @
                     timer_unless0 r (connection_timeout r)))))))"

definition handle_line ::
    "'d dbapi \<Rightarrow> nat \<Rightarrow> string \<Rightarrow> string \<Rightarrow> string \<Rightarrow> 'd connector \<Rightarrow>
     (next_turn \<times> 'd connector \<times> conn_event list) result option" where
  "handle_line api self garb_arg garb_flag line st =
     and_then (process_line garb_arg garb_flag line st) (\<lambda>(ret, st).
       case ret of
         HELO \<Rightarrow> Some (Inr (Next_Line, st, [Reply ('':PID '' @ show_nat self @ [NL])]))
       | QUIT \<Rightarrow> Some (Inr (Next_Client, st, [Reply ('':BYE'' @ [NL]), Close_Client]))
       | RUN \<Rightarrow> run_command api st
       | DIE \<Rightarrow> Some (Inr (Exit_Process, st, [Reply ('':BYE'' @ [NL]), Close_Client]))
       | OK \<Rightarrow> Some (Inr (Next_Line, st, Reply ('':OK'' @ [NL]) #
                 timer_unless0 (c_request st) (connection_timeout (c_request st))))
       | CONT \<Rightarrow> Some (Inr (Next_Line, st, []))
       | ERR \<Rightarrow> Some (Inr (Next_Line, st, [Reply ('':ERR'' @ [NL])])))"

text \<open>After a client has gone.\<close>

definition end_client :: "'d dbapi \<Rightarrow> 'd connector \<Rightarrow> 'd connector result" where
  "end_client api st =
     rbind (api_isalive api (conn_db st) (dbstate st)) (\<lambda>alive.
       Inr (st\<lparr>receive_sql := False, conn_connected := (alive \<and> conn_connected st)\<rparr>))"

text \<open>The lines of one client, up to the one that ends its turn.\<close>

fun serve_lines ::
    "'d dbapi \<Rightarrow> nat \<Rightarrow> string \<Rightarrow> string \<Rightarrow> string list \<Rightarrow> 'd connector \<Rightarrow>
     (next_turn \<times> 'd connector \<times> conn_event list) result option" where
  "serve_lines api self ga gf [] st = Some (Inr (Next_Line, st, []))"
| "serve_lines api self ga gf (l # ls) st =
     loop_bind (handle_line api self ga gf l st) (\<lambda>(nxt, st, evs).
       if nxt = Next_Line then
         loop_bind (serve_lines api self ga gf ls st) (\<lambda>(nxt, st, evs').
           Some (Inr (nxt, st, evs @ evs')))
       else Some (Inr (nxt, st, evs)))"

subsection \<open>What each command does\<close>

lemma chop_newline_NL [simp]: "chop_newline (l @ [NL]) = l"
  by (simp add: chop_newline_def)

lemmas command_defs = check_command_def strncmp_eq_def command_arg_def

lemma process_set_server:
  "\<not> receive_sql st \<Longrightarrow> process_line ga gf (('':SET SERVER '' @ v) @ [NL]) st =
     Inr (OK, st\<lparr>c_request := (c_request st)\<lparr>sql_server := dbrelay_copy_string v DBRELAY_NAME_SZ\<rparr>\<rparr>)"
  unfolding process_line_def Let_def chop_newline_NL by (simp add: command_defs)

lemma process_set_database:
  "\<not> receive_sql st \<Longrightarrow> process_line ga gf (('':SET DATABASE '' @ v) @ [NL]) st =
     Inr (OK, st\<lparr>c_request := (c_request st)\<lparr>sql_database := dbrelay_copy_string v DBRELAY_OBJ_SZ\<rparr>\<rparr>)"
  unfolding process_line_def Let_def chop_newline_NL by (simp add: command_defs)

lemma process_set_user:
  "\<not> receive_sql st \<Longrightarrow> process_line ga gf (('':SET USER '' @ v) @ [NL]) st =
     Inr (OK, st\<lparr>c_request := (c_request st)\<lparr>sql_user := dbrelay_copy_string v DBRELAY_OBJ_SZ\<rparr>\<rparr>)"
  unfolding process_line_def Let_def chop_newline_NL by (simp add: command_defs)

lemma process_set_password:
  "\<not> receive_sql st \<Longrightarrow> process_line ga gf (('':SET PASSWORD '' @ v) @ [NL]) st =
     Inr (OK, st\<lparr>c_request := (c_request st)\<lparr>sql_password := dbrelay_copy_string v DBRELAY_OBJ_SZ\<rparr>\<rparr>)"
  unfolding process_line_def Let_def chop_newline_NL by (simp add: command_defs)

lemma process_set_appname:
  "\<not> receive_sql st \<Longrightarrow> process_line ga gf (('':SET APPNAME '' @ v) @ [NL]) st =
     Inr (OK, st\<lparr>c_request := (c_request st)\<lparr>connection_name := dbrelay_copy_string v DBRELAY_NAME_SZ\<rparr>\<rparr>)"
  unfolding process_line_def Let_def chop_newline_NL by (simp add: command_defs)

lemma process_set_timeout:
  "\<not> receive_sql st \<Longrightarrow> process_line ga gf (('':SET TIMEOUT '' @ v) @ [NL]) st =
     Inr (OK, st\<lparr>timeout_str := dbrelay_copy_string v 10,
       c_request := (c_request st)\<lparr>connection_timeout := atol (dbrelay_copy_string v 10)\<rparr>\<rparr>)"
  unfolding process_line_def Let_def chop_newline_NL by (simp add: command_defs)

lemma process_set_flags:
  "\<not> receive_sql st \<Longrightarrow> process_line ga gf (('':SET FLAGS '' @ v) @ [NL]) st =
     Inr (OK, st\<lparr>c_request := (c_request st)
       \<lparr>flags := word_of_int (atol (dbrelay_copy_string v 10))\<rparr>\<rparr>)"
  unfolding process_line_def Let_def chop_newline_NL by (simp add: command_defs)

lemma process_sql_begin:
  "\<not> receive_sql st \<Longrightarrow> process_line ga gf ('':SQL BEGIN'' @ [NL]) st =
     Inr (CONT, st\<lparr>receive_sql := True, sb_sql := Some (sb_new None),
       c_request := (c_request st)\<lparr>sql := None\<rparr>\<rparr>)"
  unfolding process_line_def Let_def chop_newline_NL
  by (simp add: command_defs dbrelay_copy_string_def)

text \<open>A line of the text of a query, unless it looks like the end of the text.\<close>

definition ends_sql :: "string \<Rightarrow> bool" where
  "ends_sql l \<longleftrightarrow> 8 \<le> length l \<and> strncmp_eq l '':SQL END'' 8"

lemma process_sql_text:
  "receive_sql st \<Longrightarrow> sb_sql st = Some b \<Longrightarrow> \<not> ends_sql l \<Longrightarrow>
     process_line ga gf l st = Inr (CONT, st\<lparr>sb_sql := Some (sb_append b l)\<rparr>)"
  by (auto simp: process_line_def ends_sql_def)

lemma process_sql_end:
  "receive_sql st \<Longrightarrow> sb_sql st = Some b \<Longrightarrow>
     process_line ga gf ('':SQL END'' @ [NL]) st =
       Inr (OK, st\<lparr>receive_sql := False, sb_sql := None,
         c_request := (c_request st)\<lparr>sql := Some (sb_to_char b)\<rparr>\<rparr>)"
  unfolding process_line_def Let_def chop_newline_NL
  by (simp add: command_defs dbrelay_copy_string_def)

lemma process_run:
  "\<not> receive_sql st \<Longrightarrow> process_line ga gf ('':RUN'' @ [NL]) st = Inr (RUN, st)"
  unfolding process_line_def Let_def chop_newline_NL by (simp add: command_defs)

lemma process_helo:
  "\<not> receive_sql st \<Longrightarrow> process_line ga gf ('':HELO'' @ [NL]) st = Inr (HELO, st)"
  unfolding process_line_def Let_def chop_newline_NL by (simp add: command_defs)

lemma process_quit:
  "\<not> receive_sql st \<Longrightarrow> process_line ga gf ('':QUIT'' @ [NL]) st = Inr (QUIT, st)"
  unfolding process_line_def Let_def chop_newline_NL by (simp add: command_defs)

lemma process_die:
  "\<not> receive_sql st \<Longrightarrow> process_line ga gf ('':DIE'' @ [NL]) st = Inr (DIE, st)"
  unfolding process_line_def Let_def chop_newline_NL by (simp add: command_defs)

end
