(* ===== verification/Session.thy ===== *)
theory Session
  imports Client Connector
begin

section \<open>A worker and its connector (src/client.c with src/connector.c)\<close>

text \<open>
  The client of theory \<open>Client\<close> with the process of theory \<open>Connector\<close> at the other end of
  the socket. The connector answers every complete line it has received; the bytes of an
  incomplete one wait in \<open>unread\<close>, and \<open>inbox\<close> holds what the client has not received yet.
  How the kernel cuts these bytes into the results of \<^verbatim>\<open>recv\<close> is the parameter \<open>frag\<close>.
\<close>

record 'd session =
  serving :: "'d connector"
  ended :: bool
  unread :: string
  inbox :: string

record 'd peer =
  peer_api :: "'d dbapi"
  peer_pid :: nat
  peer_arg :: string
  peer_flag :: string

fun replies :: "conn_event list \<Rightarrow> string" where
  "replies [] = []"
| "replies (Reply s # evs) = s @ replies evs"
| "replies (Set_Timer n # evs) = replies evs"
| "replies (Close_Client # evs) = replies evs"

lemma replies_append [simp]: "replies (a @ b) = replies a @ replies b"
  by (induction a rule: replies.induct) simp_all

lemma replies_timer [simp]: "replies (timer_unless0 r n) = []"
  by (simp add: timer_unless0_def)

definition peer_line ::
    "'d peer \<Rightarrow> string \<Rightarrow> 'd connector \<Rightarrow> (next_turn \<times> 'd connector \<times> conn_event list) result option" where
  "peer_line p l c = handle_line (peer_api p) (peer_pid p) (peer_arg p) (peer_flag p) l c"

text \<open>The piece that one call of \<open>dbrelay_socket_recv_string\<close> returns.\<close>

definition next_piece :: "string \<Rightarrow> (string \<times> string) option" where
  "next_piece s = piece (DBRELAY_SOCKET_BUFSIZE - 1) s"

lemma piece_shorter: "next_piece buf = Some (l, r) \<Longrightarrow> length r < length buf"
  by (auto dest!: piece_split simp: next_piece_def size_defs)

text \<open>
  What the connector does with a line. When it crashes, its end of the socket is closed by the
  system; a driver that never ends keeps the client waiting.
\<close>

definition peer_takes :: "'d peer \<Rightarrow> string \<Rightarrow> 'd session \<Rightarrow> 'd session option" where
  "peer_takes p l s =
     (case peer_line p l (serving s) of
        None \<Rightarrow> None
      | Some (Inl e) \<Rightarrow> Some (s\<lparr>ended := True\<rparr>)
      | Some (Inr (nxt, c, evs)) \<Rightarrow>
          Some (s\<lparr>serving := c, inbox := inbox s @ replies evs, ended := (nxt \<noteq> Next_Line)\<rparr>))"

function serve_bytes :: "'d peer \<Rightarrow> string \<Rightarrow> 'd session \<Rightarrow> 'd session option" where
  "serve_bytes p buf s =
     (case next_piece buf of
        None \<Rightarrow> Some (s\<lparr>unread := buf\<rparr>)
      | Some (l, r) \<Rightarrow>
          if ended s then Some (s\<lparr>unread := buf\<rparr>)
          else Option.bind (peer_takes p l s) (serve_bytes p r))"
  by pat_completeness auto
termination
  by (relation "measure (\<lambda>(p, buf, s). length buf)") (auto dest: piece_shorter)

declare serve_bytes.simps [simp del]

definition session_send :: "'d peer \<Rightarrow> string \<Rightarrow> 'd session \<Rightarrow> (int \<times> 'd session) option" where
  "session_send p str s =
     (if ended s then Some (- 1, s)
      else map_option (\<lambda>s. (0, s)) (serve_bytes p (unread s @ str) s))"

definition session_recv ::
    "(string \<Rightarrow> string list) \<Rightarrow> recv_state \<Rightarrow> 'd session \<Rightarrow>
     (int \<times> string \<times> recv_state \<times> 'd session) option" where
  "session_recv frag st s =
     map_option (\<lambda>(ret, out, st, evs). (ret, out, st, s\<lparr>inbox := stream evs\<rparr>))
       (dbrelay_socket_recv_string
         (map Bytes (frag (inbox s)) @ (if ended s then [Closed] else [])) st)"

definition session_channel :: "'d peer \<Rightarrow> (string \<Rightarrow> string list) \<Rightarrow> 'd session channel" where
  "session_channel p frag = \<lparr>ch_send = session_send p, ch_recv = session_recv frag\<rparr>"

definition frag_ok :: "(string \<Rightarrow> string list) \<Rightarrow> bool" where
  "frag_ok frag \<longleftrightarrow> (\<forall>s. concat (frag s) = s \<and>
     (\<forall>b\<in>set (frag s). b \<noteq> [] \<and> length b < DBRELAY_SOCKET_BUFSIZE))"

lemma channel_simps [simp]:
  "ch_send (session_channel p frag) = session_send p"
  "ch_recv (session_channel p frag) = session_recv frag"
  by (simp_all add: session_channel_def)

subsection \<open>The channel delivers lines\<close>

lemma stream_Bytes [simp]: "stream (map Bytes bs @ evs) = concat bs @ stream evs"
  by (induction bs) simp_all

lemma stream_c_string: "list_all bytes_ok evs \<Longrightarrow> c_string (stream evs)"
  by (induction evs rule: stream.induct) auto

lemma session_recv_piece:
  assumes "frag_ok frag" "recv_ok st" "c_string (inbox s)"
    and "next_piece (pending_in st @ inbox s) = Some (a, r)"
  obtains st' rest where "session_recv frag st s = Some (1, a, st', s\<lparr>inbox := rest\<rparr>)"
    "recv_ok st'" "pending_in st' @ rest = r" "c_string rest"
proof -
  let ?evs = "map Bytes (frag (inbox s)) @ (if ended s then [Closed] else [])"
  have frag: "concat (frag (inbox s)) = inbox s"
    "\<And>b. b \<in> set (frag (inbox s)) \<Longrightarrow> b \<noteq> [] \<and> length b < DBRELAY_SOCKET_BUFSIZE"
    using assms(1) by (auto simp: frag_ok_def)
  have "c_string b" if "b \<in> set (frag (inbox s))" for b
    using that assms(3) frag(1) unfolding c_string_def by (metis UN_I set_concat)
  with frag(2) have ok: "list_all bytes_ok ?evs" by (auto simp: list_all_iff)
  have str: "stream ?evs = inbox s" by (simp add: frag(1))
  from recv_string_Some[OF assms(2) ok] assms(4)[unfolded next_piece_def] str obtain st' evs' where
    "dbrelay_socket_recv_string ?evs st = Some (1, a, st', evs')" "recv_ok st'"
    "list_all bytes_ok evs'" "pending_in st' @ stream evs' = r" by metis
  with that[of st' "stream evs'"] show thesis by (simp add: session_recv_def stream_c_string)
qed

text \<open>Feeding the bytes in two parts is feeding them at once.\<close>

lemma serve_bytes_unread: "serve_bytes p buf (s\<lparr>unread := u\<rparr>) = serve_bytes p buf s"
proof (induction p buf s arbitrary: u rule: serve_bytes.induct)
  case (1 p buf s)
  show ?case
  proof (cases "next_piece buf")
    case None
    then show ?thesis by (simp add: serve_bytes.simps[of p buf])
  next
    case (Some lr)
    then obtain l r where lr: "next_piece buf = Some (l, r)" by (cases lr) auto
    have "peer_takes p l (s\<lparr>unread := u\<rparr>) = map_option (\<lambda>s. s\<lparr>unread := u\<rparr>) (peer_takes p l s)"
      by (simp add: peer_takes_def split: option.split sum.split)
    then show ?thesis
      using 1[OF lr refl] lr
      by (cases "ended s"; cases "peer_takes p l s") (simp_all add: serve_bytes.simps[of p buf])
  qed
qed

lemma next_piece_append: "next_piece a = Some (l, r) \<Longrightarrow> next_piece (a @ b) = Some (l, r @ b)"
  unfolding next_piece_def by (rule piece_append)

lemma serve_bytes_append:
  "serve_bytes p (a @ b) s = Option.bind (serve_bytes p a s) (\<lambda>s'. serve_bytes p (unread s' @ b) s')"
proof (induction p a s rule: serve_bytes.induct)
  case (1 p a s)
  show ?case
  proof (cases "next_piece a")
    case None
    then show ?thesis by (simp add: serve_bytes.simps[of p a] serve_bytes_unread)
  next
    case (Some lr)
    then obtain l r where lr: "next_piece a = Some (l, r)" by (cases lr) auto
    note ab = next_piece_append[OF lr, of b]
    show ?thesis
    proof (cases "ended s")
      case True
      then show ?thesis using lr ab
        by (simp add: serve_bytes.simps[of p a] serve_bytes.simps[of p "a @ b"])
    next
      case False
      then show ?thesis
        using lr ab 1[OF lr refl False]
        by (cases "peer_takes p l s") (simp_all add: serve_bytes.simps[of p a] serve_bytes.simps[of p "a @ b"])
    qed
  qed
qed

subsection \<open>One line at a time\<close>

text \<open>A session between two commands: nothing half sent, nothing unread.\<close>

definition idle :: "'d connector \<Rightarrow> 'd session" where
  "idle c = \<lparr>serving = c, ended = False, unread = [], inbox = []\<rparr>"

lemma idle_simps [simp]:
  "serving (idle c) = c" "\<not> ended (idle c)" "unread (idle c) = []" "inbox (idle c) = []"
  by (simp_all add: idle_def)

lemma next_piece_line: "line_ok l \<Longrightarrow> next_piece (l @ NL # r) = Some (l @ [NL], r)"
  by (simp add: next_piece_def line_ok_def piece_line)

lemma next_piece_None: "next_piece s = None \<longleftrightarrow> NL \<notin> set s \<and> length s < DBRELAY_SOCKET_BUFSIZE - 1"
  by (simp add: next_piece_def piece_None)

lemma next_piece_Nil [simp]: "next_piece [] = None"
  by (simp add: next_piece_None size_defs)

text \<open>Sending one line to an idle connector.\<close>

lemma send_line:
  assumes "line_ok l" "peer_line p (l @ [NL]) c = Some (Inr (nxt, c', evs))"
  shows "session_send p (l @ [NL]) (idle c) = Some (0, (idle c')\<lparr>inbox := replies evs,
    ended := (nxt \<noteq> Next_Line)\<rparr>)"
proof -
  have "serve_bytes p (l @ [NL]) (idle c) = serve_bytes p []
      ((idle c)\<lparr>serving := c', inbox := replies evs, ended := (nxt \<noteq> Next_Line)\<rparr>)"
    using next_piece_line[OF assms(1), of "[]"] assms(2) by (subst serve_bytes.simps) (simp add: peer_takes_def)
  also have "\<dots> = Some ((idle c')\<lparr>inbox := replies evs, ended := (nxt \<noteq> Next_Line)\<rparr>)"
    by (subst serve_bytes.simps) (simp add: idle_def)
  finally show ?thesis by (simp add: session_send_def)
qed

text \<open>Receiving the only line there is leaves the session idle.\<close>

lemma recv_only_line:
  assumes "frag_ok frag" "line_ok l" "c_string l" "inbox s = l @ [NL]"
  obtains st' where "session_recv frag no_input s = Some (1, l @ [NL], st', s\<lparr>inbox := []\<rparr>)"
    "recv_ok st'" "pending_in st' = []"
proof -
  have "next_piece (pending_in no_input @ inbox s) = Some (l @ [NL], [])"
    using assms(4) next_piece_line[OF assms(2), of "[]"] by (simp add: no_input_ok)
  from session_recv_piece[OF assms(1) no_input_ok(1) _ this] assms(3,4) that show thesis by auto
qed

text \<open>An option that the connector acknowledges.\<close>

lemma set_option_idle:
  assumes "frag_ok frag" "line_ok ('':SET '' @ opt @ '' '' @ val)"
    and "process_line (peer_arg p) (peer_flag p) ('':SET '' @ opt @ '' '' @ val @ [NL]) c = Inr (OK, c')"
  shows "dbrelay_conn_set_option (session_channel p frag) opt val (idle c) = Some (0, idle c')"
proof -
  let ?s = "(idle c')\<lparr>inbox := '':OK'' @ [NL]\<rparr>"
  have "peer_line p (('':SET '' @ opt @ '' '' @ val) @ [NL]) c = Some (Inr (Next_Line, c', Reply ('':OK'' @ [NL]) #
      timer_unless0 (c_request c') (connection_timeout (c_request c'))))"
    using assms(3) by (simp add: peer_line_def handle_line_def)
  from send_line[OF assms(2) this] have send:
    "session_send p ('':SET '' @ opt @ '' '' @ val @ [NL]) (idle c) = Some (0, ?s)"
    by (simp add: idle_def)
  obtain st' where "session_recv frag no_input ?s = Some (1, '':OK'' @ [NL], st', idle c')"
    by (rule recv_only_line[OF assms(1), of "'':OK''" ?s])
      (simp_all add: line_ok_def size_defs idle_def)
  with send show ?thesis by (simp add: dbrelay_conn_set_option_def)
qed

subsection \<open>The options of a request\<close>

text \<open>
  A request that can be sent: no field has a newline, and the timeout and the flags have at most
  nine characters, which is what the connector's buffers hold.
\<close>

definition sendable :: "dbrelay_request \<Rightarrow> bool" where
  "sendable r \<longleftrightarrow> request_wf r \<and>
     NL \<notin> set (sql_server r) \<union> set (sql_database r) \<union> set (sql_user r) \<union> set (sql_password r) \<union>
       set (connection_name r) \<and>
     - 100000000 < connection_timeout r \<and> connection_timeout r < 1000000000 \<and>
     unat (flags r) < 1000000000"

definition relay_options :: "dbrelay_request \<Rightarrow> 'd connector \<Rightarrow> 'd connector" where
  "relay_options r c = c\<lparr>timeout_str := show_int (connection_timeout r),
     c_request := (c_request c)\<lparr>sql_server := sql_server r, sql_database := sql_database r,
       sql_user := sql_user r,
       sql_password := (if sql_password r \<noteq> [] then sql_password r else sql_password (c_request c)),
       connection_timeout := connection_timeout r, flags := flags r,
       connection_name := connection_name r\<rparr>\<rparr>"

lemma show_timeout:
  assumes "- 100000000 < t" "t < 1000000000"
  shows "length (show_int t) < 10" "atol (show_int t) = t"
proof -
  have "nat t < 10 ^ Suc 8" "nat (- t) < 10 ^ Suc 7" using assms by simp_all
  from show_nat_length[OF this(1)] show_nat_length[OF this(2)]
  show "length (show_int t) < 10" by (simp add: show_int_def)
  show "atol (show_int t) = t" using assms by (intro atol_show_int) simp_all
qed

lemma show_flags:
  assumes "unat (f :: 64 word) < 1000000000"
  shows "length (show_nat (unat f)) < 10" "word_of_int (atol (show_nat (unat f))) = f"
proof -
  define n where "n = unat f"
  have n: "n < 10 ^ Suc 8" using assms by (simp add: n_def)
  from show_nat_length[OF n] show "length (show_nat (unat f)) < 10" by (simp add: n_def)
  have "atol (show_int (int n)) = int n" using n by (intro atol_show_int) simp_all
  then have "atol (show_nat (unat f)) = int (unat f)" by (simp only: show_int_of_nat n_def)
  then show "word_of_int (atol (show_nat (unat f))) = f" by simp
qed

text \<open>A line of the protocol is short when its value is.\<close>

lemma option_line_ok:
  "NL \<notin> set opt \<Longrightarrow> NL \<notin> set v \<Longrightarrow> length opt < 20 \<Longrightarrow> length v < 1000 \<Longrightarrow>
     line_ok ('':SET '' @ opt @ '' '' @ v)"
  by (simp add: line_ok_def size_defs)

lemma send_options_idle:
  assumes "frag_ok frag" "\<not> receive_sql c" "sendable r"
  shows "send_options (session_channel p frag) r k (idle c) = k (idle (relay_options r c))"
proof -
  have wf: "length (sql_server r) < 101" "length (sql_database r) < 31" "length (sql_user r) < 31"
    "length (sql_password r) < 31" "length (connection_name r) < 101"
    using assms(3) by (simp_all add: sendable_def request_wf_def fits_def size_defs)
  have nl: "NL \<notin> set (sql_server r)" "NL \<notin> set (sql_database r)" "NL \<notin> set (sql_user r)"
    "NL \<notin> set (sql_password r)" "NL \<notin> set (connection_name r)"
    using assms(3) by (simp_all add: sendable_def)
  have t: "length (show_int (connection_timeout r)) < 10"
    "atol (show_int (connection_timeout r)) = connection_timeout r"
    using assms(3) by (simp_all add: sendable_def show_timeout)
  have f: "length (show_nat (unat (flags r))) < 10"
    "word_of_int (atol (show_nat (unat (flags r)))) = flags r"
    using assms(3) by (simp_all add: sendable_def show_flags)
  note opt = set_option_idle[OF assms(1) option_line_ok]
  have steps: "\<not> receive_sql x \<Longrightarrow> dbrelay_conn_set_option (session_channel p frag) ''SERVER'' (sql_server r) (idle x) =
      Some (0, idle (x\<lparr>c_request := (c_request x)\<lparr>sql_server := sql_server r\<rparr>\<rparr>))"
    "\<not> receive_sql x \<Longrightarrow> dbrelay_conn_set_option (session_channel p frag) ''DATABASE'' (sql_database r) (idle x) =
      Some (0, idle (x\<lparr>c_request := (c_request x)\<lparr>sql_database := sql_database r\<rparr>\<rparr>))"
    "\<not> receive_sql x \<Longrightarrow> dbrelay_conn_set_option (session_channel p frag) ''USER'' (sql_user r) (idle x) =
      Some (0, idle (x\<lparr>c_request := (c_request x)\<lparr>sql_user := sql_user r\<rparr>\<rparr>))"
    "\<not> receive_sql x \<Longrightarrow> dbrelay_conn_set_option (session_channel p frag) ''PASSWORD'' (sql_password r) (idle x) =
      Some (0, idle (x\<lparr>c_request := (c_request x)\<lparr>sql_password := sql_password r\<rparr>\<rparr>))"
    "\<not> receive_sql x \<Longrightarrow> dbrelay_conn_set_option (session_channel p frag) ''APPNAME'' (connection_name r) (idle x) =
      Some (0, idle (x\<lparr>c_request := (c_request x)\<lparr>connection_name := connection_name r\<rparr>\<rparr>))"
    "\<not> receive_sql x \<Longrightarrow> dbrelay_conn_set_option (session_channel p frag) ''TIMEOUT'' (show_int (connection_timeout r)) (idle x) =
      Some (0, idle (x\<lparr>timeout_str := show_int (connection_timeout r),
        c_request := (c_request x)\<lparr>connection_timeout := connection_timeout r\<rparr>\<rparr>))"
    "\<not> receive_sql x \<Longrightarrow> dbrelay_conn_set_option (session_channel p frag) ''FLAGS'' (show_nat (unat (flags r))) (idle x) =
      Some (0, idle (x\<lparr>c_request := (c_request x)\<lparr>flags := flags r\<rparr>\<rparr>))" for x
    using process_set_server[of x "peer_arg p" "peer_flag p" "sql_server r"]
      process_set_database[of x "peer_arg p" "peer_flag p" "sql_database r"]
      process_set_user[of x "peer_arg p" "peer_flag p" "sql_user r"]
      process_set_password[of x "peer_arg p" "peer_flag p" "sql_password r"]
      process_set_appname[of x "peer_arg p" "peer_flag p" "connection_name r"]
      process_set_timeout[of x "peer_arg p" "peer_flag p" "show_int (connection_timeout r)"]
      process_set_flags[of x "peer_arg p" "peer_flag p" "show_nat (unat (flags r))"] wf nl t f
    by (simp_all add: opt copy_string_id size_defs)
  show ?thesis
    using assms(2) t(1) f(1)
    by (simp add: send_options_def or_fail_def into_tmp_def steps relay_options_def)
qed

subsection \<open>The text of the query\<close>

text \<open>No piece of the text is taken for the end of the text.\<close>

function sql_lines_ok :: "string \<Rightarrow> bool" where
  "sql_lines_ok s =
     (case next_piece s of None \<Rightarrow> True | Some (l, r) \<Rightarrow> \<not> ends_sql l \<and> sql_lines_ok r)"
  by pat_completeness auto
termination by (relation "measure length") (auto dest: piece_shorter)

declare sql_lines_ok.simps [simp del]

lemma sql_lines_ok_prefix: "sql_lines_ok (a @ b) \<Longrightarrow> sql_lines_ok a"
proof (induction a rule: sql_lines_ok.induct)
  case (1 a)
  show ?case
  proof (cases "next_piece a")
    case None
    then show ?thesis by (simp add: sql_lines_ok.simps[of a])
  next
    case (Some lr)
    then obtain l r where lr: "next_piece a = Some (l, r)" by (cases lr) auto
    with 1(2) next_piece_append[OF lr, of b] have "\<not> ends_sql l" "sql_lines_ok (r @ b)"
      by (simp_all add: sql_lines_ok.simps[of "a @ b"])
    with 1(1)[OF lr refl] lr show ?thesis by (simp add: sql_lines_ok.simps[of a])
  qed
qed

lemma next_piece_split: "next_piece s = Some (a, r) \<Longrightarrow> s = a @ r"
  by (auto simp: next_piece_def dest: piece_split)

lemma serve_sql:
  "receive_sql (serving s) \<Longrightarrow> sb_sql (serving s) = Some b \<Longrightarrow> \<not> ended s \<Longrightarrow> sql_lines_ok buf \<Longrightarrow>
   \<exists>b' rest. serve_bytes p buf s =
       Some (s\<lparr>serving := (serving s)\<lparr>sb_sql := Some b'\<rparr>, unread := rest\<rparr>) \<and>
     sb_to_char b' @ rest = sb_to_char b @ buf \<and> next_piece rest = None"
proof (induction buf arbitrary: s b rule: sql_lines_ok.induct)
  case (1 buf)
  show ?case
  proof (cases "next_piece buf")
    case None
    have "s\<lparr>unread := buf\<rparr> = s\<lparr>serving := (serving s)\<lparr>sb_sql := Some b\<rparr>, unread := buf\<rparr>"
      using 1(3) by (cases s) (cases "serving s", simp)
    with None show ?thesis by (subst serve_bytes.simps) auto
  next
    case (Some lr)
    then obtain l r where lr: "next_piece buf = Some (l, r)" by (cases lr) auto
    with 1(5) have ok: "\<not> ends_sql l" "sql_lines_ok r" by (simp_all add: sql_lines_ok.simps[of buf])
    let ?c = "(serving s)\<lparr>sb_sql := Some (sb_append b l)\<rparr>"
    let ?s = "s\<lparr>serving := ?c\<rparr>"
    have "peer_line p l (serving s) = Some (Inr (Next_Line, ?c, []))"
      using process_sql_text[OF 1(2,3) ok(1)] by (simp add: peer_line_def handle_line_def)
    then have "serve_bytes p buf s = serve_bytes p r (?s\<lparr>inbox := inbox s, ended := False\<rparr>)"
      using lr 1(4) by (subst serve_bytes.simps) (simp add: peer_takes_def)
    also have "?s\<lparr>inbox := inbox s, ended := False\<rparr> = ?s" using 1(4) by (cases s) simp
    finally have step: "serve_bytes p buf s = serve_bytes p r ?s" .
    from 1(1)[OF lr refl, of ?s "sb_append b l"] 1(2,4) ok(2) obtain b' rest where
      "serve_bytes p r ?s = Some (s\<lparr>serving := (serving s)\<lparr>sb_sql := Some b'\<rparr>, unread := rest\<rparr>)"
      "sb_to_char b' @ rest = sb_to_char b @ l @ r" "next_piece rest = None" by auto
    then show ?thesis unfolding step using next_piece_split[OF lr] by blast
  qed
qed

text \<open>The connector after the text, and its acknowledgement.\<close>

definition relay_sql :: "string \<Rightarrow> 'd connector \<Rightarrow> 'd connector" where
  "relay_sql q c = c\<lparr>receive_sql := False, sb_sql := None,
     c_request := (c_request c)\<lparr>sql := Some (q @ [NL])\<rparr>\<rparr>"

lemma rest_of_lines: "next_piece r = None \<Longrightarrow> a @ r = b @ [NL] \<Longrightarrow> r = []"
  by (cases r rule: rev_cases) (auto simp: next_piece_None)

lemma send_sql_idle:
  assumes "receive_sql c" "sb_sql c = Some b" "sb_to_char b = []" "sql_lines_ok (q @ [NL])"
  shows "send_sql (session_channel p frag) q k (idle c) =
    k ((idle (relay_sql q c))\<lparr>inbox := '':OK'' @ [NL]\<rparr>)"
proof -
  from serve_sql[of "idle c" b "q @ [NL]" p] assms obtain b2 r2 where
    2: "serve_bytes p (q @ [NL]) (idle c) = Some ((idle c)\<lparr>serving := c\<lparr>sb_sql := Some b2\<rparr>, unread := r2\<rparr>)"
      "sb_to_char b2 @ r2 = q @ [NL]" "next_piece r2 = None" by auto
  from rest_of_lines[OF 2(3,2)] have "r2 = []" .
  with 2 have all: "serve_bytes p (q @ [NL]) (idle c) = Some (idle (c\<lparr>sb_sql := Some b2\<rparr>))"
    "sb_to_char b2 = q @ [NL]" by (simp_all add: idle_def)
  from serve_sql[of "idle c" b q p] assms sql_lines_ok_prefix[OF assms(4)] obtain b1 r1 where
    1: "serve_bytes p q (idle c) = Some ((idle c)\<lparr>serving := c\<lparr>sb_sql := Some b1\<rparr>, unread := r1\<rparr>)"
    by auto
  let ?s1 = "(idle c)\<lparr>serving := c\<lparr>sb_sql := Some b1\<rparr>, unread := r1\<rparr>"
  have "serve_bytes p (r1 @ [NL]) ?s1 = Some (idle (c\<lparr>sb_sql := Some b2\<rparr>))"
    using serve_bytes_append[of p q "[NL]" "idle c"] 1 all(1) by simp
  then have sends: "session_send p q (idle c) = Some (0, ?s1)"
    "session_send p [NL] ?s1 = Some (0, idle (c\<lparr>sb_sql := Some b2\<rparr>))"
    using 1 by (simp_all add: session_send_def)
  let ?c = "relay_sql q c"
  have "c\<lparr>sb_sql := None, receive_sql := False, c_request := (c_request c)\<lparr>sql := Some (q @ [NL])\<rparr>\<rparr> = ?c"
    by (simp add: relay_sql_def)
  then have "peer_line p ('':SQL END'' @ [NL]) (c\<lparr>sb_sql := Some b2\<rparr>) =
      Some (Inr (Next_Line, ?c, Reply ('':OK'' @ [NL]) #
        timer_unless0 (c_request ?c) (connection_timeout (c_request ?c))))"
    using process_sql_end[of "c\<lparr>sb_sql := Some b2\<rparr>" b2 "peer_arg p" "peer_flag p"] assms(1) all(2)
    by (simp add: peer_line_def handle_line_def relay_sql_def)
  from send_line[OF _ this] have "session_send p ('':SQL END'' @ [NL]) (idle (c\<lparr>sb_sql := Some b2\<rparr>)) =
      Some (0, (idle ?c)\<lparr>inbox := '':OK'' @ [NL]\<rparr>)"
    by (simp add: line_ok_def size_defs idle_def)
  with sends show ?thesis by (simp add: send_sql_def or_fail_def)
qed

lemma send_begin_idle:
  assumes "\<not> receive_sql c"
  shows "session_send p ('':SQL BEGIN'' @ [NL]) (idle c) =
    Some (0, idle (c\<lparr>receive_sql := True, sb_sql := Some (sb_new None),
      c_request := (c_request c)\<lparr>sql := None\<rparr>\<rparr>))"
proof -
  let ?c = "c\<lparr>receive_sql := True, sb_sql := Some (sb_new None), c_request := (c_request c)\<lparr>sql := None\<rparr>\<rparr>"
  have "peer_line p ('':SQL BEGIN'' @ [NL]) c = Some (Inr (Next_Line, ?c, []))"
    using process_sql_begin[OF assms] by (simp add: peer_line_def handle_line_def)
  from send_line[OF _ this] show ?thesis by (simp add: line_ok_def size_defs idle_def)
qed

subsection \<open>Receiving the results\<close>

text \<open>The lines that steer the client, which no line of a result may be.\<close>

definition control_line :: "string \<Rightarrow> bool" where
  "control_line l \<longleftrightarrow> l \<in> {'':BYE'', '':OK'', '':ERR'', '':RESULTS BEGIN'', '':RESULTS END'',
     '':ERROR BEGIN'', '':ERROR END''}"

function reply_lines_ok :: "string \<Rightarrow> bool" where
  "reply_lines_ok s =
     (case next_piece s of
        None \<Rightarrow> True | Some (l, r) \<Rightarrow> \<not> control_line (chop_line l) \<and> reply_lines_ok r)"
  by pat_completeness auto
termination by (relation "measure length") (auto dest: piece_shorter)

declare reply_lines_ok.simps [simp del]

text \<open>What the client has still to read: the rest of its buffer and what is on the way.\<close>

definition sees :: "recv_state \<Rightarrow> 'd session \<Rightarrow> string \<Rightarrow> bool" where
  "sees st s v \<longleftrightarrow> recv_ok st \<and> c_string (inbox s) \<and> pending_in st @ inbox s = v"

lemma sees_recv:
  assumes "frag_ok frag" "sees st s v" "next_piece v = Some (a, r)"
  obtains st' i where "session_recv frag st s = Some (1, a, st', s\<lparr>inbox := i\<rparr>)"
    "sees st' (s\<lparr>inbox := i\<rparr>) r" "a \<noteq> []"
proof -
  from assms(2) have ok: "recv_ok st" "c_string (inbox s)"
    "next_piece (pending_in st @ inbox s) = Some (a, r)" using assms(3) by (simp_all add: sees_def)
  from session_recv_piece[OF assms(1) ok] obtain st' i where
    1: "session_recv frag st s = Some (1, a, st', s\<lparr>inbox := i\<rparr>)" "recv_ok st'" "pending_in st' @ i = r" "c_string i" .
  have a: "a \<noteq> []" using assms(3) by (auto simp: next_piece_def size_defs dest: piece_split)
  with that 1 a show thesis by (simp add: sees_def)
qed

lemma results_line:
  assumes "frag_ok frag" "sees st s v" "next_piece v = Some (a, r)"
    and "result_line (chop_line a) rs = Some rs'"
  obtains st' i where "results_loop (session_channel p frag) st rs s =
      results_loop (session_channel p frag) st' rs' (s\<lparr>inbox := i\<rparr>)" "sees st' (s\<lparr>inbox := i\<rparr>) r"
proof -
  from sees_recv[OF assms(1-3)] obtain st' i where
    1: "session_recv frag st s = Some (1, a, st', s\<lparr>inbox := i\<rparr>)" "sees st' (s\<lparr>inbox := i\<rparr>) r" "a \<noteq> []" .
  have "results_loop (session_channel p frag) st rs s =
      results_loop (session_channel p frag) st' rs' (s\<lparr>inbox := i\<rparr>)"
    using 1(1,3) assms(4) by (subst results_loop.simps) simp
  with 1(2) that show thesis by blast
qed

lemma results_done:
  assumes "frag_ok frag" "sees st s ('':OK'' @ [NL])"
  shows "results_loop (session_channel p frag) st rs s = Some (Inr (1, rs, s\<lparr>inbox := []\<rparr>))"
proof -
  have "next_piece ('':OK'' @ [NL]) = Some ('':OK'' @ [NL], [])"
    using next_piece_line[of "'':OK''" "[]"] by (simp add: line_ok_def size_defs)
  from sees_recv[OF assms this] obtain st' i where
    1: "session_recv frag st s = Some (1, '':OK'' @ [NL], st', s\<lparr>inbox := i\<rparr>)"
      "sees st' (s\<lparr>inbox := i\<rparr>) []" .
  then show ?thesis
    by (subst results_loop.simps) (simp add: result_line_def chop_line_def sees_def)
qed

lemma piece_newline: "piece n s = Some (l, r) \<Longrightarrow> NL \<notin> set (butlast l)"
  by (induction n s arbitrary: l rule: piece.induct) (auto split: if_splits)

lemma chop_line_filter:
  "next_piece s = Some (l, r) \<Longrightarrow> l \<noteq> [] \<Longrightarrow> chop_line l = filter (\<lambda>c. c \<noteq> NL) l"
  by (cases l rule: rev_cases)
    (auto simp: chop_line_def next_piece_def dest!: piece_newline intro!: sym[OF filter_True])

text \<open>The lines of a text that ends with a newline, with the newlines left out.\<close>

lemma results_text:
  "frag_ok frag \<Longrightarrow> sees st s (b @ tl') \<Longrightarrow> b = [] \<or> last b = NL \<Longrightarrow> reply_lines_ok b \<Longrightarrow>
   in_results rs \<or> in_errors rs \<Longrightarrow>
   \<exists>st' i sb'. results_loop (session_channel p frag) st rs s =
       results_loop (session_channel p frag) st' (rs\<lparr>sb_rslt := sb'\<rparr>) (s\<lparr>inbox := i\<rparr>) \<and>
     sees st' (s\<lparr>inbox := i\<rparr>) tl' \<and>
     sb_to_char sb' = sb_to_char (sb_rslt rs) @ filter (\<lambda>c. c \<noteq> NL) b"
proof (induction b arbitrary: st s rs rule: reply_lines_ok.induct)
  case (1 b)
  show ?case
  proof (cases "b = []")
    case True
    have "s = s\<lparr>inbox := inbox s\<rparr>" "rs = rs\<lparr>sb_rslt := sb_rslt rs\<rparr>" by simp_all
    with 1(3) True show ?thesis by (metis append.right_neutral append_Nil filter.simps(1))
  next
    case False
    with 1(4) have nl: "NL \<in> set b" by (metis last_in_set)
    then obtain l r where lr: "next_piece b = Some (l, r)"
      using next_piece_None[of b] by (cases "next_piece b") auto
    have l: "l \<noteq> []" "b = l @ r" using lr by (auto simp: next_piece_def size_defs dest: piece_split)
    from 1(5) lr have ok: "\<not> control_line (chop_line l)" "reply_lines_ok r"
      by (simp_all add: reply_lines_ok.simps[of b])
    let ?rs = "rs\<lparr>sb_rslt := sb_append (sb_rslt rs) (chop_line l)\<rparr>"
    have "result_line (chop_line l) rs = Some ?rs"
      using ok(1) 1(6) by (simp add: result_line_def control_line_def)
    from results_line[OF 1(2,3) next_piece_append[OF lr] this] obtain st1 i1 where
      s1: "results_loop (session_channel p frag) st rs s =
        results_loop (session_channel p frag) st1 ?rs (s\<lparr>inbox := i1\<rparr>)"
      "sees st1 (s\<lparr>inbox := i1\<rparr>) (r @ tl')" by metis
    have "r = [] \<or> last r = NL" using 1(4) l False by (cases "r = []") auto
    from 1(1)[OF lr refl 1(2) s1(2) this ok(2), of ?rs] 1(6) s1(1) l chop_line_filter[OF lr l(1)]
    show ?thesis by auto
  qed
qed

subsection \<open>Running the query\<close>

definition start_results :: results_state where
  "start_results = \<lparr>in_results = False, in_errors = False, err_flag = 0, sb_rslt = sb_new None\<rparr>"

lemma control_step:
  assumes "frag_ok frag" "sees st s ((l @ [NL]) @ r)" "line_ok l" "result_line l rs = Some rs'"
  obtains st' i where "results_loop (session_channel p frag) st rs s =
      results_loop (session_channel p frag) st' rs' (s\<lparr>inbox := i\<rparr>)" "sees st' (s\<lparr>inbox := i\<rparr>) r"
proof -
  have "chop_line (l @ [NL]) = l" by (simp add: chop_line_def)
  with results_line[OF assms(1,2), of "l @ [NL]" r rs rs'] next_piece_line[OF assms(3), of r] assms(4) that
  show thesis by auto
qed

text \<open>A reply is framed by a beginning and an end, and the acknowledgement follows.\<close>

lemma framed_reply:
  assumes "frag_ok frag" "reply_lines_ok (txt @ [NL])"
    and "sees st s ((b @ [NL]) @ (txt @ [NL]) @ (e @ [NL]) @ '':OK'' @ [NL])" "line_ok b" "line_ok e"
    and "result_line b start_results = Some rs" "in_results rs \<or> in_errors rs"
    and "\<And>sb. result_line e (rs\<lparr>sb_rslt := sb\<rparr>) = Some (rs'\<lparr>sb_rslt := sb\<rparr>)"
  shows "\<exists>sb. results_loop (session_channel p frag) st start_results s =
      Some (Inr (1, rs'\<lparr>sb_rslt := sb\<rparr>, s\<lparr>inbox := []\<rparr>)) \<and>
    sb_to_char sb = sb_to_char (sb_rslt rs) @ filter (\<lambda>c. c \<noteq> NL) txt"
proof -
  from control_step[OF assms(1,3,4,6)] obtain st1 i1 where
    1: "results_loop (session_channel p frag) st start_results s =
        results_loop (session_channel p frag) st1 rs (s\<lparr>inbox := i1\<rparr>)"
      "sees st1 (s\<lparr>inbox := i1\<rparr>) ((txt @ [NL]) @ (e @ [NL]) @ '':OK'' @ [NL])" by metis
  from results_text[OF assms(1) 1(2) _ assms(2,7), of p] obtain st2 i2 sb where
    2: "results_loop (session_channel p frag) st1 rs (s\<lparr>inbox := i1\<rparr>) =
        results_loop (session_channel p frag) st2 (rs\<lparr>sb_rslt := sb\<rparr>) (s\<lparr>inbox := i2\<rparr>)"
      "sees st2 (s\<lparr>inbox := i2\<rparr>) ((e @ [NL]) @ '':OK'' @ [NL])"
      "sb_to_char sb = sb_to_char (sb_rslt rs) @ filter (\<lambda>c. c \<noteq> NL) txt" by auto
  obtain st3 i3 where
    3: "results_loop (session_channel p frag) st2 (rs\<lparr>sb_rslt := sb\<rparr>) (s\<lparr>inbox := i2\<rparr>) =
        results_loop (session_channel p frag) st3 (rs'\<lparr>sb_rslt := sb\<rparr>) (s\<lparr>inbox := i2, inbox := i3\<rparr>)"
      "sees st3 (s\<lparr>inbox := i2, inbox := i3\<rparr>) ('':OK'' @ [NL])"
    by (rule control_step[OF assms(1) 2(2) assms(5,8), where p = p])
  from results_done[OF assms(1) 3(2), of p "rs'\<lparr>sb_rslt := sb\<rparr>"] 1(1) 2(1,3) 3(1)
  show ?thesis by auto
qed

text \<open>The connector ready to run: connected, with no error message.\<close>

definition ready :: "'d peer \<Rightarrow> 'd connector \<Rightarrow> 'd connector result" where
  "ready p c = connect_once (peer_api p) (c\<lparr>c_request := (c_request c)\<lparr>error_message := []\<rparr>\<rparr>)"

definition runs ::
    "'d peer \<Rightarrow> 'd connector \<Rightarrow> (string option \<times> 'd) result option" where
  "runs p c = dbrelay_exec_query (peer_api p) (conn_db c) (sql_database (c_request c))
     (sql (c_request c)) (flags (c_request c)) (dbstate c)"

lemma run_line:
  assumes "\<not> receive_sql c" "ready p c = Inr k" "conn_db k \<noteq> None" "runs p k = Some (Inr (res, d))"
    and "query_reply (peer_api p) (conn_db k) res d = Inr reply"
  shows "\<exists>evs. peer_line p ('':RUN'' @ [NL]) c = Some (Inr (Next_Line, k\<lparr>dbstate := d\<rparr>, evs)) \<and>
    replies evs = replies reply @ '':OK'' @ [NL]"
  using process_run[OF assms(1)] assms(2-5)
  by (auto simp: peer_line_def handle_line_def run_command_def Let_def ready_def[symmetric] runs_def)

lemma collect_results:
  assumes "frag_ok frag" "\<not> receive_sql c" "ready p c = Inr k" "conn_db k \<noteq> None"
    and "runs p k = Some (Inr (Some txt, d))" "c_string txt" "reply_lines_ok (txt @ [NL])"
  shows "run_and_collect (session_channel p frag) ((idle c)\<lparr>inbox := '':OK'' @ [NL]\<rparr>) =
    Some (Inr (filter (\<lambda>c. c \<noteq> NL) txt, 0, idle (k\<lparr>dbstate := d\<rparr>)))"
proof -
  obtain st where ack: "session_recv frag no_input ((idle c)\<lparr>inbox := '':OK'' @ [NL]\<rparr>) =
      Some (1, '':OK'' @ [NL], st, idle c)" "recv_ok st" "pending_in st = []"
    by (rule recv_only_line[OF assms(1), of "'':OK''" "(idle c)\<lparr>inbox := '':OK'' @ [NL]\<rparr>"])
      (auto simp: line_ok_def size_defs idle_def)
  have "query_reply (peer_api p) (conn_db k) (Some txt) d = Inr (results_reply txt)"
    by (simp add: query_reply_def)
  from run_line[OF assms(2-5) this] obtain evs where
    evs: "peer_line p ('':RUN'' @ [NL]) c = Some (Inr (Next_Line, k\<lparr>dbstate := d\<rparr>, evs))"
      "replies evs = ('':RESULTS BEGIN'' @ [NL]) @ (txt @ [NL]) @ ('':RESULTS END'' @ [NL]) @ '':OK'' @ [NL]"
    by (auto simp: results_reply_def)
  let ?s = "(idle (k\<lparr>dbstate := d\<rparr>))\<lparr>inbox := replies evs\<rparr>"
  from send_line[OF _ evs(1)] have send: "session_send p ('':RUN'' @ [NL]) (idle c) = Some (0, ?s)"
    by (simp add: line_ok_def size_defs idle_def)
  have "sees st ?s (('':RESULTS BEGIN'' @ [NL]) @ (txt @ [NL]) @ ('':RESULTS END'' @ [NL]) @ '':OK'' @ [NL])"
    using ack evs(2) assms(6) by (simp add: sees_def)
  from framed_reply[OF assms(1,7) this, of "start_results\<lparr>in_results := True\<rparr>" "start_results" p]
  obtain sb where "results_loop (session_channel p frag) st start_results ?s =
      Some (Inr (1, start_results\<lparr>sb_rslt := sb\<rparr>, ?s\<lparr>inbox := []\<rparr>))"
    "sb_to_char sb = filter (\<lambda>c. c \<noteq> NL) txt"
    by (auto simp: line_ok_def size_defs result_line_def start_results_def)
  with ack(1) send show ?thesis
    by (simp add: run_and_collect_def or_fail_def start_results_def idle_def)
qed

lemma collect_error:
  assumes "frag_ok frag" "\<not> receive_sql c" "ready p c = Inr k" "conn_db k \<noteq> None"
    and "runs p k = Some (Inr (None, d))" "c_string err" "reply_lines_ok (err @ [NL])"
    and "api_error (peer_api p) (conn_db k) d = Inr err"
  shows "run_and_collect (session_channel p frag) ((idle c)\<lparr>inbox := '':OK'' @ [NL]\<rparr>) =
    Some (Inr (filter (\<lambda>c. c \<noteq> NL) err, 1, idle (k\<lparr>dbstate := d\<rparr>)))"
proof -
  obtain st where ack: "session_recv frag no_input ((idle c)\<lparr>inbox := '':OK'' @ [NL]\<rparr>) =
      Some (1, '':OK'' @ [NL], st, idle c)" "recv_ok st" "pending_in st = []"
    by (rule recv_only_line[OF assms(1), of "'':OK''" "(idle c)\<lparr>inbox := '':OK'' @ [NL]\<rparr>"])
      (auto simp: line_ok_def size_defs idle_def)
  have "query_reply (peer_api p) (conn_db k) None d = Inr (error_reply err)"
    using assms(8) by (simp add: query_reply_def)
  from run_line[OF assms(2-5) this] obtain evs where
    evs: "peer_line p ('':RUN'' @ [NL]) c = Some (Inr (Next_Line, k\<lparr>dbstate := d\<rparr>, evs))"
      "replies evs = ('':ERROR BEGIN'' @ [NL]) @ (err @ [NL]) @ ('':ERROR END'' @ [NL]) @ '':OK'' @ [NL]"
    by (auto simp: error_reply_def)
  let ?s = "(idle (k\<lparr>dbstate := d\<rparr>))\<lparr>inbox := replies evs\<rparr>"
  from send_line[OF _ evs(1)] have send: "session_send p ('':RUN'' @ [NL]) (idle c) = Some (0, ?s)"
    by (simp add: line_ok_def size_defs idle_def)
  have "sees st ?s (('':ERROR BEGIN'' @ [NL]) @ (err @ [NL]) @ ('':ERROR END'' @ [NL]) @ '':OK'' @ [NL])"
    using ack evs(2) assms(6) by (simp add: sees_def)
  from framed_reply[OF assms(1,7) this, of "start_results\<lparr>err_flag := 1, in_errors := True\<rparr>"
      "start_results\<lparr>err_flag := 1\<rparr>" p]
  obtain sb where "results_loop (session_channel p frag) st start_results ?s =
      Some (Inr (1, start_results\<lparr>err_flag := 1, sb_rslt := sb\<rparr>, ?s\<lparr>inbox := []\<rparr>))"
    "sb_to_char sb = filter (\<lambda>c. c \<noteq> NL) err"
    by (auto simp: line_ok_def size_defs result_line_def start_results_def)
  with ack(1) send show ?thesis
    by (simp add: run_and_collect_def or_fail_def start_results_def idle_def)
qed

subsection \<open>The whole request\<close>

text \<open>The connector when it runs the query \<open>q\<close> of the request \<open>r\<close>, connected.\<close>

definition relayed :: "'d peer \<Rightarrow> dbrelay_request \<Rightarrow> string \<Rightarrow> 'd connector \<Rightarrow> 'd connector result" where
  "relayed p r q c = ready p (relay_sql q (relay_options r c))"

lemma ready_request:
  assumes "ready p c = Inr k"
  shows "c_request k = (c_request c)\<lparr>error_message := []\<rparr>" "receive_sql k = receive_sql c"
  using assms by (auto simp: ready_def connect_once_def rbind_eq_Inr_iff split: if_splits)

lemma relayed_request:
  assumes "relayed p r q c = Inr k"
  shows "sql_server (c_request k) = sql_server r" "sql_database (c_request k) = sql_database r"
    "sql_user (c_request k) = sql_user r"
    "sql_password (c_request k) =
       (if sql_password r \<noteq> [] then sql_password r else sql_password (c_request c))"
    "connection_name (c_request k) = connection_name r" "flags (c_request k) = flags r"
    "sql (c_request k) = Some (q @ [NL])" "sql_port (c_request k) = sql_port (c_request c)"
    "\<not> receive_sql k"
  using ready_request[OF assms[unfolded relayed_def]]
  by (simp_all add: relay_sql_def relay_options_def)

text \<open>A connector that is connected stays so, with its handle and its database.\<close>

lemma relayed_connected:
  assumes "conn_connected c"
  obtains k where "relayed p r q c = Inr k" "conn_db k = conn_db c" "dbstate k = dbstate c"
  using assms that by (simp add: relayed_def ready_def connect_once_def relay_sql_def relay_options_def)

lemma send_request_idle:
  assumes "frag_ok frag" "\<not> receive_sql c" "sendable r" "sql r = Some q" "sql_lines_ok (q @ [NL])"
  shows "dbrelay_conn_send_request (session_channel p frag) r (idle c) =
    run_and_collect (session_channel p frag)
      ((idle (relay_sql q (relay_options r c)))\<lparr>inbox := '':OK'' @ [NL]\<rparr>)"
proof -
  let ?c = "relay_options r c"
  let ?b = "?c\<lparr>receive_sql := True, sb_sql := Some (sb_new None), c_request := (c_request ?c)\<lparr>sql := None\<rparr>\<rparr>"
  have "\<not> receive_sql ?c" using assms(2) by (simp add: relay_options_def)
  from send_begin_idle[OF this, of p] send_options_idle[OF assms(1-3)] assms(4)
  have "dbrelay_conn_send_request (session_channel p frag) r (idle c) =
      send_sql (session_channel p frag) q (run_and_collect (session_channel p frag)) (idle ?b)"
    by (simp add: dbrelay_conn_send_request_def or_fail_def)
  also have "\<dots> = run_and_collect (session_channel p frag)
      ((idle (relay_sql q ?b))\<lparr>inbox := '':OK'' @ [NL]\<rparr>)"
    by (rule send_sql_idle[where b = "sb_new None", OF _ _ _ assms(5)]) (simp_all add: part_text_def)
  also have "relay_sql q ?b = relay_sql q ?c" by (simp add: relay_sql_def)
  finally show ?thesis .
qed

text \<open>The greeting.\<close>

lemma initialize_idle:
  assumes "frag_ok frag" "\<not> receive_sql c" "peer_pid p < 2147483648"
  shows "dbrelay_conn_initialize (session_channel p frag) garbage (idle c) =
    Some (int (peer_pid p), idle c)"
proof -
  let ?l = "'':PID '' @ show_nat (peer_pid p)"
  have "length (show_nat (peer_pid p)) \<le> Suc 9" using assms(3) by (intro show_nat_length) simp
  then have l: "line_ok ?l" "c_string ?l" by (simp_all add: line_ok_def size_defs)
  have "peer_line p ('':HELO'' @ [NL]) c = Some (Inr (Next_Line, c, [Reply (?l @ [NL])]))"
    using process_helo[OF assms(2)] by (simp add: peer_line_def handle_line_def)
  from send_line[OF _ this] have send:
    "session_send p ('':HELO'' @ [NL]) (idle c) = Some (0, (idle c)\<lparr>inbox := ?l @ [NL]\<rparr>)"
    by (simp add: line_ok_def size_defs idle_def)
  obtain st where recv: "session_recv frag no_input ((idle c)\<lparr>inbox := ?l @ [NL]\<rparr>) =
      Some (1, ?l @ [NL], st, idle c)"
    by (rule recv_only_line[OF assms(1) l, of "(idle c)\<lparr>inbox := ?l @ [NL]\<rparr>"]) (simp_all add: idle_def)
  have "trim_newlines (?l @ [NL]) = ?l"
  proof -
    have "last (show_nat (peer_pid p)) \<noteq> NL"
      using show_nat_nonempty[of "peer_pid p"] show_nat_no_NL[of "peer_pid p"] last_in_set by metis
    then show ?thesis
      using show_nat_nonempty[of "peer_pid p"]
      by (cases "show_nat (peer_pid p)" rule: rev_cases) auto
  qed
  moreover have "atoi (show_nat (peer_pid p)) = int (peer_pid p)"
  proof -
    have "atol (show_nat (peer_pid p)) = int (peer_pid p)"
      using atol_show_int[of "int (peer_pid p)"] assms(3) by (simp add: show_int_of_nat)
    then show ?thesis
      using assms(3) by (simp only: atoi_def signed_of_int) (simp add: signed_take_bit_int_eq_self)
  qed
  ultimately show ?thesis
    using send recv by (simp add: dbrelay_conn_initialize_def out_buf_def strncmp_eq_def Let_def)
qed

subsection \<open>Properties\<close>

text \<open>A worker that sends a request to its connector gets, as the result and without error, the text
  the connector's database answered to the query followed by a newline, with the newlines of the
  answer left out, however the bytes are cut on the way; the connector runs it with the server,
  database, user, flags and name of the request, but with the port it had itself. This holds for
  fields without newlines, a query of which no line is taken for the end of the text, and an
  answer of which no line is one of the protocol's own.
\<close>

theorem session_returns_results:
  assumes "frag_ok frag" "\<not> receive_sql c" "sendable r" "sql r = Some q" "sql_lines_ok (q @ [NL])"
    and "relayed p r q c = Inr k" "conn_db k \<noteq> None"
    and "dbrelay_exec_query (peer_api p) (conn_db k) (sql_database r) (Some (q @ [NL])) (flags r) (dbstate k) =
      Some (Inr (Some txt, d))"
    and "c_string txt" "reply_lines_ok (txt @ [NL])"
  shows "dbrelay_conn_send_request (session_channel p frag) r (idle c) =
      Some (Inr (filter (\<lambda>c. c \<noteq> NL) txt, 0, idle (k\<lparr>dbstate := d\<rparr>))) \<and>
    sql_server (c_request k) = sql_server r \<and> sql_database (c_request k) = sql_database r \<and>
    sql_user (c_request k) = sql_user r \<and> flags (c_request k) = flags r \<and>
    connection_name (c_request k) = connection_name r \<and> sql_port (c_request k) = sql_port (c_request c)"
proof -
  have rs: "\<not> receive_sql (relay_sql q (relay_options r c))" by (simp add: relay_sql_def)
  have "runs p k = Some (Inr (Some txt, d))"
    using assms(8) relayed_request(2,6,7)[OF assms(6)] by (simp add: runs_def)
  from collect_results[OF assms(1) rs assms(6)[unfolded relayed_def] assms(7) this assms(9,10)]
    send_request_idle[OF assms(1-5), of p] relayed_request[OF assms(6)] show ?thesis by simp
qed

text \<open>
  A query the database refuses comes back to the worker as the error text of the database, its
  newlines left out, marked as an error, and the connector is ready for the next request.
\<close>

lemma session_error:
  assumes "frag_ok frag" "\<not> receive_sql c" "sendable r" "sql r = Some q" "sql_lines_ok (q @ [NL])"
    and "relayed p r q c = Inr k" "conn_db k \<noteq> None"
    and "dbrelay_exec_query (peer_api p) (conn_db k) (sql_database r) (Some (q @ [NL])) (flags r) (dbstate k) =
      Some (Inr (None, d))"
    and "api_error (peer_api p) (conn_db k) d = Inr err"
    and "c_string err" "reply_lines_ok (err @ [NL])"
  shows "dbrelay_conn_send_request (session_channel p frag) r (idle c) =
      Some (Inr (filter (\<lambda>c. c \<noteq> NL) err, 1, idle (k\<lparr>dbstate := d\<rparr>))) \<and> \<not> receive_sql k"
proof -
  have rs: "\<not> receive_sql (relay_sql q (relay_options r c))" by (simp add: relay_sql_def)
  have "runs p k = Some (Inr (None, d))"
    using assms(8) relayed_request(2,6,7)[OF assms(6)] by (simp add: runs_def)
  from collect_error[OF assms(1) rs assms(6)[unfolded relayed_def] assms(7) this assms(10,11,9)]
    send_request_idle[OF assms(1-5), of p] relayed_request(9)[OF assms(6)] show ?thesis by simp
qed

text \<open>Greeting a connector returns its process number and changes nothing in it.
\<close>

theorem session_initialize:
  assumes "frag_ok frag" "\<not> receive_sql c" "peer_pid p < 2147483648"
  shows "dbrelay_conn_initialize (session_channel p frag) garbage (idle c) =
    Some (int (peer_pid p), idle c)"
  using initialize_idle[OF assms] .

lemma serve_one:
  assumes "next_piece buf = Some (l, r)" "\<not> ended s"
    and "process_line (peer_arg p) (peer_flag p) l (serving s) = Inr (OK, c)"
  shows "\<exists>i. serve_bytes p buf s = serve_bytes p r (s\<lparr>serving := c, inbox := i, ended := False\<rparr>)"
  using assms by (subst serve_bytes.simps) (auto simp: peer_takes_def peer_line_def handle_line_def)

text \<open>C19.
  The text of a query can end itself: a line of it that starts with the end command makes the
  connector execute the rest of the text as commands, here one that changes the database.
\<close>

theorem sql_text_injects_commands:
  assumes "receive_sql c" "sb_sql c = Some b" "sql_lines_ok (q @ [NL])"
    and "NL \<notin> set x" "length x < DBRELAY_OBJ_SZ"
  shows "\<exists>s. session_send p (q @ [NL] @ '':SQL END'' @ [NL] @ '':SET DATABASE '' @ x @ [NL]) (idle c) =
      Some (0, s) \<and> sql (c_request (serving s)) = Some (sb_to_char b @ q @ [NL]) \<and>
    sql_database (c_request (serving s)) = x"
proof -
  from serve_sql[of "idle c" b "q @ [NL]" p] assms(1-3) obtain b2 r2 where
    2: "serve_bytes p (q @ [NL]) (idle c) = Some ((idle c)\<lparr>serving := c\<lparr>sb_sql := Some b2\<rparr>, unread := r2\<rparr>)"
      "sb_to_char b2 @ r2 = (sb_to_char b @ q) @ [NL]" "next_piece r2 = None" by auto
  from rest_of_lines[OF 2(3,2)] have "r2 = []" .
  with 2 have whole: "serve_bytes p (q @ [NL]) (idle c) = Some (idle (c\<lparr>sb_sql := Some b2\<rparr>))"
    "sb_to_char b2 = sb_to_char b @ q @ [NL]" by (simp_all add: idle_def)
  let ?tl = "'':SET DATABASE '' @ x @ [NL]"
  let ?c2 = "c\<lparr>receive_sql := False, sb_sql := None,
    c_request := (c_request c)\<lparr>sql := Some (sb_to_char b2)\<rparr>\<rparr>"
  have end_line: "next_piece ('':SQL END'' @ NL # ?tl) = Some ('':SQL END'' @ [NL], ?tl)"
    by (rule next_piece_line) (simp add: line_ok_def size_defs)
  have set_line: "next_piece (('':SET DATABASE '' @ x) @ NL # []) = Some (('':SET DATABASE '' @ x) @ [NL], [])"
    by (rule next_piece_line) (use assms(4,5) in \<open>simp add: line_ok_def size_defs\<close>)
  have p1: "process_line (peer_arg p) (peer_flag p) ('':SQL END'' @ [NL]) (c\<lparr>sb_sql := Some b2\<rparr>) = Inr (OK, ?c2)"
    using process_sql_end[of "c\<lparr>sb_sql := Some b2\<rparr>" b2] assms(1) by simp
  have p2: "process_line (peer_arg p) (peer_flag p) (('':SET DATABASE '' @ x) @ [NL]) ?c2 =
      Inr (OK, ?c2\<lparr>c_request := (c_request ?c2)\<lparr>sql_database := x\<rparr>\<rparr>)"
    using process_set_database[of ?c2 "peer_arg p" "peer_flag p" x] assms(5)
    by (simp add: copy_string_id)
  from serve_one[OF end_line, of "idle (c\<lparr>sb_sql := Some b2\<rparr>)" p ?c2] p1 obtain i where
    1: "serve_bytes p ('':SQL END'' @ NL # ?tl) (idle (c\<lparr>sb_sql := Some b2\<rparr>)) =
      serve_bytes p ?tl ((idle (c\<lparr>sb_sql := Some b2\<rparr>))\<lparr>serving := ?c2, inbox := i, ended := False\<rparr>)" by auto
  let ?c3 = "?c2\<lparr>c_request := (c_request ?c2)\<lparr>sql_database := x\<rparr>\<rparr>"
  from serve_one[OF set_line, of "(idle (c\<lparr>sb_sql := Some b2\<rparr>))\<lparr>serving := ?c2, inbox := i, ended := False\<rparr>"
      p ?c3] p2 obtain j where
    2: "serve_bytes p ?tl ((idle (c\<lparr>sb_sql := Some b2\<rparr>))\<lparr>serving := ?c2, inbox := i, ended := False\<rparr>) =
      serve_bytes p [] ((idle (c\<lparr>sb_sql := Some b2\<rparr>))\<lparr>serving := ?c3, inbox := j, ended := False\<rparr>)" by auto
  have "serve_bytes p [] s = Some (s\<lparr>unread := []\<rparr>)" for s by (subst serve_bytes.simps) simp
  with 1 2 have "\<exists>s. serve_bytes p ('':SQL END'' @ NL # ?tl) (idle (c\<lparr>sb_sql := Some b2\<rparr>)) = Some s \<and>
      serving s = ?c3" by simp
  then show ?thesis
    using serve_bytes_append[of p "q @ [NL]" "'':SQL END'' @ NL # ?tl" "idle c"] whole
    by (auto simp: session_send_def)
qed

subsection \<open>Samples\<close>

lemma sql_line_ok: "line_ok l \<Longrightarrow> \<not> ends_sql (l @ [NL]) \<Longrightarrow> sql_lines_ok (l @ [NL])"
  using next_piece_line[of l "[]"]
  by (subst sql_lines_ok.simps) (simp add: sql_lines_ok.simps[of "[]"])

lemma reply_line_ok: "line_ok l \<Longrightarrow> \<not> control_line l \<Longrightarrow> reply_lines_ok (l @ [NL])"
  using next_piece_line[of l "[]"]
  by (subst reply_lines_ok.simps) (simp add: reply_lines_ok.simps[of "[]"] chop_line_def)

definition byte_by_byte :: "string \<Rightarrow> string list" where
  "byte_by_byte s = map (\<lambda>c. [c]) s"

lemma byte_by_byte_ok: "frag_ok byte_by_byte"
  by (auto simp: frag_ok_def byte_by_byte_def size_defs)

definition sample_peer :: "memory_db peer" where
  "sample_peer = \<lparr>peer_api = memory_api, peer_pid = 4711, peer_arg = [], peer_flag = []\<rparr>"

definition sample_connector :: "memory_db connector" where
  "sample_connector = \<lparr>c_request = zero_request, timeout_str = [], receive_sql = False,
     sb_sql = None, conn_db = Some 1, conn_connected = True,
     dbstate = ([sample_set], no_set, [])\<rparr>"

definition sample_sent :: "string \<Rightarrow> dbrelay_request" where
  "sample_sent q = zero_request\<lparr>sql_server := ''db1'', sql_user := ''me'', connection_name := ''shared'',
     connection_timeout := 60, sql := Some q\<rparr>"

lemma sample_sendable: "c_string q \<Longrightarrow> sendable (sample_sent q)"
  by (simp add: sendable_def sample_sent_def request_wf_def fits_def zero_request_def size_defs
      list_all_iff)

lemma sample_relayed:
  obtains k where "relayed p r q sample_connector = Inr k" "conn_db k = Some 1"
    "dbstate k = ([sample_set], no_set, [])"
  using relayed_connected[of sample_connector p r q] that by (auto simp: sample_connector_def)

lemma sample_api: "peer_api sample_peer = memory_api"
  by (simp add: sample_peer_def)

lemma sample_text:
  "key_text False ''data'' @ render False 0 (JArr [set_tree sample_set]) =
     [DQ] @ ''data'' @ [DQ] @ '':[{'' @ [DQ] @ ''fields'' @ [DQ] @ '':[{'' @ [DQ] @ ''name'' @ [DQ] @ '':'' @
     [DQ] @ ''1'' @ [DQ] @ '', '' @ [DQ] @ ''sql_type'' @ [DQ] @ '':'' @ [DQ] @ ''int'' @ [DQ] @ '', '' @
     [DQ] @ ''length'' @ [DQ] @ '':4},{'' @ [DQ] @ ''name'' @ [DQ] @ '':'' @ [DQ] @ ''n'' @ [DQ] @ '', '' @
     [DQ] @ ''sql_type'' @ [DQ] @ '':'' @ [DQ] @ ''varchar'' @ [DQ] @ '', '' @ [DQ] @ ''length'' @ [DQ] @
     '':20}], '' @ [DQ] @ ''rows'' @ [DQ] @ '':[{'' @ [DQ] @ ''1'' @ [DQ] @ '':1, '' @ [DQ] @ ''n'' @ [DQ] @
     '':'' @ [DQ, BSL, DQ, DQ] @ ''},{'' @ [DQ] @ ''1'' @ [DQ] @ '':null, '' @ [DQ] @ ''n'' @ [DQ] @ '':'' @
     [DQ] @ ''b'' @ [DQ] @ ''}], '' @ [DQ] @ ''count'' @ [DQ] @ '':2}]''"
  by code_simp

theorem session_returns_results_witness:
  "\<exists>c'. dbrelay_conn_send_request (session_channel sample_peer byte_by_byte)
       (sample_sent ''select 1'') (idle sample_connector) =
     Some (Inr (key_text False ''data'' @ render False 0 (JArr [set_tree sample_set]), 0, idle c'))"
proof -
  let ?q = "''select 1''" and ?r = "sample_sent ''select 1''" and ?d = "([sample_set], no_set, []) :: memory_db"
  let ?t = "key_text False ''data'' @ render False 0 (JArr [set_tree sample_set])"
  have n: "NL \<notin> set ?t" and z: "c_string ?t" and l: "line_ok ?t" and k: "\<not> control_line ?t"
    unfolding sample_text by (simp, simp, simp add: line_ok_def size_defs, simp add: control_line_def)
  have t: "NL \<notin> set ?t" "c_string ?t" "reply_lines_ok (?t @ [NL])"
    by (rule n, rule z, rule reply_line_ok[OF l k])
  have q: "sql_lines_ok (?q @ [NL])"
    by (intro sql_line_ok) (simp_all add: line_ok_def size_defs ends_sql_def strncmp_eq_def)
  have r: "sendable ?r" "sql ?r = Some ?q" "flags ?r = 0" "\<not> flag_set 0 f" for f
    by (simp_all add: sample_sendable) (simp_all add: sample_sent_def zero_request_def flag_set_def)
  have "query_sent memory_api (Some 1) (sql_database ?r) (?q @ [NL]) 0 ?d = Inr (True, ?d)"
    by (simp add: query_sent_def before_query_def exec_if_def r(4)) (simp add: memory_api_def)
  from exec_query_std[OF r(4) this sample_delivers] sample_fits obtain d where
    e: "dbrelay_exec_query memory_api (Some 1) (sql_database ?r) (Some (?q @ [NL])) 0 ?d = Some (Inr (Some ?t, d))"
    by (auto simp: exec_if_def r(4) simp del: render.simps)
  obtain k where k: "relayed sample_peer ?r ?q sample_connector = Inr k" "conn_db k = Some 1" "dbstate k = ?d"
    using sample_relayed by blast
  from k(2) have db: "conn_db k \<noteq> None" by simp
  have rs: "\<not> receive_sql sample_connector" by (simp add: sample_connector_def)
  have f: "filter (\<lambda>c. c \<noteq> NL) ?t = ?t" using n by (intro filter_True) auto
  note session_returns_results[OF byte_by_byte_ok rs r(1,2) q k(1) db _ t(2,3), of d, unfolded sample_api k(2,3) r(3) f]
  with e show ?thesis by blast
qed

lemma session_error_sample:
  "\<exists>c'. dbrelay_conn_send_request (session_channel
       (sample_peer\<lparr>peer_api := memory_api\<lparr>api_exec := (\<lambda>db q d. Inr (False, d))\<rparr>\<rparr>) byte_by_byte)
       (sample_sent ''bad'') (idle sample_connector) = Some (Inr (''refused'', 1, idle c'))"
proof -
  let ?api = "memory_api\<lparr>api_exec := (\<lambda>db q d. Inr (False, d))\<rparr>"
  let ?p = "sample_peer\<lparr>peer_api := ?api\<rparr>"
  let ?q = "''bad''" and ?r = "sample_sent ''bad''" and ?c = "sample_connector"
  have q: "sql_lines_ok (?q @ [NL])" "reply_lines_ok (''refused'' @ [NL])"
    by (intro sql_line_ok reply_line_ok;
        simp add: line_ok_def size_defs ends_sql_def strncmp_eq_def control_line_def)+
  have r: "sendable ?r" "sql ?r = Some ?q" "\<not> flag_set (flags ?r) f" for f
    by (simp_all add: sample_sendable) (simp_all add: sample_sent_def zero_request_def flag_set_def)
  obtain k where k: "relayed ?p ?r ?q ?c = Inr k" "conn_db k = Some 1" using sample_relayed by blast
  have "query_sent ?api (Some 1) (sql_database ?r) (?q @ [NL]) (flags ?r) (dbstate k) = Inr (False, dbstate k)"
    by (simp add: query_sent_def before_query_def exec_if_def r(3)) (simp add: memory_api_def)
  from exec_query_refused[OF this] have e: "dbrelay_exec_query (peer_api ?p) (conn_db k) (sql_database ?r)
      (Some (?q @ [NL])) (flags ?r) (dbstate k) = Some (Inr (None, dbstate k))"
    by (simp add: exec_if_def r(3) k(2))
  have "api_error (peer_api ?p) (conn_db k) (dbstate k) = Inr ''refused''" by (simp add: memory_api_def)
  from session_error[OF byte_by_byte_ok _ r(1,2) q(1) k(1) _ e this _ q(2)] k(2)
  show ?thesis by (auto simp: sample_connector_def)
qed

theorem session_initialize_witness:
  "dbrelay_conn_initialize (session_channel sample_peer byte_by_byte) ''junk'' (idle sample_connector) =
     Some (4711, idle sample_connector)"
  using session_initialize[OF byte_by_byte_ok, of sample_connector sample_peer "''junk''"]
  by (simp add: sample_connector_def sample_peer_def)

theorem sql_text_injects_commands_witness:
  "\<exists>s. session_send sample_peer (''select 1'' @ [NL] @ '':SQL END'' @ [NL] @ '':SET DATABASE '' @ ''other'' @ [NL])
       (idle (sample_connector\<lparr>receive_sql := True, sb_sql := Some (sb_new None)\<rparr>)) = Some (0, s) \<and>
     sql_database (c_request (serving s)) = ''other''"
proof -
  have "sql_lines_ok (''select 1'' @ [NL])"
    by (intro sql_line_ok) (simp_all add: line_ok_def size_defs ends_sql_def strncmp_eq_def)
  from sql_text_injects_commands[OF _ _ this, of "sample_connector\<lparr>receive_sql := True,
      sb_sql := Some (sb_new None)\<rparr>" "sb_new None" "''other''" sample_peer]
  show ?thesis by (auto simp: size_defs)
qed

end
