(* ===== verification/Params.thy ===== *)
theory Params
  imports Request Stringbuf
begin

section \<open>Substituting query parameters (src/db.c)\<close>

text \<open>
  \<^verbatim>\<open>dbrelay_resolve_params\<close> replaces the unquoted question marks of the SQL text by
  the request's parameters. It works on a copy of the text that it cuts in place, so the model
  carries that copy as memory (the bytes and the final NUL) and a position in it. The build's
  \<^verbatim>\<open>DBRELAY_MAGIC\<close> text, from a generated header, is a parameter.
\<close>

subsection \<open>The code\<close>

text \<open>The loop of \<^verbatim>\<open>dbrelay_find_placeholder\<close>; \<open>-1\<close> is "none".\<close>

fun find_loop :: "int \<Rightarrow> bool \<Rightarrow> string \<Rightarrow> int" where
  "find_loop i quoted [] = -1"
| "find_loop i quoted (c # s) =
     (let quoted = (if c = SQ then \<not> quoted else quoted) in
      if \<not> quoted \<and> c = CHR ''?'' then i else find_loop (i + 1) quoted s)"

definition dbrelay_find_placeholder :: "string \<Rightarrow> int" where
  "dbrelay_find_placeholder s = find_loop 0 False s"

text \<open>A parameter is \<open>type:value\<close>. Without a colon, \<^verbatim>\<open>strstr\<close> gives a null pointer.\<close>

definition is_quoted_param :: "string \<Rightarrow> bool result" where
  "is_quoted_param param =
     (if CHR '':'' \<notin> set param then Inl Null_Deref
      else (let tmp = takeWhile (\<lambda>c. c \<noteq> CHR '':'') param in
            Inr (strcasecmp_eq tmp ''char'' \<or> strcasecmp_eq tmp ''varchar'' \<or>
                 strcasecmp_eq tmp ''datetime'' \<or> strcasecmp_eq tmp ''smalldatetime'')))"

text \<open>\<open>strstr(param, ":") + 1\<close>.\<close>

definition param_value :: "string \<Rightarrow> string" where
  "param_value param = tl (dropWhile (\<lambda>c. c \<noteq> CHR '':'') param)"

text \<open>
  The loop over \<^verbatim>\<open>request->params\<close>. With all entries set, the test of the loop reads
  past the array.
\<close>

fun resolve_loop ::
    "string option list \<Rightarrow> char list \<Rightarrow> nat \<Rightarrow> stringbuf \<Rightarrow> (stringbuf \<times> char list \<times> nat) result" where
  "resolve_loop [] tmpsql pos sb = Inl Out_Of_Bounds"
| "resolve_loop (None # ps) tmpsql pos sb = Inr (sb, tmpsql, pos)"
| "resolve_loop (Some p # ps) tmpsql pos sb =
     (let prevpos = pos;
          pos' = int pos + dbrelay_find_placeholder (cstr (drop pos tmpsql))
      in if pos' = -1 then resolve_loop ps tmpsql prevpos sb
         else
           (let tmpsql = tmpsql[nat pos' := NUL];
                sb = sb_append sb (cstr (drop prevpos tmpsql))
            in rbind (is_quoted_param p) (\<lambda>q.
                 let sb = (if q then sb_append sb [SQ] else sb);
                     sb = sb_append sb (param_value p);
                     sb = (if q then sb_append sb [SQ] else sb)
                 in resolve_loop ps tmpsql (nat pos' + 1) sb)))"

definition dbrelay_resolve_params ::
    "string \<Rightarrow> dbrelay_request \<Rightarrow> string \<Rightarrow> string result" where
  "dbrelay_resolve_params magic r s =
     (let sb = sb_new None;
          sb = (if IS_SET magic \<and> \<not> flag_set (flags r) DBRELAY_FLAG_NOMAGIC
                then sb_append sb magic else sb)
      in rbind (resolve_loop (params r) (s @ [NUL]) 0 sb)
           (\<lambda>(sb, tmpsql, pos). Inr (sb_to_char (sb_append sb (cstr (drop pos tmpsql))))))"

subsection \<open>The reference: one pass over the text\<close>

definition param_text :: "string \<Rightarrow> string" where
  "param_text p =
     (if is_quoted_param p = Inr True then [SQ] @ param_value p @ [SQ] else param_value p)"

fun subst_params :: "bool \<Rightarrow> string list \<Rightarrow> string \<Rightarrow> string" where
  "subst_params quoted ps [] = []"
| "subst_params quoted [] s = s"
| "subst_params quoted (p # ps) (c # s) =
     (let quoted = (if c = SQ then \<not> quoted else quoted) in
      if \<not> quoted \<and> c = CHR ''?'' then param_text p @ subst_params quoted ps s
      else c # subst_params quoted (p # ps) s)"

fun placeholders :: "bool \<Rightarrow> string \<Rightarrow> nat" where
  "placeholders quoted [] = 0"
| "placeholders quoted (c # s) =
     (let quoted = (if c = SQ then \<not> quoted else quoted) in
      (if \<not> quoted \<and> c = CHR ''?'' then 1 else 0) + placeholders quoted s)"

text \<open>The text around the first placeholder, and the text after the \<open>n\<close>th.\<close>

fun split_placeholder :: "bool \<Rightarrow> string \<Rightarrow> (string \<times> string) option" where
  "split_placeholder quoted [] = None"
| "split_placeholder quoted (c # s) =
     (let quoted = (if c = SQ then \<not> quoted else quoted) in
      if \<not> quoted \<and> c = CHR ''?'' then Some ([], s)
      else map_option (\<lambda>(a, b). (c # a, b)) (split_placeholder quoted s))"

fun after_placeholders :: "nat \<Rightarrow> string \<Rightarrow> string" where
  "after_placeholders 0 s = s"
| "after_placeholders (Suc n) s =
     (case split_placeholder False s of None \<Rightarrow> s | Some (a, b) \<Rightarrow> after_placeholders n b)"

definition magic_text :: "string \<Rightarrow> dbrelay_request \<Rightarrow> string" where
  "magic_text magic r =
     (if IS_SET magic \<and> \<not> flag_set (flags r) DBRELAY_FLAG_NOMAGIC then magic else [])"

text \<open>The parameters as the code reads them: the entries before the first null one.\<close>

definition has_params :: "dbrelay_request \<Rightarrow> string list \<Rightarrow> bool" where
  "has_params r ps \<longleftrightarrow>
     (\<exists>rest. params r = map Some ps @ None # rest) \<and> (\<forall>p\<in>set ps. CHR '':'' \<in> set p)"

subsection \<open>Finding a placeholder\<close>

lemma find_loop_split:
  "find_loop i q s =
     (case split_placeholder q s of None \<Rightarrow> -1 | Some (a, b) \<Rightarrow> i + int (length a))"
  by (induction s arbitrary: i q) (auto simp: Let_def split: option.splits prod.splits)

lemma find_placeholder_split:
  "dbrelay_find_placeholder s =
     (case split_placeholder False s of None \<Rightarrow> -1 | Some (a, b) \<Rightarrow> int (length a))"
  by (auto simp: dbrelay_find_placeholder_def find_loop_split split: option.splits)

lemma split_placeholder_text:
  "split_placeholder q s = Some (a, b) \<Longrightarrow> s = a @ CHR ''?'' # b"
  by (induction s arbitrary: q a b) (auto simp: Let_def split: if_splits option.splits prod.splits)

lemma split_placeholder_None: "split_placeholder q s = None \<longleftrightarrow> placeholders q s = 0"
  by (induction s arbitrary: q) (auto simp: Let_def)

lemma no_placeholder [simp]: "placeholders q s = 0 \<Longrightarrow> split_placeholder q s = None"
  by (simp add: split_placeholder_None)

lemma is_quoted_param_ok: "CHR '':'' \<in> set p \<Longrightarrow> \<exists>q. is_quoted_param p = Inr q"
  by (simp add: is_quoted_param_def Let_def)

lemma subst_params_Nil [simp]: "subst_params q [] s = s"
  by (cases s) simp_all

lemma subst_split:
  "split_placeholder q s = Some (a, b) \<Longrightarrow>
   subst_params q (p # ps) s = a @ param_text p @ subst_params False ps b \<and>
   placeholders q s = Suc (placeholders False b)"
  by (induction s arbitrary: q a b) (auto simp: Let_def split: if_splits option.splits prod.splits)

subsection \<open>The loop on a suffix of the text\<close>

text \<open>\<open>at mem pos rest\<close>: from \<open>pos\<close> on, the copy still holds \<open>rest\<close> and its NUL.\<close>

definition at :: "char list \<Rightarrow> nat \<Rightarrow> string \<Rightarrow> bool" where
  "at mem pos rest \<longleftrightarrow> drop pos mem = rest @ [NUL] \<and> c_string rest"

lemma at_cstr: "at mem pos rest \<Longrightarrow> cstr (drop pos mem) = rest"
  by (simp add: at_def cstr_terminated)

lemma at_length: "at mem pos rest \<Longrightarrow> length mem = pos + length rest + 1"
proof -
  assume "at mem pos rest"
  then have d: "drop pos mem = rest @ [NUL]" by (simp add: at_def)
  then have "length (drop pos mem) = length rest + 1" by simp
  then show ?thesis by auto
qed

lemma at_cut:
  assumes "at mem pos (a @ CHR ''?'' # b)"
  shows "cstr (drop pos (mem[pos + length a := NUL])) = a"
    and "at (mem[pos + length a := NUL]) (Suc (pos + length a)) b"
proof -
  from assms have d: "drop pos mem = a @ CHR ''?'' # b @ [NUL]"
    and c: "c_string a" "c_string b" by (auto simp: at_def)
  have "drop pos (mem[pos + length a := NUL]) = (drop pos mem)[length a := NUL]"
    by (simp add: drop_update_swap)
  also have "\<dots> = a @ NUL # b @ [NUL]" by (simp add: d)
  finally have cut: "drop pos (mem[pos + length a := NUL]) = a @ NUL # b @ [NUL]" .
  with c show "cstr (drop pos (mem[pos + length a := NUL])) = a" by (simp add: cstr_terminated)
  have "drop (Suc (pos + length a)) (mem[pos + length a := NUL]) =
      drop (Suc (length a)) (drop pos (mem[pos + length a := NUL]))"
    by (simp add: add.commute)
  then show "at (mem[pos + length a := NUL]) (Suc (pos + length a)) b"
    unfolding at_def cut using c by simp
qed

text \<open>One parameter, with a placeholder left for it.\<close>

lemma resolve_loop_step:
  assumes "at mem pos rest" "split_placeholder False rest = Some (a, b)" "CHR '':'' \<in> set p"
  shows "\<exists>mem' sb'. resolve_loop (Some p # ps) mem pos sb =
      resolve_loop ps mem' (Suc (pos + length a)) sb' \<and>
    at mem' (Suc (pos + length a)) b \<and> sb_to_char sb' = sb_to_char sb @ a @ param_text p \<and>
    mem' ! (pos + length a) = NUL"
proof -
  from split_placeholder_text[OF assms(2)] have rest: "rest = a @ CHR ''?'' # b" .
  note cut = at_cut[OF assms(1)[unfolded rest]]
  have find: "dbrelay_find_placeholder (cstr (drop pos mem)) = int (length a)"
    using at_cstr[OF assms(1)] assms(2) by (simp add: find_placeholder_split)
  obtain q where q: "is_quoted_param p = Inr q" using is_quoted_param_ok[OF assms(3)] ..
  let ?sb1 = "sb_append sb a"
  let ?sb2 = "if q then sb_append ?sb1 [SQ] else ?sb1"
  let ?sb3 = "sb_append ?sb2 (param_value p)"
  let ?sb4 = "if q then sb_append ?sb3 [SQ] else ?sb3"
  have "resolve_loop (Some p # ps) mem pos sb =
      resolve_loop ps (mem[pos + length a := NUL]) (Suc (pos + length a)) ?sb4"
    using find q cut(1) by (simp add: Let_def nat_add_distrib)
  moreover have "sb_to_char ?sb4 = sb_to_char sb @ a @ param_text p"
    using q by (simp add: param_text_def)
  moreover have "(mem[pos + length a := NUL]) ! (pos + length a) = NUL"
    using at_length[OF assms(1)] rest by simp
  ultimately show ?thesis using cut(2) by blast
qed

text \<open>Enough placeholders: the loop agrees with the one-pass substitution.\<close>

lemma resolve_loop_prefix:
  assumes "at mem pos rest" "length ps \<le> placeholders False rest" "\<forall>p\<in>set ps. CHR '':'' \<in> set p"
  shows "\<exists>sb' mem' pos'. resolve_loop (map Some ps @ t) mem pos sb = resolve_loop t mem' pos' sb' \<and>
    at mem' pos' (after_placeholders (length ps) rest) \<and>
    sb_to_char sb' @ after_placeholders (length ps) rest = sb_to_char sb @ subst_params False ps rest \<and>
    placeholders False rest = length ps + placeholders False (after_placeholders (length ps) rest) \<and>
    (if ps = [] then pos' = pos \<and> mem' = mem else 0 < pos' \<and> mem' ! (pos' - 1) = NUL)"
  using assms
proof (induction ps arbitrary: mem pos rest sb)
  case Nil
  then show ?case by auto
next
  case (Cons p ps)
  from Cons.prems(2) obtain a b where s: "split_placeholder False rest = Some (a, b)"
    by (cases "split_placeholder False rest") (auto simp: split_placeholder_None)
  from resolve_loop_step[OF Cons.prems(1) s, of p "map Some ps @ t" sb] Cons.prems(3)
  obtain mem' sb' where step:
    "resolve_loop (Some p # map Some ps @ t) mem pos sb =
      resolve_loop (map Some ps @ t) mem' (Suc (pos + length a)) sb'"
    "at mem' (Suc (pos + length a)) b" "sb_to_char sb' = sb_to_char sb @ a @ param_text p"
    "mem' ! (pos + length a) = NUL" by auto
  from subst_split[OF s] Cons.prems(2) have "length ps \<le> placeholders False b" by simp
  from Cons.IH[OF step(2) this, of sb'] Cons.prems(3) obtain sb2 mem2 pos2 where ih:
    "resolve_loop (map Some ps @ t) mem' (Suc (pos + length a)) sb' = resolve_loop t mem2 pos2 sb2"
    "at mem2 pos2 (after_placeholders (length ps) b)"
    "sb_to_char sb2 @ after_placeholders (length ps) b = sb_to_char sb' @ subst_params False ps b"
    "placeholders False b = length ps + placeholders False (after_placeholders (length ps) b)"
    "if ps = [] then pos2 = Suc (pos + length a) \<and> mem2 = mem'
     else 0 < pos2 \<and> mem2 ! (pos2 - 1) = NUL" by (simp only: list.set) blast
  have "0 < pos2 \<and> mem2 ! (pos2 - 1) = NUL" using ih(5) step(4) by (cases "ps = []") auto
  with ih(1-4) step(1,3) subst_split[OF s, of p ps] s show ?case
    by (intro exI[of _ sb2] exI[of _ mem2] exI[of _ pos2]) (simp del: resolve_loop.simps)
qed

text \<open>No placeholder left, but one was found before: every further parameter repeats the text.\<close>

lemma resolve_loop_extra:
  assumes "at mem (Suc pos) rest" "placeholders False rest = 0" "\<forall>p\<in>set ps. CHR '':'' \<in> set p"
    and "mem ! pos = NUL"
  shows "\<exists>sb' mem' pos'. resolve_loop (map Some ps @ None # t) mem (Suc pos) sb = Inr (sb', mem', pos') \<and>
    sb_to_char sb' @ cstr (drop pos' mem') =
      sb_to_char sb @ concat (map (\<lambda>p. rest @ param_text p) ps) @ rest"
  using assms
proof (induction ps arbitrary: sb)
  case Nil
  then show ?case by (simp add: at_cstr)
next
  case (Cons p ps)
  have find: "dbrelay_find_placeholder (cstr (drop (Suc pos) mem)) = -1"
    using at_cstr[OF Cons.prems(1)] Cons.prems(2) by (simp add: find_placeholder_split)
  have same: "mem[pos := NUL] = mem" using Cons.prems(4) by (metis list_update_id)
  obtain q where q: "is_quoted_param p = Inr q" using is_quoted_param_ok Cons.prems(3) by auto
  let ?sb1 = "sb_append sb rest"
  let ?sb2 = "if q then sb_append ?sb1 [SQ] else ?sb1"
  let ?sb3 = "sb_append ?sb2 (param_value p)"
  let ?sb4 = "if q then sb_append ?sb3 [SQ] else ?sb3"
  have "resolve_loop (Some p # map Some ps @ None # t) mem (Suc pos) sb =
      resolve_loop (map Some ps @ None # t) mem (Suc pos) ?sb4"
    using find q at_cstr[OF Cons.prems(1)] same by (simp add: Let_def)
  moreover have "sb_to_char ?sb4 = sb_to_char sb @ rest @ param_text p"
    using q by (simp add: param_text_def)
  ultimately show ?case using Cons.IH[of ?sb4] Cons.prems by simp
qed

text \<open>No placeholder at all: every parameter is ignored.\<close>

lemma resolve_loop_none:
  assumes "at mem 0 rest" "placeholders False rest = 0"
  shows "resolve_loop (map Some ps @ None # t) mem 0 sb = Inr (sb, mem, 0)"
  using at_cstr[OF assms(1)] assms(2)
  by (induction ps) (auto simp: find_placeholder_split Let_def)

text \<open>What is left after the placeholders that were used is the tail of the result.\<close>

lemma subst_params_none: "placeholders b u = 0 \<Longrightarrow> subst_params b qs u = u"
  by (cases qs; induction u arbitrary: b) (auto simp: Let_def split: if_splits)

lemma subst_params_suffix:
  "\<exists>before. subst_params False qs u = before @ after_placeholders (length qs) u"
proof (induction qs arbitrary: u)
  case Nil
  then show ?case by simp
next
  case (Cons q qs)
  show ?case
  proof (cases "split_placeholder False u")
    case None
    then have "subst_params False (q # qs) u = u"
      by (simp add: split_placeholder_None subst_params_none)
    with None show ?thesis by simp
  next
    case (Some ab)
    then obtain a b where ab: "split_placeholder False u = Some (a, b)" by (cases ab) auto
    from Cons.IH[of b] obtain before where
      "subst_params False qs b = before @ after_placeholders (length qs) b" ..
    with subst_split[OF ab, of q qs] ab show ?thesis by auto
  qed
qed

subsection \<open>The result of the substitution\<close>

lemma at_start: "c_string s \<Longrightarrow> at (s @ [NUL]) 0 s"
  by (simp add: at_def)

definition start_buf :: "string \<Rightarrow> dbrelay_request \<Rightarrow> stringbuf" where
  "start_buf magic r =
     (if IS_SET magic \<and> \<not> flag_set (flags r) DBRELAY_FLAG_NOMAGIC
      then sb_append (sb_new None) magic else sb_new None)"

lemma resolve_params_unfold:
  "dbrelay_resolve_params magic r s =
     rbind (resolve_loop (params r) (s @ [NUL]) 0 (start_buf magic r))
       (\<lambda>(sb, tmpsql, pos). Inr (sb_to_char sb @ cstr (drop pos tmpsql)))"
  by (simp add: dbrelay_resolve_params_def start_buf_def Let_def)

lemma start_buf_text [simp]: "sb_to_char (start_buf magic r) = magic_text magic r"
  by (simp add: start_buf_def magic_text_def)

text \<open>C6.
  A query with at least as many placeholders as there are parameters gets each parameter in the
  place of its question mark, in order and quoted when its type asks for it; question marks in
  quoted text and those left over stay as they are, and the magic prefix comes first.
\<close>

theorem resolve_params_substitutes:
  assumes "has_params r ps" "c_string s" "length ps \<le> placeholders False s"
  shows "dbrelay_resolve_params magic r s =
    Inr (magic_text magic r @ subst_params False ps s)"
proof -
  from assms(1) obtain t where t: "params r = map Some ps @ None # t"
    and col: "\<forall>p\<in>set ps. CHR '':'' \<in> set p" by (auto simp: has_params_def)
  from resolve_loop_prefix[OF at_start[OF assms(2)] assms(3) col, of "None # t" "start_buf magic r"] t
  show ?thesis by (auto simp: resolve_params_unfold dest: at_cstr)
qed

text \<open>A query without placeholders is sent as it is, whatever parameters come with it, typed or not.
\<close>

theorem resolve_params_no_placeholder:
  assumes "params r = map Some ps @ None # t" "c_string s" "placeholders False s = 0"
  shows "dbrelay_resolve_params magic r s = Inr (magic_text magic r @ s)"
  using assms(1) resolve_loop_none[OF at_start[OF assms(2)] assms(3)]
  by (simp add: resolve_params_unfold at_cstr[OF at_start[OF assms(2)], simplified])

text \<open>Parameters beyond the placeholders of a query that has some are not ignored: each of them
  appends the text after the last placeholder once more, followed by its own value.
\<close>

theorem resolve_params_extra_repeats_text:
  assumes "has_params r (ps @ extra)" "c_string s"
    and "ps \<noteq> []" "placeholders False s = length ps"
    and "rest = after_placeholders (length ps) s"
  shows "\<exists>before. subst_params False ps s = before @ rest \<and>
    dbrelay_resolve_params magic r s =
      Inr (magic_text magic r @ before @ concat (map (\<lambda>p. rest @ param_text p) extra) @ rest)"
proof -
  from assms(1) obtain t where t: "params r = map Some ps @ map Some extra @ None # t"
    and col: "\<forall>p\<in>set ps. CHR '':'' \<in> set p" "\<forall>p\<in>set extra. CHR '':'' \<in> set p"
    by (auto simp: has_params_def)
  from resolve_loop_prefix[OF at_start[OF assms(2)] _ col(1), of "map Some extra @ None # t" "start_buf magic r"]
    assms(3-5) obtain sb mem pos where
    l: "resolve_loop (map Some ps @ map Some extra @ None # t) (s @ [NUL]) 0 (start_buf magic r) =
        resolve_loop (map Some extra @ None # t) mem pos sb" "at mem pos rest"
      "sb_to_char sb @ rest = magic_text magic r @ subst_params False ps s"
      "placeholders False rest = 0" "0 < pos" "mem ! (pos - 1) = NUL" by auto
  from l(5) obtain i where i: "pos = Suc i" by (cases pos) auto
  from resolve_loop_extra[of mem i rest extra t sb] l i col(2) t have
    res: "dbrelay_resolve_params magic r s =
      Inr (sb_to_char sb @ concat (map (\<lambda>p. rest @ param_text p) extra) @ rest)"
    by (auto simp: resolve_params_unfold)
  from subst_params_suffix[of ps s] assms(5) obtain before where
    before: "subst_params False ps s = before @ rest" by auto
  with l(3) have "sb_to_char sb = magic_text magic r @ before" by (simp flip: append_assoc)
  with res before show ?thesis by auto
qed

subsection \<open>Samples\<close>

definition sample_params :: "string list \<Rightarrow> dbrelay_request" where
  "sample_params ps = zero_request\<lparr>params := map Some ps @ replicate (100 - length ps) None\<rparr>"

lemma sample_has_params:
  "length ps < 100 \<Longrightarrow> \<forall>p\<in>set ps. CHR '':'' \<in> set p \<Longrightarrow> has_params (sample_params ps) ps"
proof -
  assume "length ps < 100"
  then obtain n where "100 - length ps = Suc n" by (cases "100 - length ps") auto
  then show "\<forall>p\<in>set ps. CHR '':'' \<in> set p \<Longrightarrow> has_params (sample_params ps) ps"
    by (simp add: has_params_def sample_params_def)
qed

theorem resolve_params_substitutes_witness:
  "dbrelay_resolve_params ''-- m '' (sample_params [''int:5'', ''varchar:it''])
     (''select ? where n = '' @ [SQ, CHR ''?'', SQ] @ '' and m = ?'') =
   Inr (magic_text ''-- m '' (sample_params [''int:5'', ''varchar:it'']) @
     ''select 5 where n = '' @ [SQ, CHR ''?'', SQ] @ '' and m = '' @ [SQ] @ ''it'' @ [SQ])"
proof -
  have "subst_params False [''int:5'', ''varchar:it'']
        (''select ? where n = '' @ [SQ, CHR ''?'', SQ] @ '' and m = ?'') =
      ''select 5 where n = '' @ [SQ, CHR ''?'', SQ] @ '' and m = '' @ [SQ] @ ''it'' @ [SQ]"
    by code_simp
  moreover have "length [''int:5'', ''varchar:it''] \<le>
      placeholders False (''select ? where n = '' @ [SQ, CHR ''?'', SQ] @ '' and m = ?'')"
    by code_simp
  ultimately show ?thesis
    using resolve_params_substitutes[OF sample_has_params, of "[''int:5'', ''varchar:it'']"
        "''select ? where n = '' @ [SQ, CHR ''?'', SQ] @ '' and m = ?''" "''-- m ''"] by simp
qed

theorem resolve_params_no_placeholder_witness:
  "dbrelay_resolve_params [] (sample_params [''int:5'']) ''select 1'' =
     Inr (magic_text [] (sample_params [''int:5'']) @ ''select 1'')"
  by (rule resolve_params_no_placeholder[of _ "[''int:5'']" "replicate 98 None"])
    (simp_all add: sample_params_def numeral_eq_Suc)

theorem resolve_params_extra_repeats_text_witness:
  "dbrelay_resolve_params [] (sample_params [''int:5'', ''int:6'']) ''where a = ? and b'' =
     Inr ''where a = 5 and b6 and b''"
proof -
  have "subst_params False [''int:5''] ''where a = ? and b'' = ''where a = 5 and b''"
    "after_placeholders 1 ''where a = ? and b'' = '' and b''"
    "placeholders False ''where a = ? and b'' = 1" "param_text ''int:6'' = ''6''" by code_simp+
  then show ?thesis
    using resolve_params_extra_repeats_text[of "sample_params [''int:5'', ''int:6'']" "[''int:5'']"
        "[''int:6'']" "''where a = ? and b''" "'' and b''" "[]"]
      sample_has_params[of "[''int:5'', ''int:6'']"]
    by (auto simp: magic_text_def)
qed

end
