(* ===== verification/Pool.thy ===== *)
theory Pool
  imports Request
begin

section \<open>The shared connection table (src/db.c)\<close>

text \<open>
  The table of \<^const>\<open>DBRELAY_MAX_CONN\<close> connections in shared memory and the functions of
  src/db.c that find, allocate, reap and release its slots. Each function runs between
  attaching and releasing the segment, under the semaphore (theory \<open>Shmem\<close>), so each is one
  step on the table. What comes from outside (the clock, the process id, whether a process is
  dead, the driver's connect, \<^verbatim>\<open>tmpnam\<close>) is the record \<open>pool_env\<close>; what goes outside
  (closing a database handle, detaching a request, launching a connector) is a list of events.
\<close>

record dbrelay_connection =
  c_sql_server :: string
  c_sql_port :: string
  c_sql_database :: string
  c_sql_user :: string
  c_sql_password :: string
  c_connection_name :: string
  c_connection_timeout :: int
  tm_create :: int
  tm_accessed :: int
  in_use :: "32 word"
  slot :: nat
  pid :: int
  helper_pid :: int
  c_sock_path :: string
  db :: "nat option"

definition zero_conn :: dbrelay_connection where
  "zero_conn = \<lparr>c_sql_server = [], c_sql_port = [], c_sql_database = [], c_sql_user = [],
     c_sql_password = [], c_connection_name = [], c_connection_timeout = 0, tm_create = 0,
     tm_accessed = 0, in_use = 0, slot = 0, pid = 0, helper_pid = 0, c_sock_path = [],
     db = None\<rparr>"

datatype pool_event =
    Opened nat           \<comment> \<open>the driver's connect returned this handle\<close>
  | Close_Db nat         \<comment> \<open>\<^verbatim>\<open>api->close(db)\<close>\<close>
  | Detach_Request nat   \<comment> \<open>\<^verbatim>\<open>api->assign_request(db, NULL)\<close>\<close>
  | Launch string        \<comment> \<open>\<^verbatim>\<open>dbrelay_conn_launch_connector(sock_path)\<close>\<close>

text \<open>
  \<open>db_connect\<close> is the handle that \<open>api->init(); api->connect(request)\<close> gave, null for a failed
  login. The driver is not known here: \<open>Run_Query\<close> calls it, and puts its handle in.
\<close>

record pool_env =
  now :: int
  self_pid :: int
  dead :: "int \<Rightarrow> bool"
  db_connect :: "dbrelay_request \<Rightarrow> nat option"
  tmp_name :: "string option"

type_synonym table = "dbrelay_connection list"

subsection \<open>Filling and clearing a slot\<close>

text \<open>
  \<^verbatim>\<open>dbrelay_db_populate_connection\<close>. It also gives the request a default timeout. The
  copy of the request's \<^verbatim>\<open>sock_path\<close> (256 bytes) into the connection's (101 bytes) is
  not checked by the code.
\<close>

definition copy_params :: "dbrelay_request \<Rightarrow> dbrelay_connection \<Rightarrow> dbrelay_connection" where
  "copy_params r c = c\<lparr>
     c_sql_server := (if IS_SET (sql_server r) then sql_server r else c_sql_server c),
     c_sql_port := (if IS_SET (sql_port r) then sql_port r else c_sql_port c),
     c_sql_user := (if IS_SET (sql_user r) then sql_user r else c_sql_user c),
     c_sql_password := (if IS_SET (sql_password r) then sql_password r else c_sql_password c),
     c_sql_database := (if IS_SET (sql_database r) then sql_database r else c_sql_database c),
     c_connection_name :=
       (if IS_SET (connection_name r) then connection_name r else c_connection_name c)\<rparr>"

definition mark_used :: "pool_env \<Rightarrow> dbrelay_connection \<Rightarrow> dbrelay_connection" where
  "mark_used env c = c\<lparr>tm_create := now env, tm_accessed := now env,
     in_use := in_use c + 1, pid := self_pid env\<rparr>"

definition default_timeout :: "dbrelay_request \<Rightarrow> dbrelay_request" where
  "default_timeout r = (if connection_timeout r = 0 then r\<lparr>connection_timeout := 60\<rparr> else r)"

definition dbrelay_db_populate_connection ::
    "pool_env \<Rightarrow> dbrelay_request \<Rightarrow> nat option \<Rightarrow>
     (dbrelay_request \<times> dbrelay_connection \<times> pool_event list) result" where
  "dbrelay_db_populate_connection env r dbconn =
     (let c = copy_params r zero_conn;
          r = default_timeout r;
          c = c\<lparr>c_connection_timeout := connection_timeout r\<rparr>
      in if IS_SET (connection_name r) then
           (if IS_SET (sock_path r) then
              (if length (sock_path r) < DBRELAY_NAME_SZ
               then Inr (r, mark_used env (c\<lparr>c_sock_path := sock_path r\<rparr>), [])
               else Inl Buffer_Overflow)
            else (case tmp_name env of
                    None \<Rightarrow> Inr (r, c, [])
                  | Some path \<Rightarrow>
                      Inr (r, mark_used env (c\<lparr>c_sock_path := path\<rparr>), [Launch path])))
         else Inr (r, mark_used env (c\<lparr>db := dbconn\<rparr>), []))"

definition dbrelay_db_zero_connection :: "dbrelay_connection \<Rightarrow> dbrelay_connection" where
  "dbrelay_db_zero_connection c = c\<lparr>pid := 0, c_sql_server := [], c_sql_user := [],
     c_sql_database := [], c_sql_port := [], c_sql_password := [], c_connection_name := [],
     in_use := 0\<rparr>"

text \<open>The null test of \<^verbatim>\<open>dbrelay_db_close_connection\<close> is for a slot that always exists.\<close>

definition dbrelay_db_close_connection ::
    "dbrelay_connection \<Rightarrow> dbrelay_connection \<times> pool_event list" where
  "dbrelay_db_close_connection c =
     (dbrelay_db_zero_connection c, case db c of None \<Rightarrow> [] | Some d \<Rightarrow> [Close_Db d])"

subsection \<open>Allocating a slot\<close>

text \<open>The scan for a free slot; \<open>None\<close> is the C value \<open>-1\<close>.\<close>

fun free_slot :: "table \<Rightarrow> nat \<Rightarrow> nat option" where
  "free_slot [] i = None"
| "free_slot (c # cs) i = (if pid c = 0 then Some i else free_slot cs (i + 1))"

definition dbrelay_db_alloc_connection ::
    "pool_env \<Rightarrow> dbrelay_request \<Rightarrow> table \<Rightarrow>
     (dbrelay_request \<times> table \<times> nat option \<times> pool_event list) result" where
  "dbrelay_db_alloc_connection env r t =
     (let dbconn = (if \<not> IS_SET (connection_name r) then db_connect env r else None);
          opened = (case dbconn of None \<Rightarrow> [] | Some d \<Rightarrow> [Opened d])
      in case free_slot t 0 of
           None \<Rightarrow> Inr (r, t, None, opened @ (case dbconn of None \<Rightarrow> [] | Some d \<Rightarrow> [Close_Db d]))
         | Some i \<Rightarrow>
             rbind (dbrelay_db_populate_connection env r dbconn) (\<lambda>(r, c, ev).
               Inr (r, t[i := c\<lparr>slot := i\<rparr>], Some i, opened @ ev)))"

subsection \<open>Finding a connection to share\<close>

definition match_str :: "string \<Rightarrow> string \<Rightarrow> bool" where
  "match_str s1 s2 =
     (if IS_EMPTY s1 \<and> IS_EMPTY s2 then True
      else if s1 = s2 then True
      else False)"

definition dbrelay_db_match :: "dbrelay_connection \<Rightarrow> dbrelay_request \<Rightarrow> bool" where
  "dbrelay_db_match c r =
     (match_str (c_sql_server c) (sql_server r) \<and>
      match_str (c_sql_port c) (sql_port r) \<and>
      match_str (c_sql_database c) (sql_database r) \<and>
      match_str (c_sql_user c) (sql_user r) \<and>
      match_str (c_sql_password c) (sql_password r) \<and>
      match_str (c_connection_name c) (connection_name r))"

fun match_slot :: "dbrelay_request \<Rightarrow> table \<Rightarrow> nat \<Rightarrow> nat option" where
  "match_slot r [] i = None"
| "match_slot r (c # cs) i =
     (if pid c \<noteq> 0 \<and> dbrelay_db_match c r then Some i else match_slot r cs (i + 1))"

definition dbrelay_db_find_connection ::
    "pool_env \<Rightarrow> dbrelay_request \<Rightarrow> table \<Rightarrow> table \<times> nat option" where
  "dbrelay_db_find_connection env r t =
     (case match_slot r t 0 of
        None \<Rightarrow> (t, None)
      | Some i \<Rightarrow>
          (t[i := (t ! i)\<lparr>in_use := in_use (t ! i) + 1, tm_accessed := now env\<rparr>], Some i))"

subsection \<open>Reaping and releasing\<close>

text \<open>The body of the loop of \<^verbatim>\<open>dbrelay_db_close_connections\<close>, for one slot.\<close>

definition reap_slot :: "pool_env \<Rightarrow> dbrelay_connection \<Rightarrow> dbrelay_connection \<times> pool_event list" where
  "reap_slot env c =
     (let c = (if pid c \<noteq> 0 \<and> \<not> IS_SET (c_connection_name c) \<and> dead env (pid c)
               then dbrelay_db_zero_connection c else c)
      in if pid c = 0 then (c, [])
         else if tm_accessed c + DBRELAY_HARD_TIMEOUT < now env then dbrelay_db_close_connection c
         else if in_use c \<noteq> 0 then (c, [])
         else if tm_accessed c + c_connection_timeout c < now env then dbrelay_db_close_connection c
         else (c, []))"

fun dbrelay_db_close_connections :: "pool_env \<Rightarrow> table \<Rightarrow> table \<times> pool_event list" where
  "dbrelay_db_close_connections env [] = ([], [])"
| "dbrelay_db_close_connections env (c # cs) =
     (let (c', ev) = reap_slot env c;
          (cs', evs) = dbrelay_db_close_connections env cs
      in (c' # cs', ev @ evs))"

definition dbrelay_db_free_connection ::
    "dbrelay_connection \<Rightarrow> dbrelay_connection \<times> pool_event list" where
  "dbrelay_db_free_connection c =
     (let c = c\<lparr>in_use := in_use c - 1\<rparr>
      in if IS_EMPTY (c_connection_name c) then
           (let ev = (case db c of None \<Rightarrow> [] | Some d \<Rightarrow> [Detach_Request d]);
                (c, ev') = dbrelay_db_close_connection c
            in (c, ev @ ev'))
         else (c, []))"

text \<open>The end of \<^verbatim>\<open>dbrelay_db_run_query\<close>: the slot is stamped and released.\<close>

definition release_slot ::
    "pool_env \<Rightarrow> nat \<Rightarrow> table \<Rightarrow> table \<times> pool_event list" where
  "release_slot env i t =
     (let c = (t ! i)\<lparr>tm_accessed := now env\<rparr>;
          (c, ev) = dbrelay_db_free_connection c
      in (t[i := c], ev))"

text \<open>
  The clock moves on while a connection is found or opened, so the sweep at the end has an
  environment of its own. Between the calls the segment is unlocked, and the steps of other
  processes (\<open>pool_step\<close> below) may come in between.
\<close>

definition dbrelay_db_get_connection ::
    "pool_env \<Rightarrow> pool_env \<Rightarrow> dbrelay_request \<Rightarrow> table \<Rightarrow>
     (dbrelay_request \<times> table \<times> nat option \<times> pool_event list) result" where
  "dbrelay_db_get_connection env env' r t =
     (let got =
        (if IS_EMPTY (connection_name r) then dbrelay_db_alloc_connection env r t
         else (case dbrelay_db_find_connection env r t of
                 (t', Some i) \<Rightarrow> Inr (r, t', Some i, [])
               | (t', None) \<Rightarrow> dbrelay_db_alloc_connection env r t'))
      in rbind got (\<lambda>(r, t, s, ev).
           let (t, ev') = dbrelay_db_close_connections env' t in Inr (r, t, s, ev @ ev')))"

subsection \<open>The table invariant\<close>

text \<open>A slot in use knows its own number; a free slot carries no names and no users.\<close>

definition slot_ok :: "nat \<Rightarrow> dbrelay_connection \<Rightarrow> bool" where
  "slot_ok i c \<longleftrightarrow>
     fits DBRELAY_NAME_SZ (c_sql_server c) \<and> fits 6 (c_sql_port c) \<and>
     fits DBRELAY_OBJ_SZ (c_sql_database c) \<and> fits DBRELAY_OBJ_SZ (c_sql_user c) \<and>
     fits DBRELAY_OBJ_SZ (c_sql_password c) \<and> fits DBRELAY_NAME_SZ (c_connection_name c) \<and>
     fits DBRELAY_NAME_SZ (c_sock_path c) \<and>
     (pid c \<noteq> 0 \<longrightarrow> slot c = i)"

definition table_wf :: "table \<Rightarrow> bool" where
  "table_wf t \<longleftrightarrow> length t = DBRELAY_MAX_CONN \<and> (\<forall>i<length t. slot_ok i (t ! i))"

text \<open>The initial table of \<^verbatim>\<open>dbrelay_create_shmem\<close>: all zero bytes.\<close>

definition empty_table :: table where
  "empty_table = replicate DBRELAY_MAX_CONN zero_conn"

definition env_ok :: "pool_env \<Rightarrow> bool" where
  "env_ok env \<longleftrightarrow> self_pid env \<noteq> 0 \<and> \<not> dead env (self_pid env) \<and>
     pred_option (fits DBRELAY_NAME_SZ) (tmp_name env)"

lemma match_str_eq [simp]: "match_str a b \<longleftrightarrow> a = b"
  by (auto simp: match_str_def)

lemma zero_connection_simps [simp]:
  "pid (dbrelay_db_zero_connection c) = 0" "in_use (dbrelay_db_zero_connection c) = 0"
  "db (dbrelay_db_zero_connection c) = db c"
  by (simp_all add: dbrelay_db_zero_connection_def)

lemma fits_Nil [simp]: "0 < n \<Longrightarrow> fits n []"
  by (simp add: fits_def)

lemma slot_ok_zero: "slot_ok i c \<Longrightarrow> slot_ok i (dbrelay_db_zero_connection c)"
  by (simp add: slot_ok_def dbrelay_db_zero_connection_def size_defs)

lemma slot_ok_reap: "slot_ok i c \<Longrightarrow> slot_ok i (fst (reap_slot env c))"
  by (simp add: reap_slot_def Let_def dbrelay_db_close_connection_def slot_ok_zero)

lemma slot_ok_free: "slot_ok i c \<Longrightarrow> slot_ok i (fst (dbrelay_db_free_connection c))"
  by (simp add: dbrelay_db_free_connection_def Let_def dbrelay_db_close_connection_def slot_ok_def
      dbrelay_db_zero_connection_def size_defs)

lemma close_connections_map:
  "fst (dbrelay_db_close_connections env t) = map (\<lambda>c. fst (reap_slot env c)) t"
  "snd (dbrelay_db_close_connections env t) = concat (map (\<lambda>c. snd (reap_slot env c)) t)"
  by (induction t) (auto simp: Let_def split: prod.splits)

lemma empty_table_wf: "table_wf empty_table"
  by (simp add: table_wf_def empty_table_def slot_ok_def zero_conn_def size_defs)

lemma table_wf_update:
  "table_wf t \<Longrightarrow> slot_ok i c \<Longrightarrow> table_wf (t[i := c])"
  unfolding table_wf_def by (metis length_list_update nth_list_update_eq nth_list_update_neq)

lemma table_wf_reap: "table_wf t \<Longrightarrow> table_wf (fst (dbrelay_db_close_connections env t))"
  by (simp add: table_wf_def close_connections_map slot_ok_reap)

lemma free_slot_shift: "free_slot t (Suc i) = map_option Suc (free_slot t i)"
  by (induction t arbitrary: i) auto

lemma free_slot_Some:
  "free_slot t 0 = Some j \<Longrightarrow> j < length t \<and> pid (t ! j) = 0 \<and> (\<forall>k<j. pid (t ! k) \<noteq> 0)"
  by (induction t arbitrary: j)
    (auto simp: free_slot_shift nth_Cons' split: if_splits)

lemma free_slot_None: "free_slot t i = None \<longleftrightarrow> (\<forall>c\<in>set t. pid c \<noteq> 0)"
  by (induction t arbitrary: i) auto

lemma match_slot_shift: "match_slot r t (Suc i) = map_option Suc (match_slot r t i)"
  by (induction t arbitrary: i) auto

lemma match_slot_Some:
  "match_slot r t 0 = Some j \<Longrightarrow>
     j < length t \<and> pid (t ! j) \<noteq> 0 \<and> dbrelay_db_match (t ! j) r \<and>
     (\<forall>k<j. pid (t ! k) \<noteq> 0 \<longrightarrow> \<not> dbrelay_db_match (t ! k) r)"
  by (induction t arbitrary: j)
    (auto simp: match_slot_shift nth_Cons' split: if_splits)

lemma match_slot_None:
  "match_slot r t i = None \<longleftrightarrow> (\<forall>c\<in>set t. pid c = 0 \<or> \<not> dbrelay_db_match c r)"
  by (induction t arbitrary: i) auto

lemma copy_params_zero:
  "copy_params r zero_conn = \<lparr>c_sql_server = sql_server r, c_sql_port = sql_port r,
     c_sql_database = sql_database r, c_sql_user = sql_user r, c_sql_password = sql_password r,
     c_connection_name = connection_name r, c_connection_timeout = 0, tm_create = 0,
     tm_accessed = 0, in_use = 0, slot = 0, pid = 0, helper_pid = 0, c_sock_path = [],
     db = None\<rparr>"
  by (simp add: copy_params_def zero_conn_def)

lemma default_timeout_simps [simp]:
  "sock_path (default_timeout r) = sock_path r"
  "connection_name (default_timeout r) = connection_name r"
  "connection_timeout (default_timeout r) =
     (if connection_timeout r = 0 then 60 else connection_timeout r)"
  by (simp_all add: default_timeout_def)

lemma populate_cases:
  assumes "dbrelay_db_populate_connection env r d = Inr (r', c, ev)"
  obtains (given) "connection_name r \<noteq> []" "sock_path r \<noteq> []"
      "length (sock_path r) < DBRELAY_NAME_SZ" "ev = []" "r' = default_timeout r"
      "c = mark_used env ((copy_params r zero_conn)
         \<lparr>c_connection_timeout := connection_timeout r', c_sock_path := sock_path r\<rparr>)"
  | (no_tmp) "connection_name r \<noteq> []" "sock_path r = []" "tmp_name env = None" "ev = []"
      "r' = default_timeout r"
      "c = (copy_params r zero_conn)\<lparr>c_connection_timeout := connection_timeout r'\<rparr>"
  | (launch) path where "connection_name r \<noteq> []" "sock_path r = []" "tmp_name env = Some path"
      "ev = [Launch path]" "r' = default_timeout r"
      "c = mark_used env ((copy_params r zero_conn)
         \<lparr>c_connection_timeout := connection_timeout r', c_sock_path := path\<rparr>)"
  | (unnamed) "connection_name r = []" "ev = []" "r' = default_timeout r"
      "c = mark_used env ((copy_params r zero_conn)
         \<lparr>c_connection_timeout := connection_timeout r', db := d\<rparr>)"
  using assms
  by (auto simp: dbrelay_db_populate_connection_def Let_def split: if_splits option.splits)

lemma populate_slot_ok:
  assumes "dbrelay_db_populate_connection env r d = Inr (r', c, ev)" "request_wf r" "env_ok env"
  shows "slot_ok i (c\<lparr>slot := i\<rparr>)"
  using assms(1)
  by (cases rule: populate_cases)
    (use assms(2,3) in \<open>simp_all add: copy_params_zero mark_used_def slot_ok_def
      request_wf_def env_ok_def fits_def size_defs\<close>)

lemma alloc_cases:
  assumes "dbrelay_db_alloc_connection env r t = Inr (r', t', s, ev)"
  obtains (full) "free_slot t 0 = None" "s = None" "t' = t" "r' = r"
  | (slot) i c ev' where "free_slot t 0 = Some i" "s = Some i" "t' = t[i := c\<lparr>slot := i\<rparr>]"
      "dbrelay_db_populate_connection env r
         (if \<not> IS_SET (connection_name r) then db_connect env r else None) = Inr (r', c, ev')"
  using assms
  by (cases "free_slot t 0")
    (auto simp: dbrelay_db_alloc_connection_def Let_def rbind_eq_Inr_iff)

lemma alloc_wf:
  assumes "dbrelay_db_alloc_connection env r t = Inr (r', t', s, ev)"
    and "table_wf t" "request_wf r" "env_ok env"
  shows "table_wf t'"
  using assms(1)
proof (cases rule: alloc_cases)
  case full
  with assms(2) show ?thesis by simp
next
  case (slot i c ev')
  from slot(3) table_wf_update[OF assms(2) populate_slot_ok[OF slot(4) assms(3,4)]]
  show ?thesis by simp
qed

lemma find_wf: "table_wf t \<Longrightarrow> table_wf (fst (dbrelay_db_find_connection env r t))"
proof (cases "match_slot r t 0")
  case None
  then show "table_wf t \<Longrightarrow> ?thesis" by (simp add: dbrelay_db_find_connection_def)
next
  case (Some i)
  assume wf: "table_wf t"
  from match_slot_Some[OF Some] wf have "slot_ok i (t ! i)" by (simp add: table_wf_def)
  then have "slot_ok i ((t ! i)\<lparr>in_use := in_use (t ! i) + 1, tm_accessed := now env\<rparr>)"
    by (simp add: slot_ok_def)
  with wf Some show ?thesis by (simp add: dbrelay_db_find_connection_def table_wf_update)
qed

lemma release_slot_fst:
  "fst (release_slot env i t) =
     t[i := fst (dbrelay_db_free_connection ((t ! i)\<lparr>tm_accessed := now env\<rparr>))]"
  by (simp add: release_slot_def Let_def case_prod_beta)

lemma release_wf: "table_wf t \<Longrightarrow> i < length t \<Longrightarrow> table_wf (fst (release_slot env i t))"
proof -
  assume wf: "table_wf t" "i < length t"
  then have "slot_ok i ((t ! i)\<lparr>tm_accessed := now env\<rparr>)" by (simp add: table_wf_def slot_ok_def)
  from table_wf_update[OF wf(1) slot_ok_free[OF this]] show ?thesis
    by (simp only: release_slot_fst)
qed

text \<open>How \<open>dbrelay_db_get_connection\<close> comes by its slot.\<close>

lemma get_cases:
  assumes "dbrelay_db_get_connection env env' r t = Inr (r', t', s, ev)"
  obtains (found) i where "\<not> IS_EMPTY (connection_name r)" "match_slot r t 0 = Some i"
      "s = Some i" "r' = r"
      "t' = fst (dbrelay_db_close_connections env' (fst (dbrelay_db_find_connection env r t)))"
  | (alloc) t1 ev1 where "dbrelay_db_alloc_connection env r t = Inr (r', t1, s, ev1)"
      "t' = fst (dbrelay_db_close_connections env' t1)"
      "IS_EMPTY (connection_name r) \<or> match_slot r t 0 = None"
proof (cases "IS_EMPTY (connection_name r) \<or> match_slot r t 0 = None")
  case True
  then have "dbrelay_db_get_connection env env' r t =
      rbind (dbrelay_db_alloc_connection env r t) (\<lambda>(r, t, s, ev).
           let (t, ev') = dbrelay_db_close_connections env' t in Inr (r, t, s, ev @ ev'))"
    by (auto simp: dbrelay_db_get_connection_def dbrelay_db_find_connection_def)
  with assms obtain t1 ev1 where "dbrelay_db_alloc_connection env r t = Inr (r', t1, s, ev1)"
    "t' = fst (dbrelay_db_close_connections env' t1)"
    by (auto simp: rbind_eq_Inr_iff case_prod_beta)
  with True alloc show thesis by blast
next
  case False
  then obtain i where "match_slot r t 0 = Some i" "\<not> IS_EMPTY (connection_name r)" by auto
  then obtain t1 where find: "dbrelay_db_find_connection env r t = (t1, Some i)"
    by (simp add: dbrelay_db_find_connection_def)
  with assms have "s = Some i" "r' = r"
    "t' = fst (dbrelay_db_close_connections env' (fst (dbrelay_db_find_connection env r t)))"
    using \<open>\<not> IS_EMPTY (connection_name r)\<close>
    by (auto simp: dbrelay_db_get_connection_def case_prod_beta)
  with \<open>match_slot r t 0 = Some i\<close> \<open>\<not> IS_EMPTY (connection_name r)\<close> found show thesis by blast
qed

lemma get_wf:
  assumes "dbrelay_db_get_connection env env' r t = Inr (r', t', s, ev)"
    and "table_wf t" "request_wf r" "env_ok env"
  shows "table_wf t'"
  using assms(1)
proof (cases rule: get_cases)
  case (found i)
  from found(5) table_wf_reap[OF find_wf[OF assms(2)]] show ?thesis by simp
next
  case (alloc t1 ev1)
  from alloc(2) table_wf_reap[OF alloc_wf[OF alloc(1) assms(2-4)]] show ?thesis by simp
qed

text \<open>
  The steps of the processes on the table. Each is one critical section; a worker that gets a
  connection takes \<open>find\<close>, \<open>alloc\<close> and \<open>sweep\<close> one after the other, with the
  steps of the others in between, and releases its slot at the end of the query.
\<close>

inductive pool_step :: "table \<Rightarrow> table \<Rightarrow> bool" where
  find: "pool_step t (fst (dbrelay_db_find_connection env r t))"
| alloc: "dbrelay_db_alloc_connection env r t = Inr (r', t', s, ev) \<Longrightarrow> request_wf r \<Longrightarrow>
    env_ok env \<Longrightarrow> pool_step t t'"
| sweep: "pool_step t (fst (dbrelay_db_close_connections env t))"
| release: "i < length t \<Longrightarrow> pool_step t (fst (release_slot env i t))"
| helper: "i < length t \<Longrightarrow> pool_step t (t[i := (t ! i)\<lparr>helper_pid := p\<rparr>])"

inductive_cases pool_stepE: "pool_step t t'"

lemma pool_step_wf: "pool_step t t' \<Longrightarrow> table_wf t \<Longrightarrow> table_wf t'"
proof (induction rule: pool_step.induct)
  case (helper i t p)
  then have "slot_ok i ((t ! i)\<lparr>helper_pid := p\<rparr>)" by (simp add: table_wf_def slot_ok_def)
  with helper.prems show ?case by (rule table_wf_update)
qed (auto intro: find_wf alloc_wf table_wf_reap release_wf)

interpretation pool: invariant_system "\<lambda>t. t = empty_table" pool_step table_wf
  by unfold_locales (auto simp: empty_table_wf intro: pool_step_wf)

subsection \<open>What sharing, sweeping and releasing promise\<close>

definition same_keys :: "dbrelay_connection \<Rightarrow> dbrelay_request \<Rightarrow> bool" where
  "same_keys c r \<longleftrightarrow> c_sql_server c = sql_server r \<and> c_sql_port c = sql_port r \<and>
     c_sql_database c = sql_database r \<and> c_sql_user c = sql_user r \<and>
     c_sql_password c = sql_password r \<and> c_connection_name c = connection_name r"

lemma match_same_keys: "dbrelay_db_match c r = same_keys c r"
  by (simp add: dbrelay_db_match_def same_keys_def)

text \<open>When the sweep takes a live slot, and which handle it closes then.\<close>

definition dead_worker :: "pool_env \<Rightarrow> dbrelay_connection \<Rightarrow> bool" where
  "dead_worker env c \<longleftrightarrow> c_connection_name c = [] \<and> dead env (pid c)"

definition timed_out :: "pool_env \<Rightarrow> dbrelay_connection \<Rightarrow> bool" where
  "timed_out env c \<longleftrightarrow> tm_accessed c + DBRELAY_HARD_TIMEOUT < now env \<or>
     in_use c = 0 \<and> tm_accessed c + c_connection_timeout c < now env"

definition swept :: "pool_env \<Rightarrow> dbrelay_connection \<Rightarrow> bool" where
  "swept env c \<longleftrightarrow> pid c \<noteq> 0 \<and> (dead_worker env c \<or> timed_out env c)"

definition sweep_events :: "pool_env \<Rightarrow> dbrelay_connection \<Rightarrow> pool_event list" where
  "sweep_events env c =
     (if pid c \<noteq> 0 \<and> \<not> dead_worker env c \<and> timed_out env c
      then (case db c of None \<Rightarrow> [] | Some d \<Rightarrow> [Close_Db d]) else [])"

lemma reap_slot_spec:
  "reap_slot env c = (if swept env c then dbrelay_db_zero_connection c else c, sweep_events env c)"
  by (simp add: reap_slot_def Let_def swept_def sweep_events_def dead_worker_def timed_out_def
      dbrelay_db_close_connection_def)

text \<open>A connection that was just taken by a worker that is alive is not swept.\<close>

lemma fresh_not_swept:
  assumes "c_connection_name c \<noteq> [] \<or> \<not> dead env (pid c)" "in_use c \<noteq> 0"
    and "now env \<le> tm_accessed c + DBRELAY_HARD_TIMEOUT"
  shows "\<not> swept env c"
  using assms by (auto simp: swept_def dead_worker_def timed_out_def)

lemma sweep_keeps:
  assumes "i < length t" "\<not> swept env (t ! i)"
  shows "fst (dbrelay_db_close_connections env t) ! i = t ! i"
  using assms by (simp add: close_connections_map reap_slot_spec)

lemma free_connection_named:
  "c_connection_name c \<noteq> [] \<Longrightarrow> dbrelay_db_free_connection c = (c\<lparr>in_use := in_use c - 1\<rparr>, [])"
  by (simp add: dbrelay_db_free_connection_def)

lemma free_connection_unnamed:
  "c_connection_name c = [] \<Longrightarrow> dbrelay_db_free_connection c =
     (dbrelay_db_zero_connection c,
      case db c of None \<Rightarrow> [] | Some d \<Rightarrow> [Detach_Request d, Close_Db d])"
  by (simp add: dbrelay_db_free_connection_def dbrelay_db_close_connection_def
      dbrelay_db_zero_connection_def split: option.splits)

text \<open>What a successful allocation leaves in its slot.\<close>

lemma populate_live:
  assumes "dbrelay_db_populate_connection env r d = Inr (r', c, ev)"
    and "connection_name r = [] \<or> tmp_name env \<noteq> None"
  shows "same_keys c r \<and> pid c = self_pid env \<and> in_use c = 1 \<and> tm_accessed c = now env"
  using assms(1)
  by (cases rule: populate_cases)
    (use assms(2) in \<open>simp_all add: copy_params_zero mark_used_def same_keys_def\<close>)

lemma inc_not_zero: "x < 4294967295 \<Longrightarrow> x + 1 \<noteq> (0 :: 32 word)"
  by (auto simp: eq_neg_iff_add_eq_0[symmetric])

text \<open>The slot a request is given is live after the sweep.\<close>

lemma get_connection_live:
  assumes get: "dbrelay_db_get_connection env env' r t = Inr (r', t', Some i, ev)"
    and env: "env_ok env" "connection_name r = [] \<or> tmp_name env \<noteq> None"
    and later: "now env' \<le> now env + DBRELAY_HARD_TIMEOUT" "\<not> dead env' (self_pid env)"
    and users: "\<forall>c\<in>set t. in_use c < 4294967295"
  shows "i < length t' \<and> pid (t' ! i) \<noteq> 0 \<and> same_keys (t' ! i) r \<and> in_use (t' ! i) \<noteq> 0"
  using get
proof (cases rule: get_cases)
  case (found j)
  have ji: "j = i" using found(3) by simp
  note m = match_slot_Some[OF found(2), unfolded ji match_same_keys]
  let ?c = "(t ! i)\<lparr>in_use := in_use (t ! i) + 1, tm_accessed := now env\<rparr>"
  have t1: "fst (dbrelay_db_find_connection env r t) = t[i := ?c]"
    using found(2) ji by (simp add: dbrelay_db_find_connection_def)
  have "in_use (t ! i) < 4294967295" using users m by auto
  then have used: "in_use ?c \<noteq> 0" by (simp add: inc_not_zero)
  have "\<not> swept env' ?c"
    using m used later found(1) by (intro fresh_not_swept) (auto simp: same_keys_def)
  with m have "t' ! i = ?c" "length t' = length t"
    by (simp_all add: found(5) t1 close_connections_map reap_slot_spec)
  with m used show ?thesis by (simp add: same_keys_def)
next
  case (alloc t1 ev1)
  from alloc(1) show ?thesis
  proof (cases rule: alloc_cases)
    case (slot j c ev')
    have ji: "j = i" using slot(2) by simp
    note f = free_slot_Some[OF slot(1), unfolded ji]
    note c = populate_live[OF slot(4) env(2)]
    let ?c = "c\<lparr>slot := i\<rparr>"
    have "\<not> swept env' ?c" using c later env by (intro fresh_not_swept) auto
    with f have "t' ! i = ?c" "length t' = length t"
      by (simp_all add: alloc(2) slot(3) ji close_connections_map reap_slot_spec)
    with c f env show ?thesis by (simp add: same_keys_def env_ok_def)
  qed simp
qed

subsection \<open>Properties\<close>



text \<open>Looking for a connection to share finds the first live slot whose server, port, database,
  user, password and name are all those of the request, counts one more user in it and stamps
  it, and changes no other slot; it finds nothing exactly when no live slot has those six keys.
\<close>

theorem find_connection_first_match:
  "case dbrelay_db_find_connection env r t of
     (t', None) \<Rightarrow> t' = t \<and> {c \<in> set t. pid c \<noteq> 0 \<and> same_keys c r} = {}
   | (t', Some i) \<Rightarrow>
       i < length t \<and> pid (t ! i) \<noteq> 0 \<and> same_keys (t ! i) r \<and>
       {k. k < i \<and> pid (t ! k) \<noteq> 0 \<and> same_keys (t ! k) r} = {} \<and>
       t' = t[i := (t ! i)\<lparr>in_use := in_use (t ! i) + 1, tm_accessed := now env\<rparr>]"
proof (cases "match_slot r t 0")
  case None
  then show ?thesis
    by (simp add: dbrelay_db_find_connection_def)
      (use None in \<open>auto simp: match_slot_None match_same_keys\<close>)
next
  case (Some i)
  from match_slot_Some[OF Some] Some show ?thesis
    by (auto simp: dbrelay_db_find_connection_def match_same_keys)
qed

text \<open>Allocation takes the lowest free slot and changes no other; a request that finds the table
  full gets no slot, leaves the table as it was, and the connection it had opened beforehand is
  closed.
\<close>

theorem alloc_connection_lowest_free:
  assumes "dbrelay_db_alloc_connection env r t = Inr (r', t', s, ev)"
  shows "case s of
     None \<Rightarrow> t' = t \<and> {c \<in> set t. pid c = 0} = {} \<and>
       (case (if connection_name r = [] then db_connect env r else None) of
          None \<Rightarrow> ev = [] | Some d \<Rightarrow> ev = [Opened d, Close_Db d])
   | Some i \<Rightarrow> i < length t \<and> pid (t ! i) = 0 \<and> {k. k < i \<and> pid (t ! k) = 0} = {} \<and>
       (\<exists>c. t' = t[i := c] \<and> slot c = i)"
  using assms
proof (cases rule: alloc_cases)
  case full
  from full(1) have "\<forall>c\<in>set t. pid c \<noteq> 0" by (simp add: free_slot_None)
  with full assms show ?thesis
    by (cases "if connection_name r = [] then db_connect env r else None")
      (auto simp: dbrelay_db_alloc_connection_def Let_def split: if_splits)
next
  case (slot i c ev')
  from free_slot_Some[OF slot(1)] slot(2,3) show ?thesis
    by (auto intro!: exI[of _ "c\<lparr>slot := i\<rparr>"])
qed

text \<open>C7.
  The connection a request is given is not taken away by the sweep that follows: its slot is
  live, has the six keys of the request and at least one user, provided the count of users did
  not wrap, less than the hard timeout passed since the slot was stamped, and a name could be
  made for the socket of a named connection.
\<close>

theorem get_connection_survives_sweep:
  assumes get: "dbrelay_db_get_connection env env' r t = Inr (r', t', Some i, ev)"
    and env: "env_ok env" "connection_name r = [] \<or> tmp_name env \<noteq> None"
    and later: "now env' \<le> now env + DBRELAY_HARD_TIMEOUT" "\<not> dead env' (self_pid env)"
    and users: "\<forall>c\<in>set t. in_use c < 4294967295"
  shows "i < length t' \<and> pid (t' ! i) \<noteq> 0 \<and> same_keys (t' ! i) r \<and> in_use (t' ! i) \<noteq> 0"
  using get_connection_live[OF get env later users] .


text \<open>A sweep repeated at the same moment finds nothing left to do.
\<close>

theorem close_connections_idempotent:
  "dbrelay_db_close_connections env (fst (dbrelay_db_close_connections env t)) =
     (fst (dbrelay_db_close_connections env t), [])"
proof -
  have "swept env (if swept env c then dbrelay_db_zero_connection c else c) = False"
    "sweep_events env (if swept env c then dbrelay_db_zero_connection c else c) = []" for c
    by (auto simp: swept_def sweep_events_def)
  then show ?thesis
    by (intro prod_eqI) (simp_all add: close_connections_map reap_slot_spec o_def)
qed

text \<open>A worker that shares a named connection and releases it leaves the count of users, and the
  rest of the table, as it found them, whatever the other users: only the time of the last use
  of that slot is new.
\<close>

theorem share_and_release:
  assumes "dbrelay_db_find_connection env r t = (t', Some i)" "connection_name r \<noteq> []"
  shows "release_slot env' i t' = (t[i := (t ! i)\<lparr>tm_accessed := now env'\<rparr>], [])"
proof -
  from assms(1) have m: "match_slot r t 0 = Some i"
    and t': "t' = t[i := (t ! i)\<lparr>in_use := in_use (t ! i) + 1, tm_accessed := now env\<rparr>]"
    by (auto simp: dbrelay_db_find_connection_def split: option.splits)
  from match_slot_Some[OF m] assms(2) show ?thesis
    by (simp add: release_slot_def Let_def t' free_connection_named match_same_keys same_keys_def)
qed

text \<open>The handle of an unnamed connection is opened once, its request detached and the handle closed
  once by the worker that opened it, and its slot is free again, when nobody swept the slot in
  the meantime.
\<close>

theorem unnamed_open_close:
  assumes "dbrelay_db_alloc_connection env r t = Inr (r', t', Some i, ev)"
    and "connection_name r = []" "db_connect env r = Some d"
  shows "ev @ snd (release_slot env' i t') = [Opened d, Detach_Request d, Close_Db d] \<and>
     pid (fst (release_slot env' i t') ! i) = 0"
  using assms(1)
proof (cases rule: alloc_cases)
  case (slot j c ev')
  from slot(4) assms(2,3) have c: "c_connection_name c = []" "db c = Some d" "ev' = []"
    by (auto simp: copy_params_zero mark_used_def elim!: populate_cases)
  from slot(1,2,4) assms have "ev = Opened d # ev'"
    by (auto simp: dbrelay_db_alloc_connection_def Let_def rbind_eq_Inr_iff)
  with c slot free_slot_Some[OF slot(1)] show ?thesis
    by (simp add: release_slot_def Let_def free_connection_unnamed)
qed simp

text \<open>After the hard timeout the sweep of any worker closes the handle of an unnamed connection that
  is still in use, but keeps the pointer in the slot; the worker that owned it then detaches and
  closes the same handle a second time when its query ends.
\<close>

theorem hard_timeout_closes_twice:
  assumes "i < length t" "pid (t ! i) \<noteq> 0" "c_connection_name (t ! i) = []"
    and "db (t ! i) = Some d" "\<not> dead env (pid (t ! i))"
    and "tm_accessed (t ! i) + DBRELAY_HARD_TIMEOUT < now env"
  shows "snd (reap_slot env (t ! i)) = [Close_Db d] \<and>
     snd (release_slot env' i (fst (dbrelay_db_close_connections env t))) =
       [Detach_Request d, Close_Db d]"
proof -
  have s: "swept env (t ! i)" "sweep_events env (t ! i) = [Close_Db d]"
    using assms by (simp_all add: swept_def sweep_events_def dead_worker_def timed_out_def)
  have "c_connection_name (dbrelay_db_zero_connection (t ! i)) = []"
    by (simp add: dbrelay_db_zero_connection_def)
  with s assms show ?thesis
    by (simp add: reap_slot_spec close_connections_map release_slot_def Let_def case_prod_beta
        free_connection_unnamed)
qed

subsection \<open>Samples\<close>

definition sample_env :: "int \<Rightarrow> pool_env" where
  "sample_env n = \<lparr>now = n, self_pid = 42, dead = (\<lambda>p. p = 13), db_connect = (\<lambda>r. Some 7),
     tmp_name = Some ''/tmp/fileA''\<rparr>"

definition sample_request :: "string \<Rightarrow> dbrelay_request" where
  "sample_request name = zero_request\<lparr>sql_server := ''db1'', connection_name := name\<rparr>"

definition sample_slot :: "string \<Rightarrow> dbrelay_connection" where
  "sample_slot name = zero_conn\<lparr>c_sql_server := ''db1'', c_connection_name := name,
     c_connection_timeout := 60, tm_accessed := 5, in_use := 2, pid := 42, db := Some 9\<rparr>"

lemmas sample_defs = sample_env_def sample_request_def sample_slot_def zero_request_def
  zero_conn_def

lemma empty_table_Cons: "empty_table = zero_conn # replicate 999 zero_conn"
  by (simp add: empty_table_def size_defs flip: replicate_Suc)

lemma free_slot_empty_table [simp]: "free_slot empty_table 0 = Some 0"
  by (simp add: empty_table_Cons zero_conn_def)

lemma sample_alloc:
  "\<exists>r' t'. dbrelay_db_alloc_connection (sample_env 100) (sample_request []) empty_table =
     Inr (r', t', Some 0, [Opened 7])"
  by (simp add: dbrelay_db_alloc_connection_def dbrelay_db_populate_connection_def sample_defs
      Let_def)

theorem alloc_connection_lowest_free_witness:
  "\<exists>r' t' ev c. dbrelay_db_alloc_connection (sample_env 100) (sample_request []) empty_table =
     Inr (r', t', Some 0, ev) \<and> t' = empty_table[0 := c] \<and> slot c = 0"
  using sample_alloc alloc_connection_lowest_free[of "sample_env 100" "sample_request []" empty_table]
  by fastforce

lemma sample_find:
  "dbrelay_db_find_connection (sample_env 100) (sample_request ''shared'')
     [sample_slot [], sample_slot ''shared''] =
   ([sample_slot [], (sample_slot ''shared'')\<lparr>in_use := 3, tm_accessed := 100\<rparr>], Some 1)"
  by (simp add: dbrelay_db_find_connection_def dbrelay_db_match_def sample_defs)

lemma sample_get:
  "\<exists>t' ev. dbrelay_db_get_connection (sample_env 100) (sample_env 200) (sample_request ''shared'')
     [sample_slot [], sample_slot ''shared''] = Inr (sample_request ''shared'', t', Some 1, ev)"
  by (simp add: dbrelay_db_get_connection_def sample_find Let_def case_prod_beta)
    (simp add: sample_request_def)

theorem get_connection_survives_sweep_witness:
  "\<exists>t' ev. dbrelay_db_get_connection (sample_env 100) (sample_env 200) (sample_request ''shared'')
     [sample_slot [], sample_slot ''shared''] = Inr (sample_request ''shared'', t', Some 1, ev) \<and>
     pid (t' ! 1) \<noteq> 0 \<and> same_keys (t' ! 1) (sample_request ''shared'')"
proof -
  obtain t' ev where g: "dbrelay_db_get_connection (sample_env 100) (sample_env 200)
     (sample_request ''shared'') [sample_slot [], sample_slot ''shared''] =
     Inr (sample_request ''shared'', t', Some 1, ev)" using sample_get by blast
  from get_connection_survives_sweep[OF g] g show ?thesis
    by (simp add: env_ok_def sample_defs size_defs fits_def DBRELAY_HARD_TIMEOUT_def)
qed

theorem share_and_release_witness:
  "release_slot (sample_env 300) 1
     [sample_slot [], (sample_slot ''shared'')\<lparr>in_use := 3, tm_accessed := 100\<rparr>] =
   ([sample_slot [], (sample_slot ''shared'')\<lparr>tm_accessed := 300\<rparr>], [])"
  using share_and_release[OF sample_find, of "sample_env 300"]
  by (simp add: sample_request_def sample_env_def)

theorem unnamed_open_close_witness:
  "\<exists>t'. [Opened 7] @ snd (release_slot (sample_env 200) 0 t') =
     [Opened 7, Detach_Request 7, Close_Db 7]"
proof -
  obtain r' t' where a: "dbrelay_db_alloc_connection (sample_env 100) (sample_request []) empty_table =
     Inr (r', t', Some 0, [Opened 7])" using sample_alloc by blast
  from unnamed_open_close[OF a, of 7 "sample_env 200"] show ?thesis
    by (auto simp: sample_request_def sample_env_def)
qed

theorem hard_timeout_closes_twice_witness:
  "snd (release_slot (sample_env 40001) 0
     (fst (dbrelay_db_close_connections (sample_env 40000) [sample_slot []]))) =
   [Detach_Request 9, Close_Db 9]"
  using hard_timeout_closes_twice[of 0 "[sample_slot []]" 9 "sample_env 40000" "sample_env 40001"]
  by (simp add: sample_defs DBRELAY_HARD_TIMEOUT_def)

end
