(* ===== verification/Run_Query.thy ===== *)
theory Run_Query
  imports Client Result Params Pool
begin

section \<open>Answering a query (src/db.c)\<close>

text \<open>
  \<^verbatim>\<open>dbrelay_db_run_query\<close> from the request to the text that is sent back. The world of a
  worker is the table of connections, the state \<open>'d\<close> of the database driver, the state \<open>'w\<close>
  of the wire to the connectors, and the events that went out.
\<close>

datatype relay_event =
    Pool_Event pool_event
  | Term_Helper int    \<comment> \<open>\<^verbatim>\<open>kill(helper_pid, SIGTERM)\<close>\<close>
  | Unlink string      \<comment> \<open>\<^verbatim>\<open>unlink(sock_path)\<close>\<close>

record ('d, 'w) world =
  w_table :: table
  w_db :: 'd
  w_wire :: 'w
  w_events :: "relay_event list"

text \<open>
  What the events of the table mean to the driver: a handle is closed, or its request taken from it.
\<close>

fun driver_event :: "'d dbapi \<Rightarrow> relay_event \<Rightarrow> 'd \<Rightarrow> 'd result" where
  "driver_event api (Pool_Event (Close_Db h)) d = api_close api (Some h) d"
| "driver_event api (Pool_Event (Detach_Request h)) d = api_assign_request api (Some h) None d"
| "driver_event api ev d = Inr d"

fun driver_events :: "'d dbapi \<Rightarrow> relay_event list \<Rightarrow> 'd \<Rightarrow> 'd result" where
  "driver_events api [] d = Inr d"
| "driver_events api (ev # evs) d = rbind (driver_event api ev d) (driver_events api evs)"

subsection \<open>Waiting for a connection\<close>

text \<open>
  What the environment answers in one pass of the loop of \<^verbatim>\<open>dbrelay_wait_for_connection\<close>.
  The loop goes on as long as connecting to the connector fails; when the list of passes ends,
  it is still waiting and the value is \<open>None\<close>.
\<close>

record pass =
  find_env :: pool_env
  sweep_env :: pool_env
  connect_calls :: sock_calls

definition dbrelay_cleanup_connector :: "pool_env \<Rightarrow> dbrelay_connection \<Rightarrow> relay_event list" where
  "dbrelay_cleanup_connector env c =
     (if helper_pid c \<noteq> 0 \<and> \<not> dead env (helper_pid c) then [Term_Helper (helper_pid c)] else []) @
     [Unlink (c_sock_path c)]"

fun dbrelay_wait_for_connection ::
    "pass list \<Rightarrow> dbrelay_request \<Rightarrow> table \<Rightarrow>
     (dbrelay_request \<times> table \<times> (dbrelay_connection \<times> int) option \<times> relay_event list) result option" where
  "dbrelay_wait_for_connection [] r t = None"
| "dbrelay_wait_for_connection (p # ps) r t =
     and_then (dbrelay_db_get_connection (find_env p) (sweep_env p) r t) (\<lambda>(r, t, got, ev).
       case got of
         None \<Rightarrow> Some (Inr (r, t, None, map Pool_Event ev))
       | Some i \<Rightarrow>
           let c = (t ! i)\<lparr>slot := i\<rparr> in
           if IS_SET (connection_name r) then
             and_then (dbrelay_socket_connect (connect_calls p) (c_sock_path c) 10) (\<lambda>(s, err).
               if s = - 1 then
                 loop_bind (dbrelay_wait_for_connection ps r (t[i := (t ! i)\<lparr>pid := 0\<rparr>]))
                   (\<lambda>(r, t, got, ev'). Some (Inr (r, t, got,
                      map Pool_Event ev @ dbrelay_cleanup_connector (sweep_env p) c @ ev')))
               else Some (Inr (r, t, Some (c, s), map Pool_Event ev)))
           else Some (Inr (r, t, Some (c, 0), map Pool_Event ev)))"

subsection \<open>The text around the results\<close>

definition dbrelay_append_request_json :: "json \<Rightarrow> dbrelay_request \<Rightarrow> json" where
  "dbrelay_append_request_json j r =
     (let j = json_new_object (json_add_key j ''request'');
          j = (if IS_SET (query_tag r) then json_add_string j ''query_tag'' (query_tag r) else j);
          j = json_add_string j ''sql_server'' (sql_server r);
          j = json_add_string j ''sql_user'' (sql_user r);
          j = (if IS_SET (sql_port r) then json_add_string j ''sql_port'' (sql_port r) else j);
          j = json_add_string j ''sql_database'' (sql_database r)
      in json_end_object j)"

text \<open>With all parameters set the loop reads past the array.\<close>

fun log_params :: "nat \<Rightarrow> string option list \<Rightarrow> json \<Rightarrow> json result" where
  "log_params i [] j = Inl Out_Of_Bounds"
| "log_params i (None # ps) j = Inr j"
| "log_params i (Some p # ps) j = log_params (i + 1) ps (json_add_string j (''param'' @ show_nat i) p)"

definition dbrelay_append_log_json :: "json \<Rightarrow> dbrelay_request \<Rightarrow> string \<Rightarrow> json result" where
  "dbrelay_append_log_json j r error_string =
     (let j = json_new_object (json_add_key j ''log'')
      in rbind (if flag_set (flags r) DBRELAY_FLAG_ECHOSQL then
                  (case sql r of None \<Rightarrow> Inl Null_Deref | Some q \<Rightarrow> Inr (json_add_string j ''sql'' q))
                else Inr j) (\<lambda>j.
         let j = (if error_string \<noteq> [] then json_add_string j ''error'' error_string else j)
         in rbind (log_params 0 (params r) j) (\<lambda>j. Inr (json_end_object (json_end_object j)))))"

definition dbrelay_write_json_log :: "json \<Rightarrow> dbrelay_request \<Rightarrow> string \<Rightarrow> json" where
  "dbrelay_write_json_log j r error_string =
     (let j = json_new_object (json_add_key j ''log'');
          j = (case sql r of None \<Rightarrow> j | Some q \<Rightarrow> json_add_string j ''sql'' q);
          j = json_add_string j ''error'' error_string
      in json_end_object (json_end_object j))"

definition dbrelay_db_restart_json :: "dbrelay_request \<Rightarrow> json \<Rightarrow> json" where
  "dbrelay_db_restart_json r j =
     (if IS_SET (js_error r)
      then dbrelay_append_request_json (json_new_object (json_add_callback json_new (js_error r))) r
      else j)"

text \<open>The parts of \<^verbatim>\<open>dbrelay_db_run_query\<close> that its branches share.\<close>

definition open_json :: "dbrelay_request \<Rightarrow> json" where
  "open_json r =
     (let j = json_new;
          j = (if flag_set (flags r) DBRELAY_FLAG_PP then json_pretty_print j True else j);
          j = (if IS_SET (js_callback r) then json_add_callback j (js_callback r) else j)
      in dbrelay_append_request_json (json_new_object j) r)"

definition close_json :: "dbrelay_request \<Rightarrow> json \<Rightarrow> string" where
  "close_json r j =
     json_to_string (if IS_SET (js_callback r) \<or> IS_SET (js_error r) then json_end_callback j else j)"

definition refusal :: "dbrelay_request \<Rightarrow> json \<Rightarrow> string \<Rightarrow> string" where
  "refusal r j error_string =
     close_json r (dbrelay_write_json_log (dbrelay_db_restart_json r j) r error_string)"

subsection \<open>Running the query\<close>

text \<open>
  What a query meets: the text of the build's \<^verbatim>\<open>DBRELAY_MAGIC\<close>, the passes of the wait,
  the driver, the socket behind a descriptor, the bytes on the stack where a line is received,
  and the clock at the end.
\<close>

record ('d, 'w) query_env =
  q_magic :: string
  q_passes :: "pass list"
  q_api :: "'d dbapi"
  q_channel :: "int \<Rightarrow> 'w channel"
  q_garbage :: string
  q_end :: pool_env

definition ERROR_STRING_SZ :: nat where "ERROR_STRING_SZ = 500"

text \<open>A branch returns at once, or goes on to the log with an error string, empty for none.\<close>

datatype outcome = Return string | Go_On json string

definition query_over_connector ::
    "('d, 'w) query_env \<Rightarrow> dbrelay_request \<Rightarrow> nat \<Rightarrow> int \<Rightarrow> json \<Rightarrow> ('d, 'w) world \<Rightarrow>
     (outcome \<times> ('d, 'w) world) result option" where
  "query_over_connector env r i s j w =
     Option.bind (dbrelay_conn_initialize (q_channel env s) (q_garbage env) (w_wire w)) (\<lambda>(hp, wire).
       if hp = - 1 then
         Some (Inr (Return (refusal r (dbrelay_db_restart_json r j) (''Couldn'' @ [SQ] @ ''t initialize connector'')),
           w\<lparr>w_wire := wire\<rparr>))
       else
         let t = w_table w;
             w = w\<lparr>w_table := (if hp \<noteq> 0 then t[i := (t ! i)\<lparr>helper_pid := hp\<rparr>] else t)\<rparr>
         in loop_bind (dbrelay_conn_send_request (q_channel env s) r wire) (\<lambda>(ret, have_error, wire).
              Option.bind (if have_error = 2 then dbrelay_conn_kill (q_channel env s) wire else Some wire)
                (\<lambda>wire.
                  let go = (if have_error \<noteq> 0 then
                              Go_On (dbrelay_db_restart_json r j) (dbrelay_copy_string ret ERROR_STRING_SZ)
                            else if \<not> IS_SET ret then Go_On j []
                            else Go_On (json_add_json (json_add_json j '', '') ret) [])
                  in map_option (\<lambda>wire. Inr (go, w\<lparr>w_wire := wire\<rparr>))
                       (dbrelay_conn_close (q_channel env s) wire))))"

definition no_password_error :: string where
  "no_password_error = ''Login failed and no password was set, please check.'' @ [NL]"

definition login_error :: "'d dbapi \<Rightarrow> dbrelay_request \<Rightarrow> handle \<Rightarrow> 'd \<Rightarrow> string result" where
  "login_error api r h d =
     rbind (api_error api h d) (\<lambda>err.
       Inr (if IS_EMPTY (sql_password r) then
              no_password_error @ dbrelay_copy_string err (ERROR_STRING_SZ - length no_password_error)
            else if err = [] then ''Connection failed.'' @ [NL]
            else dbrelay_copy_string err ERROR_STRING_SZ))"

definition query_directly ::
    "('d, 'w) query_env \<Rightarrow> dbrelay_request \<Rightarrow> handle \<Rightarrow> string \<Rightarrow> json \<Rightarrow> ('d, 'w) world \<Rightarrow>
     (outcome \<times> ('d, 'w) world) result option" where
  "query_directly env r h newsql j w =
     and_then (api_connected (q_api env) h (w_db w)) (\<lambda>connected.
       if \<not> connected then
         and_then (login_error (q_api env) r h (w_db w)) (\<lambda>error_string.
           Some (Inr (Go_On (dbrelay_db_restart_json r j) error_string, w)))
       else
         loop_bind (dbrelay_exec_query (q_api env) h (sql_database r) (Some newsql) (flags r) (w_db w))
           (\<lambda>(ret, d).
             case ret of
               None \<Rightarrow>
                 and_then (api_error (q_api env) h d) (\<lambda>err.
                 and_then (into_array ERROR_STRING_SZ err) (\<lambda>error_string.
                   Some (Inr (Go_On (dbrelay_db_restart_json r j) error_string, w\<lparr>w_db := d\<rparr>))))
             | Some txt \<Rightarrow>
                 Some (Inr (Go_On (json_add_json (json_add_json j '', '') txt) [], w\<lparr>w_db := d\<rparr>))))"

definition finish_query ::
    "('d, 'w) query_env \<Rightarrow> dbrelay_request \<Rightarrow> nat \<Rightarrow> outcome \<times> ('d, 'w) world \<Rightarrow>
     (string \<times> ('d, 'w) world) result option" where
  "finish_query env r i out =
     (case out of
        (Return txt, w) \<Rightarrow> Some (Inr (txt, w))
      | (Go_On j error_string, w) \<Rightarrow>
          and_then (dbrelay_append_log_json j r error_string) (\<lambda>j.
            let (t, ev) = release_slot (q_end env) i (w_table w);
                ev = map Pool_Event ev
            in and_then (driver_events (q_api env) ev (w_db w)) (\<lambda>d.
                 Some (Inr (close_json r j, w\<lparr>w_table := t, w_db := d, w_events := w_events w @ ev\<rparr>)))))"

text \<open>
  A request without a connection name logs in before anything else is done, whatever the table
  holds. \<^verbatim>\<open>api->init()\<close> does not change what the driver holds: it only tells db-library
  which functions get its messages, and is empty for the other drivers.
\<close>

definition dbrelay_db_open_connection :: "'d dbapi \<Rightarrow> dbrelay_request \<Rightarrow> 'd \<Rightarrow> (handle \<times> 'd) result" where
  "dbrelay_db_open_connection api r d = api_connect api r d"

definition open_own :: "'d dbapi \<Rightarrow> dbrelay_request \<Rightarrow> 'd \<Rightarrow> (handle \<times> 'd) result" where
  "open_own api r d =
     (if \<not> IS_SET (connection_name r) then dbrelay_db_open_connection api r d else Inr (None, d))"

definition with_handle :: "handle \<Rightarrow> pass \<Rightarrow> pass" where
  "with_handle h p = p\<lparr>find_env := (find_env p)\<lparr>db_connect := (\<lambda>r. h)\<rparr>\<rparr>"

definition dbrelay_db_run_query ::
    "('d, 'w) query_env \<Rightarrow> dbrelay_request \<Rightarrow> ('d, 'w) world \<Rightarrow>
     (string \<times> ('d, 'w) world) result option" where
  "dbrelay_db_run_query env r w =
     (let j = open_json r in
      if \<not> dbrelay_check_request r then
        Some (Inr (refusal r j ''Not all required parameters submitted.'', w))
      else
        and_then (case sql r of None \<Rightarrow> Inl Null_Deref | Some q \<Rightarrow> dbrelay_resolve_params (q_magic env) r q)
          (\<lambda>newsql.
            and_then (open_own (q_api env) r (w_db w)) (\<lambda>(h, d).
            loop_bind (dbrelay_wait_for_connection (map (with_handle h) (q_passes env)) r (w_table w))
              (\<lambda>(r, t, got, ev).
            and_then (driver_events (q_api env) ev d) (\<lambda>d.
              let w = w\<lparr>w_table := t, w_db := d, w_events := w_events w @ ev\<rparr> in
              case got of
                None \<Rightarrow> Some (Inr (refusal r j (''Couldn'' @ [SQ] @ ''t allocate new connection''), w))
              | Some (c, s) \<Rightarrow>
                  loop_bind (if IS_SET (connection_name r) then query_over_connector env r (slot c) s j w
                             else query_directly env r (db c) newsql j w)
                    (finish_query env r (slot c)))))))"

subsection \<open>The text of a reply\<close>

definition opt_member :: "string \<Rightarrow> string \<Rightarrow> (string \<times> jtree) list" where
  "opt_member k v = (if v \<noteq> [] then [(k, JStr v)] else [])"

definition request_tree :: "dbrelay_request \<Rightarrow> jtree" where
  "request_tree r = JObj (opt_member ''query_tag'' (query_tag r) @
     [(''sql_server'', JStr (sql_server r)), (''sql_user'', JStr (sql_user r))] @
     opt_member ''sql_port'' (sql_port r) @ [(''sql_database'', JStr (sql_database r))])"

fun param_members :: "nat \<Rightarrow> string list \<Rightarrow> (string \<times> jtree) list" where
  "param_members i [] = []"
| "param_members i (p # ps) = (''param'' @ show_nat i, JStr p) # param_members (i + 1) ps"

definition log_tree :: "dbrelay_request \<Rightarrow> string \<Rightarrow> string list \<Rightarrow> string \<Rightarrow> jtree" where
  "log_tree r q ps error_string = JObj (
     (if flag_set (flags r) DBRELAY_FLAG_ECHOSQL then [(''sql'', JStr q)] else []) @
     opt_member ''error'' error_string @ param_members 0 ps)"

definition refusal_tree :: "dbrelay_request \<Rightarrow> string \<Rightarrow> jtree" where
  "refusal_tree r error_string = JObj (
     (case sql r of None \<Rightarrow> [] | Some q \<Rightarrow> [(''sql'', JStr q)]) @ [(''error'', JStr error_string)])"

text \<open>The text before and after the document, in a reply and in a reply started again.\<close>

definition text_before :: "bool \<Rightarrow> dbrelay_request \<Rightarrow> string" where
  "text_before restarted r =
     (if restarted \<and> js_error r \<noteq> [] then js_error r @ ''(''
      else if js_callback r \<noteq> [] then js_callback r @ ''('' else [])"

definition text_after :: "dbrelay_request \<Rightarrow> string" where
  "text_after r = (if js_callback r \<noteq> [] \<or> js_error r \<noteq> [] then '');'' else [])"

definition indented :: "bool \<Rightarrow> dbrelay_request \<Rightarrow> bool" where
  "indented restarted r \<longleftrightarrow> flag_set (flags r) DBRELAY_FLAG_PP \<and> \<not> (restarted \<and> js_error r \<noteq> [])"

lemma append_request_emit:
  "dbrelay_append_request_json j r = emit_member ''request'' (request_tree r) j"
  by (simp add: dbrelay_append_request_json_def request_tree_def opt_member_def Let_def)

lemma write_log_emit:
  "dbrelay_write_json_log j r e = json_end_object (emit_member ''log'' (refusal_tree r e) j)"
  by (cases "sql r") (simp_all add: dbrelay_write_json_log_def refusal_tree_def Let_def)

lemma log_params_emit:
  "log_params i (map Some ps @ None # rest) j = Inr (emit_members (param_members i ps) j)"
  by (induction ps arbitrary: i j) simp_all

lemma append_log_emit:
  assumes "sql r = Some q" "params r = map Some ps @ None # rest"
  shows "dbrelay_append_log_json j r e =
    Inr (json_end_object (emit_member ''log'' (log_tree r q ps e) j))"
  using assms(1)
  by (simp add: dbrelay_append_log_json_def assms(2) log_params_emit log_tree_def opt_member_def
      emit_members_append Let_def)

text \<open>The writer where the document starts: what is open is only the text before it.\<close>

definition starts :: "bool \<Rightarrow> string \<Rightarrow> json \<Rightarrow> bool" where
  "starts pp txt j \<longleftrightarrow> json_to_string j = txt \<and> tab_level j = 0 \<and> stack j = [] \<and> \<not> pending j \<and>
     prettyprint j = pp"

lemma json_new_starts [simp]: "starts False [] json_new"
  by (simp add: starts_def json_new_def json_to_string_def)

lemma open_json_emit:
  "\<exists>j0. starts (indented False r) (text_before False r) j0 \<and>
     open_json r = emit_members [(''request'', request_tree r)] (json_new_object j0)"
proof -
  let ?j = "if flag_set (flags r) DBRELAY_FLAG_PP then json_pretty_print json_new True else json_new"
  let ?j0 = "if IS_SET (js_callback r) then json_add_callback ?j (js_callback r) else ?j"
  have "open_json r = emit_members [(''request'', request_tree r)] (json_new_object ?j0)"
    by (simp add: open_json_def append_request_emit Let_def)
  moreover have "starts (indented False r) (text_before False r) ?j0"
    using json_new_starts by (simp add: starts_def indented_def text_before_def)
  ultimately show ?thesis by blast
qed

lemma restart_emit:
  assumes "j = emit_members [(''request'', request_tree r)] (json_new_object j0)"
    and "starts (indented False r) (text_before False r) j0"
  shows "\<exists>j0. starts (indented True r) (text_before True r) j0 \<and>
    dbrelay_db_restart_json r j = emit_members [(''request'', request_tree r)] (json_new_object j0)"
proof (cases "js_error r = []")
  case True
  with assms show ?thesis by (auto simp: dbrelay_db_restart_json_def indented_def text_before_def)
next
  case False
  then have "starts (indented True r) (text_before True r) (json_add_callback json_new (js_error r))"
    using json_new_starts by (simp add: starts_def indented_def text_before_def)
  with False show ?thesis
    by (auto simp: dbrelay_db_restart_json_def append_request_emit)
qed

lemma restart_twice [simp]:
  "dbrelay_db_restart_json r (dbrelay_db_restart_json r j) = dbrelay_db_restart_json r j"
  by (simp add: dbrelay_db_restart_json_def)

lemma document_text:
  assumes "starts pp txt j0"
  shows "json_to_string (json_end_object (emit_members ms (json_new_object j0))) =
    txt @ render pp 0 (JObj ms)"
  using emit_ok(1)[of "JObj ms" j0] assms
  by (simp add: elem_ok_def elem_prefix_def elem_sep_def starts_def indent_def)

lemma close_json_text: "close_json r j = json_to_string j @ text_after r"
  by (simp add: close_json_def text_after_def)

text \<open>A refusal, and the end of a reply without results.\<close>

definition reply_text :: "bool \<Rightarrow> dbrelay_request \<Rightarrow> (string \<times> jtree) list \<Rightarrow> string" where
  "reply_text restarted r ms =
     text_before restarted r @ render (indented restarted r) 0 (JObj ((''request'', request_tree r) # ms)) @
     text_after r"

lemma refusal_text:
  "refusal r (open_json r) e = reply_text True r [(''log'', refusal_tree r e)]"
  "refusal r (dbrelay_db_restart_json r (open_json r)) e = reply_text True r [(''log'', refusal_tree r e)]"
proof -
  obtain j0 where 0: "starts (indented False r) (text_before False r) j0"
    "open_json r = emit_members [(''request'', request_tree r)] (json_new_object j0)"
    using open_json_emit by blast
  from restart_emit[OF 0(2,1)] obtain j1 where "starts (indented True r) (text_before True r) j1"
    "dbrelay_db_restart_json r (open_json r) =
       emit_members [(''request'', request_tree r)] (json_new_object j1)" by blast
  with document_text[OF this(1), of "[(''request'', request_tree r), (''log'', refusal_tree r e)]"]
  show "refusal r (open_json r) e = reply_text True r [(''log'', refusal_tree r e)]"
    by (simp add: refusal_def close_json_text write_log_emit reply_text_def)
  then show "refusal r (dbrelay_db_restart_json r (open_json r)) e =
      reply_text True r [(''log'', refusal_tree r e)]"
    by (simp add: refusal_def)
qed

lemma error_reply_text:
  assumes "sql r = Some q" "params r = map Some ps @ None # rest"
  shows "\<exists>j. dbrelay_append_log_json (dbrelay_db_restart_json r (open_json r)) r e = Inr j \<and>
    close_json r j = reply_text True r [(''log'', log_tree r q ps e)]"
proof -
  obtain j0 where 0: "starts (indented False r) (text_before False r) j0"
    "open_json r = emit_members [(''request'', request_tree r)] (json_new_object j0)"
    using open_json_emit by blast
  from restart_emit[OF 0(2,1)] obtain j1 where "starts (indented True r) (text_before True r) j1"
    "dbrelay_db_restart_json r (open_json r) =
       emit_members [(''request'', request_tree r)] (json_new_object j1)" by blast
  with document_text[OF this(1), of "[(''request'', request_tree r), (''log'', log_tree r q ps e)]"]
  show ?thesis
    by (simp add: close_json_text append_log_emit[OF assms] reply_text_def)
qed

text \<open>Results are pasted in as text; in the compact style that is the same as emitting them.\<close>

lemma render_compact_level:
  "render False l v = render False l' v"
  "render_elems False l f vs = render_elems False l' f vs"
  "render_members False l f ms = render_members False l' f ms"
  for l l' :: int
proof (induction False l v and False l f vs and False l f ms arbitrary: l' and l' and l'
    rule: render_render_elems_render_members.induct)
qed (simp_all add: elem_sep_def member_sep_def indent_def, metis+)

lemma render_compact_1: "render False 1 v = render False 0 v"
  by (rule render_compact_level)

lemma pasted_results:
  assumes "starts False txt j0"
  shows "json_to_string (json_end_object (emit_member k' v' (json_add_json (json_add_json
      (emit_members [(k, v)] (json_new_object j0)) '', '') (key_text False d @ render False 0 dv)))) =
    txt @ render False 0 (JObj [(k, v), (d, dv), (k', v')])"
proof -
  let ?j = "json_new_object j0"
  let ?j1 = "emit_member k v ?j"
  let ?j2 = "json_add_json (json_add_json ?j1 '', '') (key_text False d @ render False 0 dv)"
  have pp: "\<not> prettyprint j0" "stack j0 = []" using assms by (simp_all add: starts_def)
  have 1: "items_ok True (member_sep False (tab_level ?j) True @ key_text False k @
      render False (tab_level ?j) v) ?j ?j1"
    using emit_ok(3)[of ?j k v] pp by simp
  then have j1: "stack ?j1 \<noteq> []" "\<not> pending ?j1" "has_items ?j1" "\<not> prettyprint ?j1"
    using pp by (auto simp: items_ok_def same_frame_def)
  then have "has_items ?j2" by (simp add: has_items_def)
  then have 2: "items_ok True (member_sep False (tab_level ?j2) False @ key_text False k' @
      render False (tab_level ?j2) v') ?j2 (emit_member k' v' ?j2)"
    using emit_ok(3)[of ?j2 k' v'] j1 by simp
  show ?thesis
    using 1 2 assms
    by (simp add: items_ok_def same_frame_def starts_def member_sep_def indent_def open_sep_def
        newline_def render_compact_1)
qed

lemma pasted_reply:
  assumes "\<not> flag_set (flags r) DBRELAY_FLAG_PP"
  shows "close_json r (json_end_object (emit_member k' v' (json_add_json (json_add_json (open_json r) '', '')
      (key_text False d @ render False 0 dv)))) = reply_text False r [(d, dv), (k', v')]"
proof -
  obtain j0 where j0: "starts False (text_before False r) j0"
    "open_json r = emit_members [(''request'', request_tree r)] (json_new_object j0)"
    using open_json_emit[of r] assms by (auto simp: indented_def)
  from pasted_results[OF j0(1), of k' v' "''request''" "request_tree r" d dv] show ?thesis
    using assms unfolding close_json_text reply_text_def j0(2)[symmetric] indented_def
    by (simp del: render.simps render_members.simps)
qed

subsection \<open>A query on a connection of its own\<close>

lemma default_timeout_fields [simp]:
  "sql (default_timeout r) = sql r" "params (default_timeout r) = params r"
  "flags (default_timeout r) = flags r" "sql_database (default_timeout r) = sql_database r"
  "js_callback (default_timeout r) = js_callback r" "js_error (default_timeout r) = js_error r"
  "sql_password (default_timeout r) = sql_password r"
  by (simp_all add: default_timeout_def)

lemma default_timeout_texts [simp]:
  "request_tree (default_timeout r) = request_tree r"
  "log_tree (default_timeout r) = log_tree r" "refusal_tree (default_timeout r) = refusal_tree r"
  "close_json (default_timeout r) = close_json r" "open_json (default_timeout r) = open_json r"
  "dbrelay_db_restart_json (default_timeout r) = dbrelay_db_restart_json r"
  by (simp_all add: default_timeout_def request_tree_def log_tree_def refusal_tree_def
      close_json_def open_json_def dbrelay_db_restart_json_def dbrelay_append_request_json_def
      fun_eq_iff Let_def cong: option.case_cong if_cong)

lemma not_swept: "\<not> swept env c \<Longrightarrow> reap_slot env c = (c, [])"
  by (auto simp: reap_slot_spec sweep_events_def swept_def)

text \<open>The slot an unnamed request is given, when one is free, whether the login went well or not.\<close>

definition opened :: "handle \<Rightarrow> pool_event list" where
  "opened h = (case h of None \<Rightarrow> [] | Some a \<Rightarrow> [Opened a])"

lemma get_unnamed:
  assumes "connection_name r = []" "db_connect env r = h" "free_slot t 0 = Some i"
    and "env_ok env" "now env' \<le> now env + DBRELAY_HARD_TIMEOUT" "\<not> dead env' (self_pid env)"
  obtains c where
    "dbrelay_db_get_connection env env' r t = Inr (default_timeout r,
       (fst (dbrelay_db_close_connections env' t))[i := c], Some i,
       opened h @ snd (dbrelay_db_close_connections env' t))"
    "slot c = i" "db c = h" "c_connection_name c = []"
proof -
  let ?c = "(mark_used env ((copy_params r zero_conn)
     \<lparr>c_connection_timeout := connection_timeout (default_timeout r), db := h\<rparr>))\<lparr>slot := i\<rparr>"
  note f = free_slot_Some[OF assms(3)]
  have alloc: "dbrelay_db_alloc_connection env r t = Inr (default_timeout r, t[i := ?c], Some i, opened h)"
    using assms(1-3) by (simp add: dbrelay_db_alloc_connection_def dbrelay_db_populate_connection_def
        opened_def Let_def)
  have "\<not> swept env' ?c"
    using assms(1,5,6) by (intro fresh_not_swept) (simp_all add: mark_used_def copy_params_zero)
  then have new: "reap_slot env' ?c = (?c, [])" by (rule not_swept)
  have old: "snd (reap_slot env' (t ! i)) = []" using f by (simp add: reap_slot_def)
  have "fst (dbrelay_db_close_connections env' (t[i := ?c])) =
      (fst (dbrelay_db_close_connections env' t))[i := ?c]"
    using new by (simp add: close_connections_map map_update del: fun_upd_apply)
  moreover have "snd (dbrelay_db_close_connections env' (t[i := ?c])) =
      snd (dbrelay_db_close_connections env' t)"
  proof -
    have m: "(map (\<lambda>c. snd (reap_slot env' c)) t)[i := []] = map (\<lambda>c. snd (reap_slot env' c)) t"
      using f old by (intro list_update_same_conv[THEN iffD2]) auto
    show ?thesis using new m by (simp add: close_connections_map map_update)
  qed
  ultimately have "dbrelay_db_get_connection env env' r t = Inr (default_timeout r,
       (fst (dbrelay_db_close_connections env' t))[i := ?c], Some i,
       opened h @ snd (dbrelay_db_close_connections env' t))"
    using alloc assms(1) by (simp add: dbrelay_db_get_connection_def case_prod_beta)
  with that[of ?c] assms(1) show thesis by (simp add: mark_used_def copy_params_zero)
qed

text \<open>What an unnamed query leaves of its slot.\<close>

definition gone :: "handle \<Rightarrow> pool_event list" where
  "gone h = (case h of None \<Rightarrow> [] | Some a \<Rightarrow> [Detach_Request a, Close_Db a])"

lemma release_unnamed:
  assumes "i < length t" "db c = h" "c_connection_name c = []"
  shows "snd (release_slot env i (t[i := c])) = gone h \<and>
    (\<exists>c'. fst (release_slot env i (t[i := c])) = t[i := c'] \<and> pid c' = 0)"
  using assms
  by (cases h) (auto simp: release_slot_def Let_def dbrelay_db_free_connection_def
      dbrelay_db_close_connection_def gone_def)

definition ready_to_run ::
    "('d, 'w) query_env \<Rightarrow> dbrelay_request \<Rightarrow> string \<Rightarrow> string list \<Rightarrow> string \<Rightarrow> bool" where
  "ready_to_run env r q ps newsql \<longleftrightarrow> dbrelay_check_request r \<and> sql r = Some q \<and>
     (\<exists>rest. params r = map Some ps @ None # rest) \<and>
     dbrelay_resolve_params (q_magic env) r q = Inr newsql"

text \<open>
  A slot for the request: the first that is free, in a worker that lives and a table whose sweep
  comes soon. \<open>swept_events\<close> are the handles the sweep closes.
\<close>

definition own_slot ::
    "('d, 'w) query_env \<Rightarrow> dbrelay_request \<Rightarrow> ('d, 'w) world \<Rightarrow> pass \<Rightarrow> nat \<Rightarrow> bool" where
  "own_slot env r w p i \<longleftrightarrow> (\<exists>ps. q_passes env = p # ps) \<and> connection_name r = [] \<and>
     free_slot (w_table w) 0 = Some i \<and> env_ok (find_env p) \<and>
     \<not> dead (sweep_env p) (self_pid (find_env p)) \<and>
     now (sweep_env p) \<le> now (find_env p) + DBRELAY_HARD_TIMEOUT"

abbreviation swept_events :: "pass \<Rightarrow> table \<Rightarrow> pool_event list" where
  "swept_events p t \<equiv> snd (dbrelay_db_close_connections (sweep_env p) t)"

text \<open>The login gave \<open>h\<close>, null when it failed, and the driver is in state \<open>d\<close> after the sweep.\<close>

definition logged_in ::
    "('d, 'w) query_env \<Rightarrow> dbrelay_request \<Rightarrow> ('d, 'w) world \<Rightarrow> pass \<Rightarrow> handle \<Rightarrow> 'd \<Rightarrow> bool" where
  "logged_in env r w p h d \<longleftrightarrow>
     (\<exists>d1. dbrelay_db_open_connection (q_api env) r (w_db w) = Inr (h, d1) \<and>
        driver_events (q_api env) (map Pool_Event (swept_events p (w_table w))) d1 = Inr d)"

definition own_connection ::
    "('d, 'w) query_env \<Rightarrow> dbrelay_request \<Rightarrow> ('d, 'w) world \<Rightarrow> pass \<Rightarrow> nat \<Rightarrow> handle \<Rightarrow> 'd \<Rightarrow> bool" where
  "own_connection env r w p i h d \<longleftrightarrow> own_slot env r w p i \<and> logged_in env r w p h d"

text \<open>At the end the handle, if there is one, is taken from its request and closed.\<close>

definition let_go :: "'d dbapi \<Rightarrow> handle \<Rightarrow> 'd \<Rightarrow> 'd result" where
  "let_go api h d =
     (if h = None then Inr d else rbind (api_assign_request api h None d) (api_close api h))"

lemma driver_events_gone: "driver_events api (map Pool_Event (gone h)) d = let_go api h d"
proof -
  have "rbind m (driver_events api []) = m" for m by (cases m) simp_all
  then have "driver_events api [Pool_Event (Close_Db a)] = api_close api (Some a)" for a
    by (intro ext) (simp del: driver_events.simps(1))
  then show ?thesis by (cases h) (simp_all add: gone_def let_go_def)
qed

lemma driver_events_append:
  "driver_events api (evs @ evs') d = rbind (driver_events api evs d) (driver_events api evs')"
proof (induction evs arbitrary: d)
  case (Cons ev evs)
  then show ?case by (cases "driver_event api ev d") simp_all
qed simp

lemma driver_events_opened: "driver_events api (map Pool_Event (opened h)) d = Inr d"
  by (cases h) (simp_all add: opened_def)

text \<open>The world in which the query of a request of its own is run.\<close>

definition own_world ::
    "('d, 'w) world \<Rightarrow> pass \<Rightarrow> nat \<Rightarrow> handle \<Rightarrow> dbrelay_connection \<Rightarrow> 'd \<Rightarrow> ('d, 'w) world" where
  "own_world w p i h c d = w\<lparr>
     w_table := (fst (dbrelay_db_close_connections (sweep_env p) (w_table w)))[i := c], w_db := d,
     w_events := w_events w @ map Pool_Event (opened h @ swept_events p (w_table w))\<rparr>"

lemma run_own_connection:
  assumes "ready_to_run env r q ps newsql" "own_connection env r w p i h d"
  obtains c where "slot c = i" "db c = h" "c_connection_name c = []"
    "i < length (w_table w)"
    "dbrelay_db_run_query env r w =
      loop_bind (query_directly env (default_timeout r) h newsql (open_json r) (own_world w p i h c d))
        (finish_query env (default_timeout r) i)"
proof -
  from assms(2) obtain ps' d1 where o: "q_passes env = p # ps'" "connection_name r = []"
    "free_slot (w_table w) 0 = Some i" "env_ok (find_env p)" "\<not> dead (sweep_env p) (self_pid (find_env p))"
    "now (sweep_env p) \<le> now (find_env p) + DBRELAY_HARD_TIMEOUT"
    and d: "dbrelay_db_open_connection (q_api env) r (w_db w) = Inr (h, d1)"
      "driver_events (q_api env) (map Pool_Event (swept_events p (w_table w))) d1 = Inr d"
    by (auto simp: own_connection_def own_slot_def logged_in_def)
  let ?p = "with_handle h p"
  have p: "db_connect (find_env ?p) r = h" "env_ok (find_env ?p)" "sweep_env ?p = sweep_env p"
    "now (find_env ?p) = now (find_env p)" "self_pid (find_env ?p) = self_pid (find_env p)"
    using o(4) by (simp_all add: with_handle_def env_ok_def)
  from get_unnamed[OF o(2) p(1) o(3) p(2), of "sweep_env p", unfolded p(4,5), OF o(6,5)] obtain c where
    c: "dbrelay_db_get_connection (find_env ?p) (sweep_env p) r (w_table w) = Inr (default_timeout r,
       (fst (dbrelay_db_close_connections (sweep_env p) (w_table w)))[i := c], Some i,
       opened h @ swept_events p (w_table w))"
    "slot c = i" "db c = h" "c_connection_name c = []" by metis
  have i: "i < length (w_table w)" using free_slot_Some[OF o(3)] by simp
  have "dbrelay_wait_for_connection (map (with_handle h) (q_passes env)) r (w_table w) =
    Some (Inr (default_timeout r, (fst (dbrelay_db_close_connections (sweep_env p) (w_table w)))[i := c],
      Some (c, 0), map Pool_Event (opened h @ swept_events p (w_table w))))"
    using o(1,2) c i p(3) by (simp add: close_connections_map Let_def)
  with assms(1) o(2) c(2,3) d have "dbrelay_db_run_query env r w =
      loop_bind (query_directly env (default_timeout r) h newsql (open_json r) (own_world w p i h c d))
        (finish_query env (default_timeout r) i)"
    by (simp add: dbrelay_db_run_query_def ready_to_run_def open_own_def own_world_def
        driver_events_append driver_events_opened Let_def)
  with that[of c] c i show thesis by simp
qed

text \<open>The events of a query that opened a handle, and the table it leaves.\<close>

definition query_events :: "pass \<Rightarrow> table \<Rightarrow> handle \<Rightarrow> relay_event list" where
  "query_events p t h = map Pool_Event (opened h @ swept_events p t @ gone h)"

definition freed :: "pass \<Rightarrow> table \<Rightarrow> nat \<Rightarrow> table \<Rightarrow> bool" where
  "freed p t i t' \<longleftrightarrow>
     (\<exists>c. pid c = 0 \<and> t' = (fst (dbrelay_db_close_connections (sweep_env p) t))[i := c])"

text \<open>What a query over a connection of its own leaves of the world.\<close>

definition own_query_done ::
    "('d, 'w) world \<Rightarrow> pass \<Rightarrow> nat \<Rightarrow> handle \<Rightarrow> 'd \<Rightarrow> ('d, 'w) world \<Rightarrow> bool" where
  "own_query_done w p i h d w' \<longleftrightarrow> w_db w' = d \<and> w_wire w' = w_wire w \<and>
     w_events w' = w_events w @ query_events p (w_table w) h \<and> freed p (w_table w) i (w_table w')"

lemma finish_own_connection:
  assumes "i < length (w_table w)" "db c = h" "c_connection_name c = []"
    and "dbrelay_append_log_json j (default_timeout r) e = Inr j'"
    and "let_go (q_api env) h d' = Inr d2"
  shows "\<exists>w'. finish_query env (default_timeout r) i (Go_On j e, (own_world w p i h c d)\<lparr>w_db := d'\<rparr>) =
      Some (Inr (close_json r j', w')) \<and> own_query_done w p i h d2 w'"
proof -
  let ?t = "fst (dbrelay_db_close_connections (sweep_env p) (w_table w))"
  have "i < length ?t" using assms(1) by (simp add: close_connections_map)
  from release_unnamed[OF this assms(2,3), of "q_end env"] obtain c' where
    "release_slot (q_end env) i (?t[i := c]) = (?t[i := c'], gone h)"
    "pid c' = 0" by (metis prod.collapse)
  then show ?thesis
    using assms(4,5)
    by (auto simp: finish_query_def own_world_def query_events_def freed_def own_query_done_def
        driver_events_gone)
qed

subsection \<open>Properties\<close>

text \<open>A request without a query, a server or a user is answered with the reason, under the echo of
  the request and in the caller's error callback if there is one; no connection is touched.
\<close>

theorem run_query_incomplete:
  assumes "\<not> dbrelay_check_request r"
  shows "dbrelay_db_run_query env r w = Some (Inr (reply_text True r
    [(''log'', refusal_tree r ''Not all required parameters submitted.'')], w))"
  using assms by (simp add: dbrelay_db_run_query_def refusal_text)

lemma query_results:
  assumes "ready_to_run env r q ps newsql" "own_connection env r w p i (Some h) d0"
    and "\<not> flag_set (flags r) DBRELAY_FLAG_EMBEDCSV" "\<not> flag_set (flags r) DBRELAY_FLAG_PP"
    and "api_connected (q_api env) (Some h) d0 = Inr True"
    and "query_sent (q_api env) (Some h) (sql_database r) newsql (flags r) d0 = Inr (True, d1)"
    and "delivers (q_api env) (Some h) d1 ss d2" "list_all set_fits ss"
    and "exec_if (flag_set (flags r) DBRELAY_FLAG_XACT) (q_api env) (Some h) DBRELAY_DBCMD_COMMIT d2 = Inr d3"
    and "let_go (q_api env) (Some h) d3 = Inr d4"
  shows "\<exists>w'. dbrelay_db_run_query env r w = Some (Inr (reply_text False r
      [(''data'', JArr (map set_tree ss)), (''log'', log_tree r q ps [])], w')) \<and> own_query_done w p i (Some h) d4 w'"
proof -
  from assms(1) obtain rest where r: "sql r = Some q" "params r = map Some ps @ None # rest"
    by (auto simp: ready_to_run_def)
  let ?txt = "key_text False ''data'' @ render False 0 (JArr (map set_tree ss))"
  let ?j = "json_add_json (json_add_json (open_json r) '', '') ?txt"
  have exec: "dbrelay_exec_query (q_api env) (Some h) (sql_database r) (Some newsql) (flags r) d0 =
      Some (Inr (Some ?txt, d3))"
    using exec_query_std[OF assms(3,6-9)] assms(4) by simp
  have log: "dbrelay_append_log_json ?j (default_timeout r) [] =
      Inr (json_end_object (emit_member ''log'' (log_tree r q ps []) ?j))"
    using append_log_emit[of "default_timeout r" q ps rest] r by simp
  have reply: "close_json r (json_end_object (emit_member ''log'' (log_tree r q ps []) ?j)) =
      reply_text False r [(''data'', JArr (map set_tree ss)), (''log'', log_tree r q ps [])]"
    by (rule pasted_reply[OF assms(4)])
  from run_own_connection[OF assms(1,2)] obtain c where c: "db c = Some h" "c_connection_name c = []"
    "i < length (w_table w)" "dbrelay_db_run_query env r w =
      loop_bind (query_directly env (default_timeout r) (Some h) newsql (open_json r) (own_world w p i (Some h) c d0))
        (finish_query env (default_timeout r) i)" by metis
  have d0: "w_db (own_world w p i (Some h) c d0) = d0" by (simp add: own_world_def)
  from finish_own_connection[OF c(3,1,2) log assms(10), where p = p and d = d0] c(4) exec assms(5) reply
  show ?thesis by (auto simp: query_directly_def d0 simp del: render.simps)
qed

text \<open>C3.
  A complete request without a connection name, when a slot is free and the login works, is
  answered with one JSON document, the echo of the request, the tree of all the result sets the
  database delivers for the query with its parameters substituted, and the log, inside the
  caller's callback if there is one; the handle it opened is taken from the request and closed, its
  slot is free again, and nothing else happened to the table than the sweep of idle connections.
\<close>

theorem run_query_results:
  assumes "ready_to_run env r q ps newsql" "own_connection env r w p i (Some h) d0"
    and "\<not> flag_set (flags r) DBRELAY_FLAG_EMBEDCSV" "\<not> flag_set (flags r) DBRELAY_FLAG_PP"
    and "api_connected (q_api env) (Some h) d0 = Inr True"
    and "query_sent (q_api env) (Some h) (sql_database r) newsql (flags r) d0 = Inr (True, d1)"
    and "delivers (q_api env) (Some h) d1 ss d2" "list_all set_fits ss"
    and "exec_if (flag_set (flags r) DBRELAY_FLAG_XACT) (q_api env) (Some h) DBRELAY_DBCMD_COMMIT d2 = Inr d3"
    and "let_go (q_api env) (Some h) d3 = Inr d4"
  shows "\<exists>w'. dbrelay_db_run_query env r w = Some (Inr (reply_text False r
      [(''data'', JArr (map set_tree ss)), (''log'', log_tree r q ps [])], w')) \<and> own_query_done w p i (Some h) d4 w'"
  by (rule query_results[OF assms])

text \<open>An error instead of results, whatever it is of: the end of the query is the same.\<close>

lemma own_error:
  assumes "ready_to_run env r q ps newsql" "i < length (w_table w)" "db c = h" "c_connection_name c = []"
    and "let_go (q_api env) h d' = Inr d2"
  shows "\<exists>w'. finish_query env (default_timeout r) i
      (Go_On (dbrelay_db_restart_json r (open_json r)) e, (own_world w p i h c d)\<lparr>w_db := d'\<rparr>) =
      Some (Inr (reply_text True r [(''log'', log_tree r q ps e)], w')) \<and> own_query_done w p i h d2 w'"
proof -
  from assms(1) obtain rest where r: "sql r = Some q" "params r = map Some ps @ None # rest"
    by (auto simp: ready_to_run_def)
  from error_reply_text[OF r, of e] obtain j where
    j: "dbrelay_append_log_json (dbrelay_db_restart_json r (open_json r)) r e = Inr j"
    "close_json r j = reply_text True r [(''log'', log_tree r q ps e)]" by blast
  then have "dbrelay_append_log_json (dbrelay_db_restart_json r (open_json r)) (default_timeout r) e = Inr j"
    using append_log_emit[OF r] append_log_emit[of "default_timeout r" q ps rest] r by simp
  from finish_own_connection[OF assms(2-4) this assms(5), where p = p and d = d] j(2) show ?thesis by auto
qed

lemma query_error:
  assumes "ready_to_run env r q ps newsql" "own_connection env r w p i (Some h) d0"
    and "api_connected (q_api env) (Some h) d0 = Inr True"
    and "query_sent (q_api env) (Some h) (sql_database r) newsql (flags r) d0 = Inr (False, d1)"
    and "exec_if (flag_set (flags r) DBRELAY_FLAG_XACT) (q_api env) (Some h) DBRELAY_DBCMD_ROLLBACK d1 = Inr d2"
    and "api_error (q_api env) (Some h) d2 = Inr err" "length err < 500"
    and "let_go (q_api env) (Some h) d2 = Inr d3"
  shows "\<exists>w'. dbrelay_db_run_query env r w = Some (Inr (reply_text True r
      [(''log'', log_tree r q ps err)], w')) \<and> own_query_done w p i (Some h) d3 w'"
proof -
  have exec: "dbrelay_exec_query (q_api env) (Some h) (sql_database r) (Some newsql) (flags r) d0 =
      Some (Inr (None, d2))" by (rule exec_query_refused[OF assms(4,5)])
  from run_own_connection[OF assms(1,2)] obtain c where c: "db c = Some h" "c_connection_name c = []"
    "i < length (w_table w)" "dbrelay_db_run_query env r w =
      loop_bind (query_directly env (default_timeout r) (Some h) newsql (open_json r) (own_world w p i (Some h) c d0))
        (finish_query env (default_timeout r) i)" by metis
  have d0: "w_db (own_world w p i (Some h) c d0) = d0" by (simp add: own_world_def)
  from own_error[OF assms(1) c(3,1,2) assms(8), where p = p and d = d0] c(4) exec assms(3,6,7)
  show ?thesis by (auto simp: query_directly_def d0 into_array_def ERROR_STRING_SZ_def)
qed

text \<open>C4.
  When the database refuses the query, the reply carries the error text of the database instead
  of results, in the caller's error callback if there is one; the handle is closed once and the
  slot is free again all the same.
\<close>

theorem run_query_error:
  assumes "ready_to_run env r q ps newsql" "own_connection env r w p i (Some h) d0"
    and "api_connected (q_api env) (Some h) d0 = Inr True"
    and "query_sent (q_api env) (Some h) (sql_database r) newsql (flags r) d0 = Inr (False, d1)"
    and "exec_if (flag_set (flags r) DBRELAY_FLAG_XACT) (q_api env) (Some h) DBRELAY_DBCMD_ROLLBACK d1 = Inr d2"
    and "api_error (q_api env) (Some h) d2 = Inr err" "length err < 500"
    and "let_go (q_api env) (Some h) d2 = Inr d3"
  shows "\<exists>w'. dbrelay_db_run_query env r w = Some (Inr (reply_text True r
      [(''log'', log_tree r q ps err)], w')) \<and> own_query_done w p i (Some h) d3 w'"
  by (rule query_error[OF assms])

lemma own_world_same: "(own_world w p i h c d)\<lparr>w_db := d\<rparr> = own_world w p i h c d"
  by (simp add: own_world_def)

text \<open>A login that failed: the error the driver has for a null handle is the error of the request.\<close>

lemma login_refused:
  assumes "ready_to_run env r q ps newsql" "own_connection env r w p i None d"
    and "api_connected (q_api env) None d = Inr False" "api_error (q_api env) None d = Inr e"
  shows "\<exists>w'. dbrelay_db_run_query env r w = Some (Inr (reply_text True r [(''log'', log_tree r q ps
      (if sql_password r = [] then no_password_error @ take (499 - length no_password_error) e
       else if e = [] then ''Connection failed.'' @ [NL] else take 499 e))], w')) \<and>
    own_query_done w p i None d w'"
proof -
  have d: "w_db (own_world w p i None c d) = d" for c by (simp add: own_world_def)
  let ?e = "if sql_password r = [] then no_password_error @ take (499 - length no_password_error) e
       else if e = [] then ''Connection failed.'' @ [NL] else take 499 e"
  have "login_error (q_api env) (default_timeout r) None d = Inr ?e"
    using assms(4) by (simp add: login_error_def dbrelay_copy_string_def ERROR_STRING_SZ_def no_password_error_def)
  moreover from run_own_connection[OF assms(1,2)] obtain c where c: "db c = None" "c_connection_name c = []"
    "i < length (w_table w)" "dbrelay_db_run_query env r w =
      loop_bind (query_directly env (default_timeout r) None newsql (open_json r) (own_world w p i None c d))
        (finish_query env (default_timeout r) i)" by metis
  moreover have "let_go (q_api env) None d = Inr d" by (simp add: let_go_def)
  note own_error[OF assms(1) c(3,1,2) this, where p = p and d = d and e = ?e, unfolded own_world_same]
  then obtain w' where
    "finish_query env (default_timeout r) i (Go_On (dbrelay_db_restart_json r (open_json r)) ?e,
      own_world w p i None c d) = Some (Inr (reply_text True r [(''log'', log_tree r q ps ?e)], w'))"
    "own_query_done w p i None d w'" by blast
  ultimately show ?thesis using assms(3) by (auto simp: query_directly_def d)
qed

lemma login_crash:
  assumes "ready_to_run env r q ps newsql" "own_connection env r w p i None d"
    and "api_connected (q_api env) None d = Inr False" "api_error (q_api env) None d = Inl e"
  shows "dbrelay_db_run_query env r w = Some (Inl e)"
proof -
  have d: "w_db (own_world w p i None c d) = d" for c by (simp add: own_world_def)
  from run_own_connection[OF assms(1,2)] obtain c where "dbrelay_db_run_query env r w =
      loop_bind (query_directly env (default_timeout r) None newsql (open_json r) (own_world w p i None c d))
        (finish_query env (default_timeout r) i)" by metis
  with assms(3,4) show ?thesis by (simp add: query_directly_def login_error_def d)
qed

subsection \<open>Waiting\<close>

definition same_request :: "dbrelay_request \<Rightarrow> dbrelay_request \<Rightarrow> bool" where
  "same_request r r' \<longleftrightarrow> r' = r \<or> r' = default_timeout r"

lemma default_timeout_idem [simp]: "default_timeout (default_timeout r) = default_timeout r"
  by (simp add: default_timeout_def)

lemma same_request_trans: "same_request r r1 \<Longrightarrow> same_request r1 r2 \<Longrightarrow> same_request r r2"
  by (auto simp: same_request_def)

lemma same_request_wf: "same_request r r' \<Longrightarrow> request_wf r \<Longrightarrow> request_wf r'"
  by (auto simp: same_request_def default_timeout_def request_wf_def)

lemma same_request_keys: "same_request r r' \<Longrightarrow> same_keys c r' = same_keys c r"
  by (auto simp: same_request_def default_timeout_def same_keys_def)

lemma get_request:
  assumes "dbrelay_db_get_connection env env' r t = Inr (r', t', s, ev)"
  shows "same_request r r'"
  using assms
proof (cases rule: get_cases)
  case (alloc t1 ev1)
  from alloc(1) show ?thesis
    by (cases rule: alloc_cases) (auto simp: same_request_def elim!: populate_cases)
qed (simp add: same_request_def)

text \<open>A pass in which the worker lives and the clock does not jump.\<close>

definition pass_ok :: "pass \<Rightarrow> bool" where
  "pass_ok p \<longleftrightarrow> env_ok (find_env p) \<and> tmp_name (find_env p) \<noteq> None \<and>
     now (sweep_env p) \<le> now (find_env p) + DBRELAY_HARD_TIMEOUT \<and>
     \<not> dead (sweep_env p) (self_pid (find_env p))"

text \<open>The count of users of a slot grows by at most one in a pass.\<close>

definition users_below :: "nat \<Rightarrow> table \<Rightarrow> bool" where
  "users_below n t \<longleftrightarrow> (\<forall>c\<in>set t. unat (in_use c) + n \<le> 4294967295)"

lemma unat_inc_le: "unat (x + 1) \<le> Suc (unat x)" for x :: "32 word"
  by (metis One_nat_def Suc_n_not_le_n add.commute bot_nat_0.extremum nat_le_linear plus_1_eq_Suc
      unatSuc unat_0)

lemma users_below_mono: "users_below (Suc n) t \<Longrightarrow> users_below n t"
  by (auto simp: users_below_def)

lemma users_below_update:
  "users_below n t \<Longrightarrow> unat (in_use c) + n \<le> 4294967295 \<Longrightarrow> users_below n (t[i := c])"
  unfolding users_below_def using set_update_subset_insert[of t i c] by auto

lemma users_below_sweep:
  "users_below n t \<Longrightarrow> users_below n (fst (dbrelay_db_close_connections env t))"
  by (auto simp: users_below_def close_connections_map reap_slot_spec)

lemma users_below_find:
  assumes "users_below (Suc n) t"
  shows "users_below n (fst (dbrelay_db_find_connection env r t))"
proof (cases "match_slot r t 0")
  case None
  then show ?thesis using assms by (simp add: dbrelay_db_find_connection_def users_below_mono)
next
  case (Some i)
  from match_slot_Some[OF Some] have "t ! i \<in> set t" by simp
  with assms have "Suc (unat (in_use (t ! i))) + n \<le> 4294967295" by (auto simp: users_below_def)
  with unat_inc_le[of "in_use (t ! i)"] have "unat (in_use (t ! i) + 1) + n \<le> 4294967295" by linarith
  with Some users_below_mono[OF assms] show ?thesis
    by (simp add: dbrelay_db_find_connection_def users_below_update)
qed

lemma users_below_alloc:
  assumes "users_below (Suc n) t" "dbrelay_db_alloc_connection env r t = Inr (r', t', s, ev)"
  shows "users_below n t'"
  using assms(2)
proof (cases rule: alloc_cases)
  case full
  then show ?thesis using users_below_mono[OF assms(1)] by simp
next
  case (slot i c ev')
  from free_slot_Some[OF slot(1)] have "t ! i \<in> set t" by simp
  with assms(1) have "Suc n \<le> 4294967295" by (auto simp: users_below_def)
  moreover have "in_use c = 0 \<or> in_use c = 1"
    using slot(4) by (cases rule: populate_cases) (simp_all add: mark_used_def copy_params_zero)
  ultimately have "unat (in_use (c\<lparr>slot := i\<rparr>)) + n \<le> 4294967295" by auto
  with users_below_mono[OF assms(1)] slot(3) show ?thesis by (simp add: users_below_update)
qed

lemma users_below_get:
  assumes "users_below (Suc n) t" "dbrelay_db_get_connection env env' r t = Inr (r', t', s, ev)"
  shows "users_below n t'"
  using assms(2)
proof (cases rule: get_cases)
  case (found i)
  from found(5) users_below_sweep[OF users_below_find[OF assms(1)]] show ?thesis by simp
next
  case (alloc t1 ev1)
  from alloc(2) users_below_sweep[OF users_below_alloc[OF assms(1) alloc(1)]] show ?thesis by simp
qed

definition usable :: "dbrelay_request \<Rightarrow> table \<Rightarrow> dbrelay_connection \<Rightarrow> int \<Rightarrow> bool" where
  "usable r t c s \<longleftrightarrow> slot c < length t \<and> c = t ! slot c \<and> pid c \<noteq> 0 \<and> in_use c \<noteq> 0 \<and>
     same_keys c r \<and> s \<noteq> - 1"

lemma wait_usable:
  assumes "dbrelay_wait_for_connection ps r t = Some (Inr (r', t', got, ev))"
    and "table_wf t" "request_wf r" "list_all pass_ok ps" "users_below (length ps) t"
  shows "table_wf t' \<and> same_request r r' \<and> pred_option (\<lambda>(c, s). usable r t' c s) got"
  using assms
proof (induction ps arbitrary: r t ev)
  case (Cons p ps)
  from Cons.prems(1) obtain r1 t1 g ev1 where
    get: "dbrelay_db_get_connection (find_env p) (sweep_env p) r t = Inr (r1, t1, g, ev1)"
    by (cases "dbrelay_db_get_connection (find_env p) (sweep_env p) r t") auto
  note r1 = get_request[OF get]
  have p: "pass_ok p" "list_all pass_ok ps" using Cons.prems(4) by simp_all
  have wf1: "table_wf t1" using get_wf[OF get Cons.prems(2,3)] p by (simp add: pass_ok_def)
  show ?case
  proof (cases g)
    case None
    with Cons.prems(1) get r1 wf1 show ?thesis by auto
  next
    case (Some i)
    let ?c = "(t1 ! i)\<lparr>slot := i\<rparr>"
    have "\<forall>c\<in>set t. in_use c < 4294967295"
      using Cons.prems(5) by (auto simp: users_below_def word_less_nat_alt)
    from get_connection_live[OF get[unfolded Some]] p this have
      live: "i < length t1" "pid (t1 ! i) \<noteq> 0" "same_keys (t1 ! i) r" "in_use (t1 ! i) \<noteq> 0"
      by (auto simp: pass_ok_def)
    with wf1 have sl: "slot (t1 ! i) = i" by (auto simp: table_wf_def slot_ok_def)
    then have c: "?c = t1 ! i" by simp
    show ?thesis
    proof (cases "connection_name r1 = []")
      case True
      with Cons.prems(1) get Some r1 wf1 live c sl show ?thesis
        by (auto simp: Let_def usable_def)
    next
      case False
      with Cons.prems(1) get Some obtain s err where
        conn: "dbrelay_socket_connect (connect_calls p) (c_sock_path ?c) 10 = Inr (s, err)"
        by (cases "dbrelay_socket_connect (connect_calls p) (c_sock_path ?c) 10") (auto simp: Let_def)
      show ?thesis
      proof (cases "s = - 1")
        case False
        with Cons.prems(1) get Some r1 wf1 live c sl conn \<open>connection_name r1 \<noteq> []\<close> show ?thesis
          by (auto simp: Let_def usable_def)
      next
        case True
        let ?t = "t1[i := (t1 ! i)\<lparr>pid := 0\<rparr>]"
        from Cons.prems(1) get Some conn True False obtain ev' where
          rest: "dbrelay_wait_for_connection ps r1 ?t = Some (Inr (r', t', got, ev'))"
          by (auto simp: Let_def loop_bind_eq_Inr_iff)
        have wf: "table_wf ?t"
          using live(1) wf1 by (intro table_wf_update) (simp_all add: table_wf_def slot_ok_def)
        have "users_below (length ps) t1" using users_below_get[OF _ get] Cons.prems(5) by simp
        then have "users_below (length ps) ?t"
          using live(1) by (intro users_below_update) (auto simp: users_below_def)
        with Cons.IH[OF rest wf same_request_wf[OF r1 Cons.prems(3)] p(2)] same_request_trans[OF r1]
        show ?thesis
          using same_request_keys[OF r1] by (cases got) (auto simp: usable_def)
      qed
    qed
  qed
qed simp

text \<open>C5.
  Waiting for a connection keeps the table well formed, and what it returns can be used: the slot
  is live, has the six keys of the request and counts this worker among its users, and the
  descriptor of a connector is not \<open>-1\<close>, however often connecting to a connector failed
  before. The worker must live, the clock not jump past the hard timeout within a pass, a name
  for a socket must be found, and no count of users be near its wrap.
\<close>

theorem wait_for_connection_usable:
  assumes "dbrelay_wait_for_connection ps r t = Some (Inr (r', t', Some (c, s), ev))"
    and "table_wf t" "request_wf r" "list_all pass_ok ps" "users_below (length ps) t"
  shows "table_wf t' \<and> usable r t' c s"
  using wait_usable[OF assms] by simp

subsection \<open>Samples\<close>

definition sample_calls :: sock_calls where
  "sample_calls = \<lparr>sys_socket = 5, sys_ioctl = 0, sys_connect = (\<lambda>path. 0), sys_accept = 6,
     sys_select = (\<lambda>c. 1)\<rparr>"

definition sample_pass :: pass where
  "sample_pass = \<lparr>find_env = sample_env 100, sweep_env = sample_env 200, connect_calls = sample_calls\<rparr>"

definition broken_channel :: "unit channel" where
  "broken_channel = \<lparr>ch_send = (\<lambda>s w. Some (- 1, w)), ch_recv = (\<lambda>st w. Some (- 1, [], st, w))\<rparr>"

definition sample_query_env :: "(memory_db, unit) query_env" where
  "sample_query_env = \<lparr>q_magic = [], q_passes = [sample_pass], q_api = memory_api,
     q_channel = (\<lambda>s. broken_channel), q_garbage = [], q_end = sample_env 300\<rparr>"

definition sample_world :: "(memory_db, unit) world" where
  "sample_world = \<lparr>w_table = empty_table, w_db = ([sample_set], no_set, []), w_wire = (), w_events = []\<rparr>"

definition sample_query :: "string \<Rightarrow> dbrelay_request" where
  "sample_query q = zero_request\<lparr>sql_server := ''db1'', sql_user := ''me'', sql := Some q,
     params := [Some ''int:1'', None], js_callback := ''cb''\<rparr>"

lemma sample_ready:
  "ready_to_run sample_query_env (sample_query ''select ?'') ''select ?'' [''int:1''] ''select 1''"
  by (simp add: ready_to_run_def dbrelay_check_request_def sample_query_def sample_query_env_def
      dbrelay_resolve_params_def dbrelay_find_placeholder_def is_quoted_param_def strcasecmp_eq_def
      param_value_def cstr_def tolower_def flag_set_def zero_request_def Let_def)

lemma sample_own_slot:
  "own_slot (sample_query_env\<lparr>q_api := api\<rparr>) (sample_query q) sample_world sample_pass 0"
  by (simp add: own_slot_def sample_query_env_def sample_pass_def sample_query_def
      sample_world_def zero_request_def env_ok_def sample_env_def fits_def size_defs
      DBRELAY_HARD_TIMEOUT_def)

lemma empty_swept: "swept_events p empty_table = []"
  by (simp add: close_connections_map empty_table_def zero_conn_def reap_slot_def)

lemma own_connectionI:
  assumes "own_slot env r w p i" "swept_events p (w_table w) = []"
    and "api_connect (q_api env) r (w_db w) = Inr (h, d)"
  shows "own_connection env r w p i h d"
  using assms by (simp add: own_connection_def logged_in_def dbrelay_db_open_connection_def)

lemma sample_own:
  assumes "\<And>r d. api_connect api r d = Inr (Some 1, d)"
  shows "own_connection (sample_query_env\<lparr>q_api := api\<rparr>) (sample_query q) sample_world sample_pass 0 (Some 1)
    (w_db sample_world)"
  by (intro own_connectionI sample_own_slot) (simp_all add: sample_world_def empty_swept assms)

theorem run_query_incomplete_witness:
  "dbrelay_db_run_query sample_query_env zero_request sample_world = Some (Inr
     (reply_text True zero_request
       [(''log'', refusal_tree zero_request ''Not all required parameters submitted.'')], sample_world))"
  by (rule run_query_incomplete) (simp add: dbrelay_check_request_def zero_request_def)

lemma sample_closed: "let_go memory_api (Some h) d = Inr d"
  by (simp add: let_go_def memory_api_def)

theorem run_query_results_witness:
  "\<exists>w'. dbrelay_db_run_query sample_query_env (sample_query ''select ?'') sample_world =
     Some (Inr (reply_text False (sample_query ''select ?'') [(''data'', JArr [set_tree sample_set]),
       (''log'', log_tree (sample_query ''select ?'') ''select ?'' [''int:1''] [])], w')) \<and>
     freed sample_pass empty_table 0 (w_table w')"
proof -
  let ?r = "sample_query ''select ?''"
  have f: "\<not> flag_set (flags ?r) x" for x by (simp add: sample_query_def zero_request_def flag_set_def)
  have e: "q_api sample_query_env = memory_api" by (simp add: sample_query_env_def)
  have w: "w_db sample_world = ([sample_set], no_set, [])" "w_table sample_world = empty_table"
    by (simp_all add: sample_world_def)
  have 1: "api_connected (q_api sample_query_env) (Some 1) (w_db sample_world) = Inr True"
    by (simp add: e memory_api_def)
  have 2: "query_sent (q_api sample_query_env) (Some 1) (sql_database ?r) ''select 1'' (flags ?r)
      (w_db sample_world) = Inr (True, ([sample_set], no_set, []))"
    by (simp add: e f w query_sent_def before_query_def exec_if_def) (simp add: memory_api_def)
  have 3: "delivers (q_api sample_query_env) (Some 1) ([sample_set], no_set, []) [sample_set]
      ([], sample_set\<lparr>rows := []\<rparr>, [None, Some ''b''])"
    using sample_delivers unfolding e .
  have 4: "exec_if (flag_set (flags ?r) DBRELAY_FLAG_XACT) (q_api sample_query_env) (Some 1)
      DBRELAY_DBCMD_COMMIT d = Inr d" for d by (simp add: exec_if_def f)
  have 5: "let_go (q_api sample_query_env) (Some 1) d = Inr d" for d by (simp add: e sample_closed)
  have "sample_query_env\<lparr>q_api := memory_api\<rparr> = sample_query_env" by (simp add: sample_query_env_def)
  with sample_own[of memory_api] have own: "own_connection sample_query_env ?r sample_world sample_pass 0 (Some 1)
      (w_db sample_world)" by (simp add: memory_api_def)
  from run_query_results[OF sample_ready own f f 1 2 3 _ 4 5] sample_fits w(2) show ?thesis
    by (auto simp: own_query_done_def simp del: render.simps)
qed

definition refusing_api :: "memory_db dbapi" where
  "refusing_api = memory_api\<lparr>api_exec := (\<lambda>h q d. Inr (False, d))\<rparr>"

lemma refusing_simps:
  "api_connected refusing_api (Some h) d = Inr True" "api_exec refusing_api h0 q d = Inr (False, d)"
  "api_change_db refusing_api h0 n d = Inr (True, d)" "api_error refusing_api h0 d = Inr ''refused''"
  "api_connect refusing_api r d = Inr (Some 1, d)" "let_go refusing_api (Some h) d = Inr d"
  by (simp_all add: refusing_api_def let_go_def memory_api_def)

theorem run_query_error_witness:
  "\<exists>w'. dbrelay_db_run_query (sample_query_env\<lparr>q_api := refusing_api\<rparr>) (sample_query ''select ?'')
     sample_world = Some (Inr (reply_text True (sample_query ''select ?'')
       [(''log'', log_tree (sample_query ''select ?'') ''select ?'' [''int:1''] ''refused'')], w'))"
proof -
  let ?env = "sample_query_env\<lparr>q_api := refusing_api\<rparr>" and ?r = "sample_query ''select ?''"
  have f: "\<not> flag_set (flags ?r) x" for x by (simp add: sample_query_def zero_request_def flag_set_def)
  have e: "q_api ?env = refusing_api" by simp
  have 1: "ready_to_run ?env ?r ''select ?'' [''int:1''] ''select 1''"
    using sample_ready by (simp add: ready_to_run_def)
  have 2: "own_connection ?env ?r sample_world sample_pass 0 (Some 1) (w_db sample_world)"
    by (rule sample_own) (simp add: refusing_simps)
  have 3: "api_connected (q_api ?env) (Some 1) (w_db sample_world) = Inr True"
    and 4: "query_sent (q_api ?env) (Some 1) (sql_database ?r) ''select 1'' (flags ?r) d = Inr (False, d)"
    and 5: "exec_if (flag_set (flags ?r) DBRELAY_FLAG_XACT) (q_api ?env) (Some 1) DBRELAY_DBCMD_ROLLBACK d = Inr d"
    and 6: "api_error (q_api ?env) (Some 1) d = Inr ''refused''" and 7: "let_go (q_api ?env) (Some 1) d = Inr d" for d
    by (simp_all add: e f refusing_simps query_sent_def before_query_def exec_if_def)
  from run_query_error[OF 1 2 3 4 5 6 _ 7] show ?thesis by auto
qed

lemma sample_wait:
  assumes "connection_name r \<noteq> []" "sock_path r = []"
  shows "\<exists>r' t' c ev. dbrelay_wait_for_connection [sample_pass] r empty_table =
     Some (Inr (r', t', Some (c, 5), ev))"
proof -
  let ?r = "default_timeout r"
  let ?c = "(mark_used (sample_env 100) ((copy_params r zero_conn)
     \<lparr>c_connection_timeout := connection_timeout ?r, c_sock_path := ''/tmp/fileA''\<rparr>))\<lparr>slot := 0\<rparr>"
  have m: "match_slot r empty_table 0 = None"
    using assms(1) by (auto simp: match_slot_None empty_table_def zero_conn_def)
  have "dbrelay_db_alloc_connection (sample_env 100) r empty_table =
      Inr (?r, empty_table[0 := ?c], Some 0, [Launch ''/tmp/fileA''])"
    using assms by (simp add: dbrelay_db_alloc_connection_def dbrelay_db_populate_connection_def Let_def)
      (simp add: sample_env_def)
  then have g: "dbrelay_db_get_connection (sample_env 100) (sample_env 200) r
      empty_table = Inr (?r, fst (dbrelay_db_close_connections (sample_env 200) (empty_table[0 := ?c])),
        Some 0, Launch ''/tmp/fileA'' # snd (dbrelay_db_close_connections (sample_env 200) (empty_table[0 := ?c])))"
    using m assms(1)
    by (simp add: dbrelay_db_get_connection_def dbrelay_db_find_connection_def case_prod_beta)
  have "fst (dbrelay_db_close_connections (sample_env 200) (empty_table[0 := ?c])) ! 0 = ?c"
    using assms(1) by (intro sweep_keeps[THEN trans])
      (simp_all add: empty_table_def size_defs swept_def dead_worker_def timed_out_def mark_used_def
        copy_params_zero sample_env_def DBRELAY_HARD_TIMEOUT_def)
  with g assms(1) show ?thesis
    by (simp add: sample_pass_def Let_def dbrelay_socket_connect_def sample_calls_def SUN_PATH_SZ_def
        mark_used_def copy_params_zero)
qed

lemma sample_usable:
  assumes "dbrelay_wait_for_connection [sample_pass] r empty_table = Some (Inr (r', t', Some (c, s), ev))"
    and "request_wf r"
  shows "table_wf t' \<and> usable r t' c s"
proof -
  have "list_all pass_ok [sample_pass]"
    by (simp add: pass_ok_def sample_pass_def env_ok_def sample_env_def fits_def size_defs
        DBRELAY_HARD_TIMEOUT_def)
  moreover have "users_below (length [sample_pass]) empty_table"
    by (simp add: users_below_def empty_table_def zero_conn_def)
  ultimately show ?thesis using wait_usable[OF assms(1) empty_table_wf assms(2)] by simp
qed

theorem wait_for_connection_usable_witness:
  "\<exists>r' t' c ev. dbrelay_wait_for_connection [sample_pass] (sample_request ''shared'') empty_table =
     Some (Inr (r', t', Some (c, 5), ev)) \<and> table_wf t' \<and> usable (sample_request ''shared'') t' c 5"
proof -
  obtain r' t' c ev where w: "dbrelay_wait_for_connection [sample_pass] (sample_request ''shared'')
     empty_table = Some (Inr (r', t', Some (c, 5), ev))"
    using sample_wait[of "sample_request ''shared''"] by (auto simp: sample_request_def zero_request_def)
  have "request_wf (sample_request ''shared'')"
    by (simp add: request_wf_def sample_request_def zero_request_def fits_def size_defs
        list_all_iff)
  moreover have "list_all pass_ok [sample_pass]"
    by (simp add: pass_ok_def sample_pass_def env_ok_def sample_env_def fits_def size_defs
        DBRELAY_HARD_TIMEOUT_def)
  moreover have "users_below (length [sample_pass]) empty_table"
    by (simp add: users_below_def empty_table_def zero_conn_def)
  ultimately show ?thesis
    using wait_for_connection_usable[OF w empty_table_wf] w by blast
qed

end
