(* ===== verification/System.thy ===== *)
theory System
  imports Session Run_Query
begin

section \<open>A query over a shared connection, end to end\<close>

text \<open>
  \<^verbatim>\<open>dbrelay_db_run_query\<close> with the client, the lines and the connector process of
  theory \<open>Session\<close> behind the descriptor: from the request of a caller to the text of the
  reply, through the table, the socket, the connector and its database.
\<close>

subsection \<open>The end of an exchange\<close>

lemma close_idle:
  assumes "frag_ok frag" "\<not> receive_sql c"
  shows "\<exists>w. dbrelay_conn_close (session_channel p frag) (idle c) = Some w \<and> serving w = c \<and> ended w"
proof -
  let ?s = "(idle c)\<lparr>inbox := '':BYE'' @ [NL], ended := True\<rparr>"
  have "peer_line p ('':QUIT'' @ [NL]) c =
      Some (Inr (Next_Client, c, [Reply ('':BYE'' @ [NL]), Close_Client]))"
    using process_quit[OF assms(2)] by (simp add: peer_line_def handle_line_def)
  from send_line[OF _ this] have send: "session_send p ('':QUIT'' @ [NL]) (idle c) = Some (0, ?s)"
    by (simp add: line_ok_def size_defs idle_def)
  obtain st where "session_recv frag no_input ?s = Some (1, '':BYE'' @ [NL], st, ?s\<lparr>inbox := []\<rparr>)"
    by (rule recv_only_line[OF assms(1), of "'':BYE''" ?s]) (simp_all add: line_ok_def size_defs idle_def)
  with send show ?thesis by (simp add: dbrelay_conn_close_def send_and_recv_def)
qed

lemma wait_request:
  "dbrelay_wait_for_connection ps r t = Some (Inr (r', t', got, ev)) \<Longrightarrow> same_request r r'"
proof (induction ps arbitrary: r t ev)
  case (Cons p ps)
  from Cons.prems obtain r1 t1 g ev1 where
    get: "dbrelay_db_get_connection (find_env p) (sweep_env p) r t = Inr (r1, t1, g, ev1)"
    by (cases "dbrelay_db_get_connection (find_env p) (sweep_env p) r t") auto
  note r1 = get_request[OF get]
  show ?case
  proof (cases "r' = r1")
    case False
    with Cons.prems get obtain i ev' where
      "dbrelay_wait_for_connection ps r1 (t1[i := (t1 ! i)\<lparr>pid := 0\<rparr>]) = Some (Inr (r', t', got, ev'))"
      by (auto simp: Let_def loop_bind_eq_Inr_iff and_then_eq_Inr_iff split: option.splits if_splits)
    from Cons.IH[OF this] same_request_trans[OF r1] show ?thesis by simp
  qed (use r1 in simp)
qed simp

lemma same_request_eq: "same_request r r' \<Longrightarrow> connection_timeout r \<noteq> 0 \<Longrightarrow> r' = r"
  by (auto simp: same_request_def default_timeout_def)

lemma release_named:
  assumes "i < length t" "c_connection_name (t ! i) \<noteq> []"
  shows "release_slot env i (t[i := (t ! i)\<lparr>helper_pid := hp\<rparr>]) =
    (t[i := (t ! i)\<lparr>helper_pid := hp, tm_accessed := now env, in_use := in_use (t ! i) - 1\<rparr>], [])"
  using assms by (simp add: release_slot_def Let_def free_connection_named)

text \<open>The connector that is given the connection, and what its database does with the query.\<close>

definition served_by ::
    "('e, 'd session) query_env \<Rightarrow> ('e, 'd session) world \<Rightarrow> int \<Rightarrow> 'd peer \<Rightarrow> 'd connector \<Rightarrow> bool" where
  "served_by env w s p k \<longleftrightarrow> (\<exists>frag. frag_ok frag \<and> q_channel env s = session_channel p frag) \<and>
     w_wire w = idle k \<and> \<not> receive_sql k \<and> 0 < peer_pid p \<and> peer_pid p < 2147483648"

text \<open>The connector \<open>k\<close>, connected, has result sets for the query, or refuses it with an error.\<close>

definition answers ::
    "'d peer \<Rightarrow> dbrelay_request \<Rightarrow> string \<Rightarrow> 'd connector \<Rightarrow> result_set list \<Rightarrow> bool" where
  "answers p r q k ss \<longleftrightarrow> conn_db k \<noteq> None \<and> (\<exists>d1 d2 d3.
     query_sent (peer_api p) (conn_db k) (sql_database r) q (flags r) (dbstate k) = Inr (True, d1) \<and>
     delivers (peer_api p) (conn_db k) d1 ss d2 \<and> list_all set_fits ss \<and>
     exec_if (flag_set (flags r) DBRELAY_FLAG_XACT) (peer_api p) (conn_db k) DBRELAY_DBCMD_COMMIT d2 = Inr d3)"

definition rejects ::
    "'d peer \<Rightarrow> dbrelay_request \<Rightarrow> string \<Rightarrow> 'd connector \<Rightarrow> string \<Rightarrow> bool" where
  "rejects p r q k e \<longleftrightarrow> conn_db k \<noteq> None \<and> (\<exists>d1 d2.
     query_sent (peer_api p) (conn_db k) (sql_database r) q (flags r) (dbstate k) = Inr (False, d1) \<and>
     exec_if (flag_set (flags r) DBRELAY_FLAG_XACT) (peer_api p) (conn_db k) DBRELAY_DBCMD_ROLLBACK d1 = Inr d2 \<and>
     api_error (peer_api p) (conn_db k) d2 = Inr e)"

definition results_text :: "result_set list \<Rightarrow> string" where
  "results_text ss = key_text False ''data'' @ render False 0 (JArr (map set_tree ss))"

text \<open>A text that the protocol carries as it is, but for its newlines.\<close>

definition carried :: "string \<Rightarrow> bool" where
  "carried txt \<longleftrightarrow> c_string txt \<and> reply_lines_ok (txt @ [NL])"

definition joined :: "string \<Rightarrow> string" where
  "joined txt = filter (\<lambda>c. c \<noteq> NL) txt"

lemma shared_exchange:
  assumes "frag_ok frag" "\<not> receive_sql k" "sendable r" "sql r = Some q" "sql_lines_ok (q @ [NL])"
    and "\<not> flag_set (flags r) DBRELAY_FLAG_EMBEDCSV" "\<not> flag_set (flags r) DBRELAY_FLAG_PP"
    and "relayed p r q k = Inr k1" "answers p r (q @ [NL]) k1 ss"
    and "NL \<notin> set (results_text ss)" "carried (results_text ss)"
  shows "\<exists>k'. dbrelay_conn_send_request (session_channel p frag) r (idle k) =
    Some (Inr (results_text ss, 0, idle k')) \<and> \<not> receive_sql k'"
proof -
  from assms(9) obtain d1 d2 d3 where db: "conn_db k1 \<noteq> None"
    "query_sent (peer_api p) (conn_db k1) (sql_database r) (q @ [NL]) (flags r) (dbstate k1) = Inr (True, d1)"
    "delivers (peer_api p) (conn_db k1) d1 ss d2" "list_all set_fits ss"
    "exec_if (flag_set (flags r) DBRELAY_FLAG_XACT) (peer_api p) (conn_db k1) DBRELAY_DBCMD_COMMIT d2 = Inr d3"
    by (auto simp: answers_def)
  have e: "dbrelay_exec_query (peer_api p) (conn_db k1) (sql_database r) (Some (q @ [NL])) (flags r)
      (dbstate k1) = Some (Inr (Some (results_text ss), d3))"
    using exec_query_std[OF assms(6) db(2-5)] assms(7) unfolding results_text_def by simp
  have rs: "\<not> receive_sql (relay_sql q (relay_options r k))" by (simp add: relay_sql_def)
  have run: "runs p k1 = Some (Inr (Some (results_text ss), d3))"
    using relayed_request(2,6,7)[OF assms(8)] e by (simp add: runs_def)
  have c: "c_string (results_text ss)" "reply_lines_ok (results_text ss @ [NL])"
    using assms(11) by (simp_all add: carried_def)
  have line: "filter (\<lambda>c. c \<noteq> NL) (results_text ss) = results_text ss"
    using assms(10) by (intro filter_True) auto
  note collect_results[OF assms(1) rs assms(8)[unfolded relayed_def] db(1) run c, unfolded line]
  from trans[OF send_request_idle[OF assms(1-5), of p] this]
  have "dbrelay_conn_send_request (session_channel p frag) r (idle k) =
    Some (Inr (results_text ss, 0, idle (k1\<lparr>dbstate := d3\<rparr>)))" .
  moreover have "\<not> receive_sql (k1\<lparr>dbstate := d3\<rparr>)" using relayed_request(9)[OF assms(8)] by simp
  ultimately show ?thesis by blast
qed

text \<open>A worker that waits for a named connection does not look at the outcome of a login.\<close>

lemma mark_used_login: "mark_used (env\<lparr>db_connect := f\<rparr>) = mark_used env"
  by (simp add: mark_used_def fun_eq_iff)

lemma populate_login:
  "dbrelay_db_populate_connection (env\<lparr>db_connect := f\<rparr>) = dbrelay_db_populate_connection env"
  by (intro ext) (simp add: dbrelay_db_populate_connection_def mark_used_login Let_def split: option.split)

lemma get_named:
  assumes "connection_name r \<noteq> []"
  shows "dbrelay_db_get_connection (env\<lparr>db_connect := f\<rparr>) env' r t = dbrelay_db_get_connection env env' r t"
proof -
  have "dbrelay_db_alloc_connection (env\<lparr>db_connect := f\<rparr>) r t = dbrelay_db_alloc_connection env r t" for t
    using assms by (simp add: dbrelay_db_alloc_connection_def populate_login split: option.split)
  then show ?thesis
    using assms by (simp add: dbrelay_db_get_connection_def dbrelay_db_find_connection_def split: option.split)
qed

text \<open>Nor does it close a handle as long as there is none in the table.\<close>

definition no_handles :: "table \<Rightarrow> bool" where
  "no_handles t \<longleftrightarrow> (\<forall>c\<in>set t. db c = None)"

definition quiet :: "pool_event list \<Rightarrow> bool" where
  "quiet evs \<longleftrightarrow> (\<forall>ev\<in>set evs. \<exists>path. ev = Launch path)"

lemma no_handles_update: "no_handles t \<Longrightarrow> db c = None \<Longrightarrow> no_handles (t[i := c])"
  unfolding no_handles_def using set_update_subset_insert[of t i c] by auto

lemma no_handles_sweep:
  assumes "no_handles t"
  shows "no_handles (fst (dbrelay_db_close_connections env t))" "quiet (snd (dbrelay_db_close_connections env t))"
  using assms by (auto simp: no_handles_def quiet_def close_connections_map reap_slot_def Let_def
      dbrelay_db_close_connection_def)

lemma no_handles_alloc:
  assumes "no_handles t" "connection_name r \<noteq> []" "dbrelay_db_alloc_connection env r t = Inr (r', t', s, ev)"
  shows "no_handles t'" "quiet ev"
proof -
  have c: "db (c\<lparr>slot := i\<rparr>) = None \<and> quiet ev'" if "dbrelay_db_populate_connection env r None = Inr (r'', c, ev')" for r'' c i ev'
    using that assms(2) by (cases rule: populate_cases) (auto simp: mark_used_def copy_params_zero quiet_def)
  from assms(2,3) c show "quiet ev"
    by (auto simp: dbrelay_db_alloc_connection_def rbind_eq_Inr_iff quiet_def split: option.splits)
  from assms(3) show "no_handles t'"
  proof (cases rule: alloc_cases)
    case (slot i c0 ev')
    with c[of r' c0 ev' i] assms(1,2) show ?thesis by (simp add: no_handles_update)
  qed (use assms(1) in simp)
qed

lemma no_handles_get:
  assumes "no_handles t" "connection_name r \<noteq> []" "dbrelay_db_get_connection env env' r t = Inr (r', t', s, ev)"
  shows "no_handles t'" "quiet ev"
proof -
  from assms(2,3) obtain t1 ev1 where t1: "no_handles t1" "quiet ev1"
    "t' = fst (dbrelay_db_close_connections env' t1)" "ev = ev1 @ snd (dbrelay_db_close_connections env' t1)"
  proof (cases "match_slot r t 0")
    case None
    with assms obtain t1 ev1 where "dbrelay_db_alloc_connection env r t = Inr (r', t1, s, ev1)"
      "t' = fst (dbrelay_db_close_connections env' t1)" "ev = ev1 @ snd (dbrelay_db_close_connections env' t1)"
      by (auto simp: dbrelay_db_get_connection_def dbrelay_db_find_connection_def rbind_eq_Inr_iff case_prod_beta)
    with no_handles_alloc[OF assms(1,2)] that show ?thesis by blast
  next
    case (Some i)
    let ?t = "t[i := (t ! i)\<lparr>in_use := in_use (t ! i) + 1, tm_accessed := now env\<rparr>]"
    have "no_handles ?t"
      using assms(1) match_slot_Some[OF Some] by (intro no_handles_update) (simp_all add: no_handles_def)
    moreover have "t' = fst (dbrelay_db_close_connections env' ?t)" "ev = [] @ snd (dbrelay_db_close_connections env' ?t)"
      using Some assms(2,3) by (auto simp: dbrelay_db_get_connection_def dbrelay_db_find_connection_def case_prod_beta)
    ultimately show ?thesis using that[of ?t "[]"] by (simp add: quiet_def)
  qed
  with no_handles_sweep[OF t1(1), of env'] show "no_handles t'" "quiet ev" by (auto simp: quiet_def)
qed

lemma driver_events_quiet: "quiet ev \<Longrightarrow> driver_events api (map Pool_Event ev) d = Inr d"
  by (induction ev) (auto simp: quiet_def)

lemma named_wait_quiet:
  assumes "dbrelay_wait_for_connection ps r t = Some (Inr (r', t', got, ev))" "connection_name r \<noteq> []" "no_handles t"
  shows "driver_events api ev d = Inr d"
  using assms
proof (induction ps arbitrary: r t ev)
  case (Cons p ps)
  from Cons.prems(1) obtain r1 t1 g ev1 where
    get: "dbrelay_db_get_connection (find_env p) (sweep_env p) r t = Inr (r1, t1, g, ev1)"
    by (cases "dbrelay_db_get_connection (find_env p) (sweep_env p) r t") auto
  note n = no_handles_get[OF Cons.prems(3,2) get]
  have cleanup: "driver_events api (dbrelay_cleanup_connector env c) d = Inr d" for env c
    by (simp add: dbrelay_cleanup_connector_def)
  show ?case
  proof (cases "ev = map Pool_Event ev1")
    case True
    then show ?thesis using driver_events_quiet[OF n(2)] by simp
  next
    case False
    with Cons.prems(1) get obtain i c ev' where
      rest: "dbrelay_wait_for_connection ps r1 (t1[i := (t1 ! i)\<lparr>pid := 0\<rparr>]) = Some (Inr (r', t', got, ev'))"
      and ev: "ev = map Pool_Event ev1 @ dbrelay_cleanup_connector (sweep_env p) c @ ev'" and g: "g = Some i"
      by (auto simp: Let_def loop_bind_eq_Inr_iff and_then_eq_Inr_iff split: option.splits if_splits)
    have "no_handles (t1[i := (t1 ! i)\<lparr>pid := 0\<rparr>])"
    proof (cases "i < length t1")
      case True
      with n(1) show ?thesis by (intro no_handles_update) (simp_all add: no_handles_def)
    qed (use n(1) in \<open>simp add: list_update_beyond\<close>)
    moreover have "connection_name r1 \<noteq> []"
      using get_request[OF get] Cons.prems(2) by (auto simp: same_request_def)
    ultimately have "driver_events api ev' d = Inr d" using Cons.IH[OF rest] by blast
    then show ?thesis by (simp add: ev driver_events_append driver_events_quiet[OF n(2)] cleanup)
  qed
qed simp

lemma named_wait:
  assumes "connection_name r \<noteq> []"
  shows "dbrelay_wait_for_connection (map (with_handle h) ps) r t = dbrelay_wait_for_connection ps r t"
  using assms
proof (induction ps arbitrary: r t)
  case (Cons p ps)
  have get: "dbrelay_db_get_connection (find_env (with_handle h p)) (sweep_env p) r t =
      dbrelay_db_get_connection (find_env p) (sweep_env p) r t"
    using get_named[OF Cons.prems] by (simp add: with_handle_def)
  have env: "sweep_env (with_handle h p) = sweep_env p" "connect_calls (with_handle h p) = connect_calls p"
    by (simp_all add: with_handle_def)
  show ?case
  proof (cases "dbrelay_db_get_connection (find_env p) (sweep_env p) r t")
    case (Inr got)
    obtain r1 t1 g ev where g: "got = (r1, t1, g, ev)" by (cases got)
    have "connection_name r1 \<noteq> []"
      using Cons.prems get_request[OF Inr[unfolded g]] by (auto simp: same_request_def)
    then have "dbrelay_wait_for_connection (map (with_handle h) ps) r1 t2 =
        dbrelay_wait_for_connection ps r1 t2" for t2 by (rule Cons.IH)
    then show ?thesis
      unfolding list.map dbrelay_wait_for_connection.simps env
      unfolding get Inr g
      by (cases g) (simp_all add: Let_def del: dbrelay_wait_for_connection.simps cong: if_cong)
  qed (simp add: env get)
qed simp

text \<open>
  A request with a name was given the slot \<open>c\<close> of the table \<open>t\<close> and a descriptor of its
  connector; the driver of the worker is in state \<open>d\<close> after what the sweeps closed meanwhile.
\<close>

definition shared_connection ::
    "('d, 'w) query_env \<Rightarrow> dbrelay_request \<Rightarrow> ('d, 'w) world \<Rightarrow> dbrelay_connection \<Rightarrow> int \<Rightarrow> table \<Rightarrow>
     relay_event list \<Rightarrow> 'd \<Rightarrow> bool" where
  "shared_connection env r w c s t ev d \<longleftrightarrow> connection_name r \<noteq> [] \<and> connection_timeout r \<noteq> 0 \<and>
     (\<exists>r'. dbrelay_wait_for_connection (q_passes env) r (w_table w) = Some (Inr (r', t, Some (c, s), ev))) \<and>
     usable r t c s \<and> driver_events (q_api env) ev (w_db w) = Inr d"

lemma run_shared_connection:
  assumes "ready_to_run env r q ps newsql" "shared_connection env r w c s t ev d"
  shows "dbrelay_db_run_query env r w =
    loop_bind (query_over_connector env r (slot c) s (open_json r)
        (w\<lparr>w_table := t, w_db := d, w_events := w_events w @ ev\<rparr>))
      (finish_query env r (slot c))"
proof -
  from assms(2) obtain r' where w: "connection_name r \<noteq> []" "connection_timeout r \<noteq> 0"
    "dbrelay_wait_for_connection (q_passes env) r (w_table w) = Some (Inr (r', t, Some (c, s), ev))"
    "driver_events (q_api env) ev (w_db w) = Inr d" by (auto simp: shared_connection_def)
  have "r' = r" using same_request_eq[OF wait_request[OF w(3)] w(2)] .
  with w named_wait[OF w(1), of None "q_passes env"] assms(1) show ?thesis
    by (simp add: dbrelay_db_run_query_def ready_to_run_def open_own_def Let_def)
qed

text \<open>The slot after the query: the number of the connector's process in it, and a user less.\<close>

definition slot_done :: "('d, 'w) query_env \<Rightarrow> 'e peer \<Rightarrow> dbrelay_connection \<Rightarrow> table \<Rightarrow> table" where
  "slot_done env p c t = t[slot c := (t ! slot c)\<lparr>helper_pid := int (peer_pid p),
     tm_accessed := now (q_end env), in_use := in_use (t ! slot c) - 1\<rparr>]"

definition shared_query_done ::
    "('d, 'w) query_env \<Rightarrow> ('d, 'w) world \<Rightarrow> 'e peer \<Rightarrow> dbrelay_connection \<Rightarrow> table \<Rightarrow>
     relay_event list \<Rightarrow> 'd \<Rightarrow> ('d, 'w) world \<Rightarrow> bool" where
  "shared_query_done env w p c t ev d w' \<longleftrightarrow> w_table w' = slot_done env p c t \<and> w_db w' = d \<and>
     w_events w' = w_events w @ ev"

lemma query_exchanged:
  assumes "ready_to_run env r q ps newsql" "shared_connection env r w c s t ev d" "served_by env w s p k"
    and "\<And>frag. frag_ok frag \<Longrightarrow> \<exists>k'. dbrelay_conn_send_request (session_channel p frag) r (idle k) =
      Some (Inr (ret, have_error, idle k')) \<and> \<not> receive_sql k'"
    and "have_error = 0 \<and> ret \<noteq> [] \<and> j = json_add_json (json_add_json (open_json r) '', '') ret \<and> e = [] \<or>
      have_error = 1 \<and> j = dbrelay_db_restart_json r (open_json r) \<and> e = dbrelay_copy_string ret ERROR_STRING_SZ"
    and "dbrelay_append_log_json j r e = Inr j'"
  shows "\<exists>w'. dbrelay_db_run_query env r w = Some (Inr (close_json r j', w')) \<and> shared_query_done env w p c t ev d w'"
proof -
  from assms(3) obtain frag where frag: "frag_ok frag" "q_channel env s = session_channel p frag"
    and k: "w_wire w = idle k" "\<not> receive_sql k" "0 < peer_pid p" "peer_pid p < 2147483648"
    by (auto simp: served_by_def)
  from assms(4)[OF frag(1)] obtain k' where
    send: "dbrelay_conn_send_request (session_channel p frag) r (idle k) = Some (Inr (ret, have_error, idle k'))"
      "\<not> receive_sql k'" by blast
  from close_idle[OF frag(1) send(2), of p] obtain wire where
    close: "dbrelay_conn_close (session_channel p frag) (idle k') = Some wire" by blast
  let ?t = "t[slot c := (t ! slot c)\<lparr>helper_pid := int (peer_pid p)\<rparr>]"
  have over: "query_over_connector env r (slot c) s (open_json r)
      (w\<lparr>w_table := t, w_db := d, w_events := w_events w @ ev\<rparr>) =
      Some (Inr (Go_On j e, w\<lparr>w_table := ?t, w_db := d, w_events := w_events w @ ev, w_wire := wire\<rparr>))"
    using initialize_idle[OF frag(1) k(2,4), of "q_garbage env"] k(1,3) frag(2) send close assms(5)
    by (auto simp: query_over_connector_def Let_def)
  have live: "slot c < length t" "c_connection_name (t ! slot c) \<noteq> []"
    using assms(2) by (auto simp: shared_connection_def usable_def same_keys_def)
  note rel = release_named[OF live, of "q_end env" "int (peer_pid p)"]
  show ?thesis
    using run_shared_connection[OF assms(1,2)] over assms(6) rel
    by (simp add: finish_query_def shared_query_done_def slot_done_def)
qed

lemma query_shared_results:
  assumes "ready_to_run env r q ps newsql" "shared_connection env r w c s t ev d" "served_by env w s p k"
    and "sendable r" "sql_lines_ok (q @ [NL])"
    and "\<not> flag_set (flags r) DBRELAY_FLAG_EMBEDCSV" "\<not> flag_set (flags r) DBRELAY_FLAG_PP"
    and "relayed p r q k = Inr k1" "answers p r (q @ [NL]) k1 ss"
    and "NL \<notin> set (results_text ss)" "carried (results_text ss)"
  shows "\<exists>w'. dbrelay_db_run_query env r w = Some (Inr (reply_text False r
      [(''data'', JArr (map set_tree ss)), (''log'', log_tree r q ps [])], w')) \<and>
    shared_query_done env w p c t ev d w'"
proof -
  from assms(1) obtain rest where r: "sql r = Some q" "params r = map Some ps @ None # rest"
    by (auto simp: ready_to_run_def)
  have rs: "\<not> receive_sql k" using assms(3) by (simp add: served_by_def)
  let ?j = "json_add_json (json_add_json (open_json r) '', '') (results_text ss)"
  have ne: "results_text ss \<noteq> []" by (simp add: results_text_def)
  have reply: "close_json r (json_end_object (emit_member ''log'' (log_tree r q ps []) ?j)) =
      reply_text False r [(''data'', JArr (map set_tree ss)), (''log'', log_tree r q ps [])]"
    unfolding results_text_def by (rule pasted_reply[OF assms(7)])
  from query_exchanged[OF assms(1-3) shared_exchange[OF _ rs assms(4) r(1) assms(5-11)] _
      append_log_emit[OF r, of ?j "[]"]] ne reply show ?thesis by simp
qed

lemma query_shared_error:
  assumes "ready_to_run env r q ps newsql" "shared_connection env r w c s t ev d" "served_by env w s p k"
    and "sendable r" "sql_lines_ok (q @ [NL])"
    and "relayed p r q k = Inr k1" "rejects p r (q @ [NL]) k1 err" "carried err"
  shows "\<exists>w'. dbrelay_db_run_query env r w = Some (Inr (reply_text True r
      [(''log'', log_tree r q ps (dbrelay_copy_string (joined err) ERROR_STRING_SZ))], w')) \<and>
    shared_query_done env w p c t ev d w'"
proof -
  from assms(1) obtain rest where r: "sql r = Some q" "params r = map Some ps @ None # rest"
    by (auto simp: ready_to_run_def)
  have rs: "\<not> receive_sql k" using assms(3) by (simp add: served_by_def)
  from assms(7) obtain d1 d2 where db: "conn_db k1 \<noteq> None"
    "query_sent (peer_api p) (conn_db k1) (sql_database r) (q @ [NL]) (flags r) (dbstate k1) = Inr (False, d1)"
    "exec_if (flag_set (flags r) DBRELAY_FLAG_XACT) (peer_api p) (conn_db k1) DBRELAY_DBCMD_ROLLBACK d1 = Inr d2"
    "api_error (peer_api p) (conn_db k1) d2 = Inr err" by (auto simp: rejects_def)
  have c: "c_string err" "reply_lines_ok (err @ [NL])" using assms(8) by (simp_all add: carried_def)
  have send: "\<exists>k'. dbrelay_conn_send_request (session_channel p frag) r (idle k) =
      Some (Inr (joined err, 1, idle k')) \<and> \<not> receive_sql k'" if "frag_ok frag" for frag
    using session_error[OF that rs assms(4) r(1) assms(5,6) db(1) exec_query_refused[OF db(2,3)] db(4) c]
    by (auto simp: joined_def)
  let ?e = "dbrelay_copy_string (joined err) ERROR_STRING_SZ"
  from error_reply_text[OF r, of ?e] obtain j where
    "dbrelay_append_log_json (dbrelay_db_restart_json r (open_json r)) r ?e = Inr j"
    "close_json r j = reply_text True r [(''log'', log_tree r q ps ?e)]" by blast
  with query_exchanged[OF assms(1-3) send _ this(1)] show ?thesis by simp
qed

subsection \<open>Properties\<close>

text \<open>C2.
  A complete request with a connection name is answered through its connector: the reply is the
  JSON document of the echo of the request, the tree of the result sets that the connector's
  database delivers, and the log; the database is given the query as the caller wrote it, not the
  one with its parameters substituted; the number of the connector's process is noted in the slot,
  and the count of users goes back by one. The fields and the query hold nothing the protocol
  takes for its own, and the text of the results is one line.
\<close>

theorem run_query_shared_results:
  assumes "ready_to_run env r q ps newsql" "shared_connection env r w c s t ev d" "served_by env w s p k"
    and "sendable r" "sql_lines_ok (q @ [NL])"
    and "\<not> flag_set (flags r) DBRELAY_FLAG_EMBEDCSV" "\<not> flag_set (flags r) DBRELAY_FLAG_PP"
    and "relayed p r q k = Inr k1" "answers p r (q @ [NL]) k1 ss"
    and "NL \<notin> set (results_text ss)" "carried (results_text ss)"
  shows "\<exists>w'. dbrelay_db_run_query env r w = Some (Inr (reply_text False r
      [(''data'', JArr (map set_tree ss)), (''log'', log_tree r q ps [])], w')) \<and>
    shared_query_done env w p c t ev d w'"
  by (rule query_shared_results[OF assms])

text \<open>When the connector does not answer the greeting, the caller gets an error, but the slot keeps
  its count of users: nothing releases it, so the sweep will not take it before the hard timeout.
\<close>

theorem init_failure_keeps_user:
  assumes "ready_to_run env r q ps newsql" "shared_connection env r w c s t ev d"
    and "dbrelay_conn_initialize (q_channel env s) (q_garbage env) (w_wire w) = Some (- 1, wire)"
  shows "\<exists>w' e. dbrelay_db_run_query env r w =
      Some (Inr (reply_text True r [(''log'', refusal_tree r e)], w')) \<and>
    w_table w' = t \<and> in_use (w_table w' ! slot c) \<noteq> 0"
proof -
  have "in_use (t ! slot c) \<noteq> 0" using assms(2) by (auto simp: shared_connection_def usable_def)
  with run_shared_connection[OF assms(1,2)] assms(3) show ?thesis
    by (auto simp: query_over_connector_def finish_query_def refusal_text)
qed

subsection \<open>Samples\<close>

definition sample_shared_env :: "memory_db session channel \<Rightarrow> (memory_db, memory_db session) query_env" where
  "sample_shared_env ch = \<lparr>q_magic = [], q_passes = [sample_pass], q_api = memory_api,
     q_channel = (\<lambda>s. ch), q_garbage = [], q_end = sample_env 300\<rparr>"

definition sample_shared_world :: "(memory_db, memory_db session) world" where
  "sample_shared_world = \<lparr>w_table = empty_table, w_db = ([], no_set, []), w_wire = idle sample_connector,
     w_events = []\<rparr>"

lemma sample_sent_simps [simp]:
  "sql (sample_sent q) = Some q" "flags (sample_sent q) = 0" "connection_name (sample_sent q) = ''shared''"
  "connection_timeout (sample_sent q) = 60" "sock_path (sample_sent q) = []"
  "params (sample_sent q) = None # replicate 99 None"
  by (simp_all add: sample_sent_def zero_request_def size_defs flip: replicate_Suc)

lemma sample_sent_ready:
  "ready_to_run (sample_shared_env ch) (sample_sent ''select 1'') ''select 1'' [] ''select 1''"
proof -
  have "dbrelay_check_request (sample_sent ''select 1'')"
    by (simp add: dbrelay_check_request_def sample_sent_def)
  then show ?thesis
    by (simp add: ready_to_run_def sample_shared_env_def dbrelay_resolve_params_def cstr_def)
qed

lemma sample_sent_wf: "request_wf (sample_sent ''select 1'')"
  by (simp add: request_wf_def sample_sent_def zero_request_def fits_def size_defs list_all_iff)

lemma sample_results:
  "results_text [sample_set] = key_text False ''data'' @ render False 0 (JArr [set_tree sample_set])"
  by (simp add: results_text_def del: render.simps)

lemma sample_results_line: "NL \<notin> set (results_text [sample_set])" "carried (results_text [sample_set])"
proof -
  have n: "NL \<notin> set (results_text [sample_set])" and z: "c_string (results_text [sample_set])"
    and l: "line_ok (results_text [sample_set])" and k: "\<not> control_line (results_text [sample_set])"
    unfolding sample_results sample_text
    by (simp, simp, simp add: line_ok_def size_defs, simp add: control_line_def)
  show "NL \<notin> set (results_text [sample_set])" by (rule n)
  show "carried (results_text [sample_set])" using z reply_line_ok[OF l k] by (simp add: carried_def)
qed

text \<open>In an empty table a connector is started, and nothing is closed.\<close>

lemma sample_shared:
  assumes "q_passes env = [sample_pass]" "w_table w = empty_table"
    and "connection_name r \<noteq> []" "connection_timeout r \<noteq> 0" "sock_path r = []" "request_wf r"
  obtains c t ev where "shared_connection env r w c 5 t ev (w_db w)"
proof -
  obtain r' t c ev where wait: "dbrelay_wait_for_connection [sample_pass] r empty_table =
      Some (Inr (r', t, Some (c, 5), ev))" using sample_wait[OF assms(3,5)] by blast
  have "no_handles empty_table" by (simp add: no_handles_def empty_table_def zero_conn_def)
  from named_wait_quiet[OF wait assms(3) this, of "q_api env" "w_db w"] sample_usable[OF wait assms(6)] wait assms that
  show thesis by (auto simp: shared_connection_def simp del: dbrelay_wait_for_connection.simps)
qed

theorem run_query_shared_results_witness:
  "\<exists>w'. dbrelay_db_run_query (sample_shared_env (session_channel sample_peer byte_by_byte))
     (sample_sent ''select 1'') sample_shared_world =
     Some (Inr (reply_text False (sample_sent ''select 1'') [(''data'', JArr [set_tree sample_set]),
       (''log'', log_tree (sample_sent ''select 1'') ''select 1'' [] [])], w'))"
proof -
  let ?r = "sample_sent ''select 1''" and ?env = "sample_shared_env (session_channel sample_peer byte_by_byte)"
  obtain c t ev where 1: "shared_connection ?env ?r sample_shared_world c 5 t ev (w_db sample_shared_world)"
    by (rule sample_shared[of ?env sample_shared_world ?r])
      (simp_all add: sample_shared_env_def sample_shared_world_def sample_sent_wf)
  have 2: "served_by ?env sample_shared_world 5 sample_peer sample_connector"
    using byte_by_byte_ok by (auto simp: served_by_def sample_shared_env_def sample_shared_world_def
        sample_connector_def sample_peer_def)
  have 3: "sql_lines_ok (''select 1'' @ [NL])"
    by (intro sql_line_ok) (simp_all add: line_ok_def size_defs ends_sql_def strncmp_eq_def)
  obtain k where k: "relayed sample_peer ?r ''select 1'' sample_connector = Inr k" "conn_db k = Some 1"
    "dbstate k = ([sample_set], no_set, [])" using sample_relayed by blast
  have fl: "\<not> flag_set (flags ?r) f" for f by (simp add: flag_set_def)
  have sent: "query_sent memory_api (Some 1) (sql_database ?r) (''select 1'' @ [NL]) (flags ?r)
      ([sample_set], no_set, []) = Inr (True, ([sample_set], no_set, []))"
    by (simp add: query_sent_def before_query_def exec_if_def fl) (simp add: memory_api_def)
  have fit: "list_all set_fits [sample_set]" by (simp add: sample_fits)
  have 5: "answers sample_peer ?r (''select 1'' @ [NL]) k [sample_set]"
    unfolding answers_def k(2,3) sample_api exec_if_def
    unfolding if_not_P[OF fl]
    using sent sample_delivers[of "Some 1"] fit by blast
  have s: "sendable ?r" by (simp add: sample_sendable)
  from run_query_shared_results[OF sample_sent_ready 1 2 s 3 fl fl k(1) 5 sample_results_line]
  show ?thesis by (auto simp del: render.simps)
qed

definition mute_channel :: "memory_db session channel" where
  "mute_channel = \<lparr>ch_send = (\<lambda>s w. Some (- 1, w)), ch_recv = (\<lambda>st w. Some (- 1, [], st, w))\<rparr>"

theorem init_failure_keeps_user_witness:
  "\<exists>txt w' i. dbrelay_db_run_query (sample_shared_env mute_channel) (sample_sent ''select 1'')
     sample_shared_world = Some (Inr (txt, w')) \<and> in_use (w_table w' ! i) \<noteq> 0"
proof -
  let ?r = "sample_sent ''select 1''" and ?env = "sample_shared_env mute_channel"
  obtain c t ev where 1: "shared_connection ?env ?r sample_shared_world c 5 t ev (w_db sample_shared_world)"
    by (rule sample_shared[of ?env sample_shared_world ?r])
      (simp_all add: sample_shared_env_def sample_shared_world_def sample_sent_wf)
  have 2: "dbrelay_conn_initialize (q_channel ?env 5) (q_garbage ?env) (w_wire sample_shared_world) =
      Some (- 1, w_wire sample_shared_world)"
    by (simp add: sample_shared_env_def mute_channel_def dbrelay_conn_initialize_def)
  from init_failure_keeps_user[OF sample_sent_ready 1 2] show ?thesis by auto
qed

end
