(* ===== verification/Status.thy ===== *)
theory Status
  imports Run_Query
begin

section \<open>The status page (src/db.c)\<close>

text \<open>
  \<^verbatim>\<open>dbrelay_db_status\<close>: one object per live slot of the table.
  The build's name, the key of the shared memory and the printing of local times are parameters.
  \<^verbatim>\<open>%u\<close> prints the low 32 bits of a process number.
\<close>

definition hex8 :: "32 word \<Rightarrow> string" where
  "hex8 k = map (\<lambda>i. hex_char (unat k div 16 ^ i mod 16)) (rev [0..<8])"

definition show_unsigned :: "int \<Rightarrow> string" where
  "show_unsigned i = show_nat (unat (word_of_int i :: 32 word))"

definition status_slot :: "(int \<Rightarrow> string) \<Rightarrow> dbrelay_connection \<Rightarrow> json \<Rightarrow> json" where
  "status_slot fmt c j =
     (let j = json_new_object j;
          j = json_add_number j ''slot'' (show_nat (slot c));
          j = json_add_number j ''pid'' (show_unsigned (pid c));
          j = json_add_string j ''name'' (c_connection_name c);
          j = json_add_string j ''tm_created'' (fmt (tm_create c));
          j = json_add_string j ''tm_accessed'' (fmt (tm_accessed c));
          j = json_add_string j ''sql_server'' (c_sql_server c);
          j = json_add_string j ''sql_port'' (c_sql_port c);
          j = json_add_string j ''sql_database'' (c_sql_database c);
          j = json_add_string j ''sql_user'' (c_sql_user c);
          j = json_add_number j ''connection_timeout'' (show_int (c_connection_timeout c));
          j = json_add_number j ''in_use'' (show_nat (unat (in_use c)));
          j = json_add_string j ''sock_path'' (c_sock_path c);
          j = json_add_number j ''helper_pid'' (show_unsigned (helper_pid c))
      in json_end_object j)"

fun status_loop :: "(int \<Rightarrow> string) \<Rightarrow> table \<Rightarrow> json \<Rightarrow> json" where
  "status_loop fmt [] j = j"
| "status_loop fmt (c # cs) j = status_loop fmt cs (if pid c \<noteq> 0 then status_slot fmt c j else j)"

definition dbrelay_db_status :: "(int \<Rightarrow> string) \<Rightarrow> string \<Rightarrow> 32 word \<Rightarrow> table \<Rightarrow> string" where
  "dbrelay_db_status fmt build ipckey t =
     (let j = json_new_object json_new;
          j = json_new_object (json_add_key j ''status'');
          j = json_new_object (json_add_key j ''info'');
          j = json_add_string j ''build'' build;
          j = json_add_string j ''ipckey'' (''0x'' @ hex8 ipckey);
          j = json_end_object j;
          j = json_new_array (json_add_key j ''connections'');
          j = status_loop fmt t j;
          j = json_end_object (json_end_object (json_end_array j))
      in json_to_string j)"

definition slot_tree :: "(int \<Rightarrow> string) \<Rightarrow> dbrelay_connection \<Rightarrow> jtree" where
  "slot_tree fmt c = JObj [
     (''slot'', JNum (show_nat (slot c))), (''pid'', JNum (show_unsigned (pid c))),
     (''name'', JStr (c_connection_name c)),
     (''tm_created'', JStr (fmt (tm_create c))), (''tm_accessed'', JStr (fmt (tm_accessed c))),
     (''sql_server'', JStr (c_sql_server c)), (''sql_port'', JStr (c_sql_port c)),
     (''sql_database'', JStr (c_sql_database c)), (''sql_user'', JStr (c_sql_user c)),
     (''connection_timeout'', JNum (show_int (c_connection_timeout c))),
     (''in_use'', JNum (show_nat (unat (in_use c)))), (''sock_path'', JStr (c_sock_path c)),
     (''helper_pid'', JNum (show_unsigned (helper_pid c)))]"

lemma status_slot_emit: "status_slot fmt c j = emit_elem (slot_tree fmt c) j"
  by (simp add: status_slot_def slot_tree_def Let_def)

lemma status_loop_emit:
  "status_loop fmt t j = emit_elems (map (slot_tree fmt) (filter (\<lambda>c. pid c \<noteq> 0) t)) j"
  by (induction t arbitrary: j) (simp_all add: status_slot_emit)

definition status_tree :: "(int \<Rightarrow> string) \<Rightarrow> string \<Rightarrow> 32 word \<Rightarrow> table \<Rightarrow> jtree" where
  "status_tree fmt build ipckey t = JObj [(''status'', JObj [
     (''info'', JObj [(''build'', JStr build), (''ipckey'', JStr (''0x'' @ hex8 ipckey))]),
     (''connections'', JArr (map (slot_tree fmt) (filter (\<lambda>c. pid c \<noteq> 0) t)))])]"

lemma status_text: "dbrelay_db_status fmt build ipckey t = render False 0 (status_tree fmt build ipckey t)"
proof -
  let ?ms = "[(''status'', JObj [
     (''info'', JObj [(''build'', JStr build), (''ipckey'', JStr (''0x'' @ hex8 ipckey))]),
     (''connections'', JArr (map (slot_tree fmt) (filter (\<lambda>c. pid c \<noteq> 0) t)))])]"
  have "dbrelay_db_status fmt build ipckey t =
      json_to_string (json_end_object (emit_members ?ms (json_new_object json_new)))"
    by (simp add: dbrelay_db_status_def status_loop_emit Let_def)
  also have "\<dots> = [] @ render False 0 (JObj ?ms)" by (rule document_text[OF json_new_starts])
  finally show ?thesis by (simp only: status_tree_def append_Nil)
qed

text \<open>The status page is the JSON text of the build, the key of the shared memory and one object per
  live slot, in table order.
\<close>

theorem db_status_text:
  "dbrelay_db_status fmt build ipckey t = render False 0 (JObj [(''status'', JObj [
     (''info'', JObj [(''build'', JStr build), (''ipckey'', JStr (''0x'' @ hex8 ipckey))]),
     (''connections'', JArr (map (slot_tree fmt) (filter (\<lambda>c. pid c \<noteq> 0) t)))])])"
  by (simp add: status_text status_tree_def del: render.simps)

text \<open>Nothing on the status page depends on a password in the table.
\<close>

theorem db_status_hides_passwords:
  "dbrelay_db_status fmt build ipckey (map (\<lambda>c. c\<lparr>c_sql_password := pw c\<rparr>) t) =
     dbrelay_db_status fmt build ipckey t"
proof -
  have "map (slot_tree fmt) (filter (\<lambda>c. pid c \<noteq> 0) (map (\<lambda>c. c\<lparr>c_sql_password := pw c\<rparr>) t)) =
      map (slot_tree fmt) (filter (\<lambda>c. pid c \<noteq> 0) t)"
    by (induction t) (simp_all add: slot_tree_def)
  then show ?thesis by (simp add: status_text status_tree_def del: render.simps)
qed

end
