(* ===== verification/Admin.thy ===== *)
theory Admin
  imports Run_Query
begin

section \<open>The administration commands (src/admin.c)\<close>

text \<open>
  \<^verbatim>\<open>dbrelay_db_cmd\<close> and its four commands: killing a connector by the path of its
  socket, and the three catalog queries, which are ordinary queries with the text of the driver.
  What \<^verbatim>\<open>kill(pid, 0)\<close> says of a process, and the calls that connect to the socket, are
  parameters beside those of a query.
\<close>

record ('d, 'w) admin_env =
  a_query :: "('d, 'w) query_env"
  a_calls :: sock_calls
  a_dead :: "int \<Rightarrow> bool"

definition SUCCESS :: nat where "SUCCESS = 0"
definition FAIL :: nat where "FAIL = 1"
definition NOTFOUND :: nat where "NOTFOUND = 2"

lemmas admin_codes = SUCCESS_def FAIL_def NOTFOUND_def

definition dbrelay_admin_result_text :: "nat \<Rightarrow> string" where
  "dbrelay_admin_result_text ret =
     (if ret = SUCCESS then ''succeeded''
      else if ret = FAIL then ''failed''
      else if ret = NOTFOUND then ''not found''
      else ''unknown result'')"

text \<open>The loop looks at the first parameter in every turn.\<close>

definition check_params :: "string option list \<Rightarrow> nat \<Rightarrow> bool" where
  "check_params ps needed = list_all (\<lambda>i. ps ! 0 \<noteq> None) [0..<needed]"

definition dbrelay_json_error :: "string \<Rightarrow> string" where
  "dbrelay_json_error error_string =
     (let j = json_new_object json_new;
          j = json_new_object (json_add_key j ''log'');
          j = json_add_string j ''error'' error_string
      in json_to_string (json_end_object (json_end_object j)))"

subsection \<open>Killing a connector\<close>

text \<open>
  The scan of the table: the process and the slot of the last live connection with the path;
  \<open>-1\<close> and \<open>None\<close> when there is none.
\<close>

fun helper_loop :: "string \<Rightarrow> table \<Rightarrow> nat \<Rightarrow> int \<times> nat option \<Rightarrow> int \<times> nat option" where
  "helper_loop path [] i found = found"
| "helper_loop path (c # cs) i found =
     helper_loop path cs (i + 1)
       (if pid c \<noteq> 0 \<and> c_sock_path c = path then (helper_pid c, Some i) else found)"

text \<open>
  What follows once the connector was told to end. The test
  \<^verbatim>\<open>if (kill(pid, 0)) kill(pid, SIGTERM)\<close> signals the process when it cannot be
  signalled.
\<close>

definition remove_connector ::
    "('d, 'w) admin_env \<Rightarrow> string \<Rightarrow> ('d, 'w) world \<Rightarrow> (nat \<times> ('d, 'w) world) result" where
  "remove_connector env path w =
     (let (pid, found) = helper_loop path (w_table w) 0 (- 1, None)
      in if pid = - 1 then Inr (NOTFOUND, w)
         else
           let w = (if a_dead env pid then w\<lparr>w_events := w_events w @ [Term_Helper pid]\<rparr> else w)
           in case found of
                None \<Rightarrow> Inr (SUCCESS, w)
              | Some i \<Rightarrow>
                  let (c, ev) = dbrelay_db_close_connection (w_table w ! i);
                      ev = map Pool_Event ev
                  in rbind (driver_events (q_api (a_query env)) ev (w_db w)) (\<lambda>d.
                       Inr (SUCCESS, w\<lparr>w_table := (w_table w)[i := c], w_db := d,
                         w_events := w_events w @ ev\<rparr>)))"

definition dbrelay_admin_kill ::
    "('d, 'w) admin_env \<Rightarrow> string \<Rightarrow> ('d, 'w) world \<Rightarrow> (nat \<times> ('d, 'w) world) result option" where
  "dbrelay_admin_kill env path w =
     and_then (dbrelay_socket_connect (a_calls env) path 10) (\<lambda>(s, err).
       if s = - 1 then Some (Inr (FAIL, w))
       else
         map_option (\<lambda>wire. remove_connector env path (w\<lparr>w_wire := wire\<rparr>))
           (dbrelay_conn_kill (q_channel (a_query env) s) (w_wire w)))"

subsection \<open>The commands\<close>

definition catalog_query ::
    "('d, 'w) admin_env \<Rightarrow> nat \<Rightarrow> string option list \<Rightarrow> dbrelay_request \<Rightarrow> ('d, 'w) world \<Rightarrow>
     (string \<times> ('d, 'w) world) result option" where
  "catalog_query env dbcmd ps r w =
     and_then (api_catalogsql (q_api (a_query env)) dbcmd ps) (\<lambda>q.
       dbrelay_db_run_query (a_query env) (r\<lparr>sql := q\<rparr>) w)"

definition dbrelay_admin_tables ::
    "('d, 'w) admin_env \<Rightarrow> dbrelay_request \<Rightarrow> ('d, 'w) world \<Rightarrow> (string \<times> ('d, 'w) world) result option" where
  "dbrelay_admin_tables env r w = catalog_query env DBRELAY_DBCMD_TABLES [] r w"

definition dbrelay_admin_columns ::
    "('d, 'w) admin_env \<Rightarrow> dbrelay_request \<Rightarrow> ('d, 'w) world \<Rightarrow> (string \<times> ('d, 'w) world) result option" where
  "dbrelay_admin_columns env r w = catalog_query env DBRELAY_DBCMD_COLUMNS (params r) r w"

definition dbrelay_admin_pkey ::
    "('d, 'w) admin_env \<Rightarrow> dbrelay_request \<Rightarrow> ('d, 'w) world \<Rightarrow> (string \<times> ('d, 'w) world) result option" where
  "dbrelay_admin_pkey env r w = catalog_query env DBRELAY_DBCMD_PKEY (params r) r w"

definition cmd_status :: "nat \<Rightarrow> string" where
  "cmd_status ret =
     (let j = json_new_object json_new;
          j = json_new_object (json_add_key j ''cmd'');
          j = json_add_string j ''status'' (dbrelay_admin_result_text ret)
      in json_to_string (json_end_object (json_end_object j)))"

definition dbrelay_db_cmd ::
    "('d, 'w) admin_env \<Rightarrow> dbrelay_request \<Rightarrow> ('d, 'w) world \<Rightarrow> (string \<times> ('d, 'w) world) result option" where
  "dbrelay_db_cmd env r w =
     (if cmd r = ''kill'' then
        if \<not> check_params (params r) 1 then Some (Inr (dbrelay_json_error ''No parameter specified'', w))
        else
          loop_bind (dbrelay_admin_kill env (the (params r ! 0)) w)
            (\<lambda>(ret, w). Some (Inr (cmd_status ret, w)))
      else if cmd r = ''tables'' then dbrelay_admin_tables env r w
      else if cmd r = ''columns'' then
        if \<not> check_params (params r) 1 then Some (Inr (dbrelay_json_error ''No parameter specified'', w))
        else dbrelay_admin_columns env r w
      else if cmd r = ''pkey'' then
        if \<not> check_params (params r) 1 then Some (Inr (dbrelay_json_error ''No parameter specified'', w))
        else dbrelay_admin_pkey env r w
      else Some (Inr (dbrelay_json_error ''Unknown admin command'', w)))"

subsection \<open>What the commands answer\<close>

lemma json_error_text:
  "dbrelay_json_error e = render False 0 (JObj [(''log'', JObj [(''error'', JStr e)])])"
  using document_text[OF json_new_starts, of "[(''log'', JObj [(''error'', JStr e)])]"]
  by (simp add: dbrelay_json_error_def Let_def del: render.simps json_add_scalar_simps json_new_object_simps
      json_end_object_simps json_add_key_simps)

lemma cmd_status_text:
  "cmd_status ret =
     render False 0 (JObj [(''cmd'', JObj [(''status'', JStr (dbrelay_admin_result_text ret))])])"
  using document_text[OF json_new_starts,
      of "[(''cmd'', JObj [(''status'', JStr (dbrelay_admin_result_text ret))])]"]
  by (simp add: cmd_status_def Let_def del: render.simps json_add_scalar_simps json_new_object_simps
      json_end_object_simps json_add_key_simps)

definition has_path :: "string \<Rightarrow> dbrelay_connection \<Rightarrow> bool" where
  "has_path path c \<longleftrightarrow> pid c \<noteq> 0 \<and> c_sock_path c = path"

lemma helper_loop_append:
  "helper_loop path (a @ b) k found = helper_loop path b (k + length a) (helper_loop path a k found)"
  by (induction a arbitrary: k found) simp_all

lemma helper_loop_none: "\<not> list_ex (has_path path) t \<Longrightarrow> helper_loop path t k found = found"
  by (induction t arbitrary: k) (auto simp: has_path_def)

lemma helper_loop_last:
  assumes "has_path path c" "\<not> list_ex (has_path path) t2"
  shows "helper_loop path (t1 @ c # t2) 0 found = (helper_pid c, Some (length t1))"
  using assms by (simp add: helper_loop_append helper_loop_none) (simp add: has_path_def)

lemma check_params_1: "check_params ps (Suc 0) \<longleftrightarrow> ps ! 0 \<noteq> None"
  by (simp add: check_params_def)

lemma remove_connector_events:
  assumes "remove_connector env path w = Inr (ret, w')"
  shows "\<exists>ev. w_events w' = w_events w @ ev \<and> {p. Term_Helper p \<in> set ev \<and> \<not> a_dead env p} = {}"
proof (cases "helper_loop path (w_table w) 0 (- 1, None)")
  case (Pair p found)
  with assms show ?thesis
    by (cases found) (auto simp: remove_connector_def Let_def dbrelay_db_close_connection_def
        rbind_eq_Inr_iff split: if_splits)
qed

subsection \<open>Properties\<close>


text \<open>The kill command never sends a signal to a process that is there: its test of the process is
  the wrong way round, so a connector that does not obey the command over its socket stays.
\<close>

theorem kill_signals_only_dead:
  assumes "cmd r = ''kill''" "dbrelay_db_cmd env r w = Some (Inr (txt, w'))"
  shows "\<exists>ev. w_events w' = w_events w @ ev \<and> {p. Term_Helper p \<in> set ev \<and> \<not> a_dead env p} = {}"
proof (cases "check_params (params r) 1")
  case False
  with assms show ?thesis by (simp add: dbrelay_db_cmd_def)
next
  case True
  with assms obtain ret where "dbrelay_admin_kill env (the (params r ! 0)) w = Some (Inr (ret, w'))"
    by (auto simp: dbrelay_db_cmd_def loop_bind_eq_Inr_iff)
  then have "w' = w \<or> (\<exists>wire. remove_connector env (the (params r ! 0)) (w\<lparr>w_wire := wire\<rparr>) = Inr (ret, w'))"
    by (auto simp: dbrelay_admin_kill_def and_then_eq_Inr_iff split: if_splits)
  then show ?thesis
    using remove_connector_events[of env "the (params r ! 0)" "w\<lparr>w_wire := _\<rparr>"] by auto
qed

subsection \<open>Samples\<close>

definition sample_admin :: "(memory_db, unit) admin_env" where
  "sample_admin = \<lparr>a_query = sample_query_env, a_calls = sample_calls, a_dead = (\<lambda>p. p = 99)\<rparr>"

definition sample_helper :: "int \<Rightarrow> dbrelay_connection" where
  "sample_helper p = (sample_slot ''shared'')\<lparr>c_sock_path := ''/tmp/s'', helper_pid := p, db := None\<rparr>"

definition sample_kill :: dbrelay_request where
  "sample_kill = zero_request\<lparr>cmd := ''kill'', params := [Some ''/tmp/s'', None]\<rparr>"

lemma sample_kill_simps:
  "cmd sample_kill = ''kill''" "params sample_kill ! 0 = Some ''/tmp/s''"
  "dbrelay_socket_connect (a_calls sample_admin) ''/tmp/s'' 10 = Inr (5, None)"
  "dbrelay_conn_kill (q_channel (a_query sample_admin) 5) () = Some ()"
  by (simp_all add: sample_kill_def sample_admin_def dbrelay_socket_connect_def sample_calls_def
      SUN_PATH_SZ_def sample_query_env_def dbrelay_conn_kill_def send_and_recv_def broken_channel_def)


theorem kill_signals_only_dead_witness:
  "\<exists>txt w' ev. dbrelay_db_cmd sample_admin sample_kill (sample_world\<lparr>w_table := [sample_helper 99]\<rparr>) =
     Some (Inr (txt, w')) \<and> w_events w' = ev \<and> {p. Term_Helper p \<in> set ev \<and> p \<noteq> 99} = {}"
proof -
  let ?w = "sample_world\<lparr>w_table := [sample_helper 99]\<rparr>"
  have "\<exists>txt w'. dbrelay_db_cmd sample_admin sample_kill ?w = Some (Inr (txt, w'))"
    using sample_kill_simps by (simp add: dbrelay_db_cmd_def check_params_1 dbrelay_admin_kill_def
        remove_connector_def dbrelay_db_close_connection_def sample_helper_def sample_slot_def Let_def)
  then obtain reply w' where d: "dbrelay_db_cmd sample_admin sample_kill ?w = Some (Inr (reply, w'))" by blast
  from kill_signals_only_dead[OF sample_kill_simps(1) d] d show ?thesis
    by (auto simp: sample_world_def sample_admin_def)
qed

end
