(* ===== verification/Query_String.thy ===== *)
theory Query_String
  imports Request
begin

section \<open>Parsing query strings and POST bodies\<close>

text \<open>
  \<^verbatim>\<open>parse_get_query_string\<close>, \<^verbatim>\<open>parse_post_query_string\<close> and
  \<^verbatim>\<open>parse_post_query_file\<close> of src/ngx_http_dbrelay_module.c. The three share one
  character loop over a key buffer of 100 bytes and a value buffer, both modelled with their
  sizes: a store outside is \<^const>\<open>Buffer_Overflow\<close>. The value buffer keeps its old bytes
  between pairs and starts with whatever the memory held, as in C: the list \<open>mem\<close> is that
  content, and its length is the size of the buffer.
\<close>

subsection \<open>The character loop\<close>

text \<open>
  \<open>kbuf\<close> holds the bytes stored since \<^verbatim>\<open>k = key\<close>; \<open>vpos\<close> is
  \<^verbatim>\<open>v - value\<close>.
\<close>

record qs_state =
  kbuf :: string
  vmem :: "char list"
  vpos :: nat
  target :: bool
  req :: dbrelay_request

definition KEY_SZ :: nat where "KEY_SZ = 100"

definition GET_VALUE_SZ :: nat where "GET_VALUE_SZ = 4000"

text \<open>Writing a string to the front of a memory block, the rest unchanged.\<close>

definition overwrite :: "char list \<Rightarrow> string \<Rightarrow> char list" where
  "overwrite mem xs = xs @ drop (length xs) mem"

text \<open>
  \<^verbatim>\<open>write_value(request, key, value)\<close> as the parsers call it. It decodes the value in
  place, so the memory afterwards starts with the decoded value and its terminator.
\<close>

definition flush_value :: "(string \<Rightarrow> string) \<Rightarrow> qs_state \<Rightarrow> qs_state" where
  "flush_value u st =
     (let value = cstr (vmem st);
          plus = unplus value;
          decoded = u plus
      in st\<lparr>vmem := overwrite (overwrite (vmem st) plus) (decoded @ [NUL]),
            req := write_value u (req st) (cstr (kbuf st)) value\<rparr>)"

text \<open>\<^verbatim>\<open>*k = 0\<close> and \<^verbatim>\<open>*v = 0\<close>.\<close>

definition end_key :: "qs_state \<Rightarrow> qs_state result" where
  "end_key st = (if length (kbuf st) < KEY_SZ then Inr st else Inl Buffer_Overflow)"

definition end_value :: "qs_state \<Rightarrow> qs_state result" where
  "end_value st =
     (if vpos st < length (vmem st) then Inr (st\<lparr>vmem := (vmem st)[vpos st := NUL]\<rparr>)
      else Inl Buffer_Overflow)"

definition qs_char :: "(string \<Rightarrow> string) \<Rightarrow> qs_state \<Rightarrow> char \<Rightarrow> qs_state result" where
  "qs_char u st c =
     (if c = CHR ''&'' then
        rbind (end_key st) (\<lambda>st. rbind (end_value st) (\<lambda>st.
          Inr ((flush_value u st)\<lparr>target := False, kbuf := []\<rparr>)))
      else if c = CHR ''='' then Inr (st\<lparr>target := True, vpos := 0\<rparr>)
      else if \<not> target st then
        (if length (kbuf st) < KEY_SZ then Inr (st\<lparr>kbuf := kbuf st @ [c]\<rparr>)
         else Inl Buffer_Overflow)
      else
        (if vpos st < length (vmem st)
         then Inr (st\<lparr>vmem := (vmem st)[vpos st := c], vpos := vpos st + 1\<rparr>)
         else Inl Buffer_Overflow))"

fun qs_loop :: "(string \<Rightarrow> string) \<Rightarrow> qs_state \<Rightarrow> string \<Rightarrow> qs_state result" where
  "qs_loop u st [] = Inr st"
| "qs_loop u st (c # cs) = rbind (qs_char u st c) (\<lambda>st'. qs_loop u st' cs)"

definition qs_init :: "char list \<Rightarrow> dbrelay_request \<Rightarrow> qs_state" where
  "qs_init mem r = \<lparr>kbuf = [], vmem = mem, vpos = 0, target = False, req = r\<rparr>"

subsection \<open>Chopping trailing newlines\<close>

text \<open>
  \<open>while (v >= value && (*v == newline || *v == return)) *v-- = 0\<close>, from position \<open>i\<close>;
  the new position is \<open>None\<close> once \<open>v\<close> is below the buffer.
\<close>

definition is_eol :: "char \<Rightarrow> bool" where
  "is_eol c \<longleftrightarrow> c = NL \<or> c = CR"

fun chop_loop :: "char list \<Rightarrow> nat \<Rightarrow> char list \<times> nat option" where
  "chop_loop mem 0 =
     (if is_eol (mem ! 0) then (mem[0 := NUL], None) else (mem, Some 0))"
| "chop_loop mem (Suc i) =
     (if is_eol (mem ! Suc i) then chop_loop (mem[Suc i := NUL]) i else (mem, Some (Suc i)))"

text \<open>
  The end of the GET parser: after the loop \<^verbatim>\<open>*v\<close> is cleared in any case. Reading
  \<^verbatim>\<open>*v\<close> when the value filled the buffer is out of bounds.
\<close>

definition get_finish :: "(string \<Rightarrow> string) \<Rightarrow> qs_state \<Rightarrow> dbrelay_request result" where
  "get_finish u st =
     rbind (end_key st) (\<lambda>st.
       if \<not> vpos st < length (vmem st) then Inl Out_Of_Bounds
       else (case chop_loop (vmem st) (vpos st) of
               (mem, None) \<Rightarrow> Inl Buffer_Overflow
             | (mem, Some i) \<Rightarrow>
                 Inr (req (flush_value u (st\<lparr>vmem := mem[i := NUL], vpos := i\<rparr>)))))"

text \<open>The end of the POST parsers: \<^verbatim>\<open>*v\<close> is cleared only if nothing was chopped.\<close>

definition post_finish :: "(string \<Rightarrow> string) \<Rightarrow> qs_state \<Rightarrow> dbrelay_request result" where
  "post_finish u st =
     rbind (end_key st) (\<lambda>st.
       if \<not> vpos st < length (vmem st) then Inl Out_Of_Bounds
       else if is_eol (vmem st ! vpos st)
       then Inr (req (flush_value u (st\<lparr>vmem := fst (chop_loop (vmem st) (vpos st))\<rparr>)))
       else Inr (req (flush_value u (st\<lparr>vmem := (vmem st)[vpos st := NUL]\<rparr>))))"

subsection \<open>The three parsers\<close>

text \<open>
  The GET parser stops at a NUL or at the end of the arguments; \<open>mem\<close> is the initial
  content of \<^verbatim>\<open>char value[4000]\<close>.
\<close>

definition parse_get_query_string ::
    "(string \<Rightarrow> string) \<Rightarrow> char list \<Rightarrow> string \<Rightarrow> dbrelay_request \<Rightarrow> dbrelay_request result" where
  "parse_get_query_string u mem args r =
     (if length args = 0 then Inr r
      else rbind (qs_loop u (qs_init mem r) (cstr args)) (get_finish u))"

text \<open>
  The POST parsers allocate the value buffer: one byte more than the body for each chained
  buffer (\<open>bufs\<close>), and exactly the size of the body when it is in a file. Allocation is
  \<open>garbage n\<close>, the first \<open>n\<close> bytes of some unknown memory.
\<close>

definition post_bufsz :: "string list \<Rightarrow> nat" where
  "post_bufsz bufs = sum_list (map (\<lambda>b. length b + 1) bufs)"

definition parse_post_query_string ::
    "(string \<Rightarrow> string) \<Rightarrow> (nat \<Rightarrow> char list) \<Rightarrow> string list \<Rightarrow> dbrelay_request \<Rightarrow>
     dbrelay_request result" where
  "parse_post_query_string u garbage bufs r =
     rbind (qs_loop u (qs_init (garbage (post_bufsz bufs)) r) (concat bufs)) (post_finish u)"

definition parse_post_query_file ::
    "(string \<Rightarrow> string) \<Rightarrow> (nat \<Rightarrow> char list) \<Rightarrow> string \<Rightarrow> dbrelay_request \<Rightarrow>
     dbrelay_request result" where
  "parse_post_query_file u garbage body r =
     rbind (qs_loop u (qs_init (garbage (length body)) r) body) (post_finish u)"

subsection \<open>A well-formed query\<close>

text \<open>
  The reference: a query is a list of pairs, written \<open>k=v&k=v\<close>, and each pair is stored
  in order.
\<close>

fun query_text :: "(string \<times> string) list \<Rightarrow> string" where
  "query_text [] = []"
| "query_text [(k, v)] = k @ CHR ''='' # v"
| "query_text ((k, v) # kvs) = k @ CHR ''='' # v @ CHR ''&'' # query_text kvs"

definition store_all ::
    "(string \<Rightarrow> string) \<Rightarrow> dbrelay_request \<Rightarrow> (string \<times> string) list \<Rightarrow> dbrelay_request" where
  "store_all u r kvs = foldl (\<lambda>r (k, v). write_value u r k v) r kvs"

definition plain :: "string \<Rightarrow> bool" where
  "plain s \<longleftrightarrow> CHR ''&'' \<notin> set s \<and> CHR ''='' \<notin> set s \<and> c_string s"

definition pair_ok :: "nat \<Rightarrow> string \<times> string \<Rightarrow> bool" where
  "pair_ok n kv \<longleftrightarrow> plain (fst kv) \<and> plain (snd kv) \<and>
     length (fst kv) < KEY_SZ \<and> length (snd kv) < n"

text \<open>nginx documents that unescaping never lengthens, which is what decoding in place needs.\<close>

definition shrinking :: "(string \<Rightarrow> string) \<Rightarrow> bool" where
  "shrinking u \<longleftrightarrow> (\<forall>s. length (u s) \<le> length s)"

lemma plain_simps [simp]:
  "plain []"
  "plain (c # s) \<longleftrightarrow> c \<noteq> CHR ''&'' \<and> c \<noteq> CHR ''='' \<and> c \<noteq> NUL \<and> plain s"
  by (auto simp: plain_def)

lemma plain_c_string: "plain s \<Longrightarrow> c_string s"
  by (simp add: plain_def)

lemma length_overwrite [simp]:
  "length xs \<le> length mem \<Longrightarrow> length (overwrite mem xs) = length mem"
  by (simp add: overwrite_def)

lemma qs_loop_append:
  "qs_loop u st (xs @ ys) = rbind (qs_loop u st xs) (\<lambda>st'. qs_loop u st' ys)"
proof (induction xs arbitrary: st)
  case Nil
  then show ?case by simp
next
  case (Cons x xs)
  then show ?case by (cases "qs_char u st x") simp_all
qed

lemma qs_loop_key:
  "plain k \<Longrightarrow> \<not> target st \<Longrightarrow> length (kbuf st) + length k \<le> KEY_SZ \<Longrightarrow>
   qs_loop u st k = Inr (st\<lparr>kbuf := kbuf st @ k\<rparr>)"
  by (induction k arbitrary: st) (simp_all add: qs_char_def)

lemma take_update_snoc:
  "i < length xs \<Longrightarrow> take (Suc i) (xs[i := c]) = take i xs @ [c]"
  by (simp add: take_Suc_conv_app_nth)

lemma qs_loop_value:
  "plain v \<Longrightarrow> target st \<Longrightarrow> vpos st + length v \<le> length (vmem st) \<Longrightarrow>
   \<exists>mem. qs_loop u st v = Inr (st\<lparr>vmem := mem, vpos := vpos st + length v\<rparr>) \<and>
         length mem = length (vmem st) \<and>
         take (vpos st + length v) mem = take (vpos st) (vmem st) @ v \<and>
         drop (vpos st + length v) mem = drop (vpos st + length v) (vmem st)"
proof (induction v arbitrary: st)
  case Nil
  then show ?case by (intro exI[of _ "vmem st"]) simp
next
  case (Cons c v)
  let ?st = "st\<lparr>vmem := (vmem st)[vpos st := c], vpos := vpos st + 1\<rparr>"
  from Cons.prems have step: "qs_char u st c = Inr ?st" by (simp add: qs_char_def)
  from Cons.prems have "plain v" "target ?st" "vpos ?st + length v \<le> length (vmem ?st)" by simp_all
  from Cons.IH[OF this] obtain mem
    where mem: "qs_loop u ?st v = Inr (?st\<lparr>vmem := mem, vpos := vpos ?st + length v\<rparr>)"
      "length mem = length (vmem ?st)"
      "take (vpos ?st + length v) mem = take (vpos ?st) (vmem ?st) @ v"
      "drop (vpos ?st + length v) mem = drop (vpos ?st + length v) (vmem ?st)" by blast
  from Cons.prems have "vpos st < length (vmem st)" by simp
  with mem step show ?case
    by (intro exI[of _ mem]) (simp add: take_update_snoc)
qed

subsection \<open>Well-formed queries are stored pair by pair\<close>

definition clean :: "nat \<Rightarrow> qs_state \<Rightarrow> bool" where
  "clean n st \<longleftrightarrow> kbuf st = [] \<and> \<not> target st \<and> length (vmem st) = n"

lemma cstr_update_take:
  "take (length v) mem = v \<Longrightarrow> length v < length mem \<Longrightarrow> c_string v \<Longrightarrow>
   cstr (mem[length v := NUL]) = v"
  by (simp add: upd_conv_take_nth_drop cstr_terminated)

text \<open>Reading one \<open>k=v\<close>, from a clean state to just after the value.\<close>

lemma qs_loop_pair:
  assumes "clean n st" "pair_ok n (k, v)"
  shows "\<exists>mem. qs_loop u st (k @ CHR ''='' # v) =
            Inr (st\<lparr>kbuf := k, target := True, vmem := mem, vpos := length v\<rparr>) \<and>
          length mem = n \<and> take (length v) mem = v \<and>
          drop (length v) mem = drop (length v) (vmem st)"
proof -
  let ?st = "st\<lparr>kbuf := k, target := True, vpos := 0\<rparr>"
  have key: "qs_loop u st k = Inr (st\<lparr>kbuf := k\<rparr>)"
    using qs_loop_key[of k st u] assms by (simp add: clean_def pair_ok_def)
  from assms have "plain v" "target ?st" "vpos ?st + length v \<le> length (vmem ?st)"
    by (simp_all add: clean_def pair_ok_def)
  from qs_loop_value[OF this, of u] key assms(1) show ?thesis
    by (auto simp: qs_loop_append qs_char_def clean_def)
qed

lemma flush_value_pair:
  assumes "take (length v) mem = v" "length v < length mem" "plain k" "plain v"
    and "kbuf st = k" "vmem st = mem[length v := NUL]"
  shows "flush_value u st =
    st\<lparr>vmem := overwrite (overwrite (vmem st) (unplus v))
                (decode_value u v @ [NUL]),
       req := write_value u (req st) k v\<rparr>"
  using assms
  by (simp add: flush_value_def Let_def cstr_update_take plain_c_string decode_value_def cstr_id)

lemma set_overwrite2:
  "set (overwrite (overwrite m p) d) \<subseteq> set d \<union> set p \<union> set (drop (length p) m)"
  unfolding overwrite_def using set_drop_subset[of "length d" "p @ drop (length p) m"] by auto

lemma qs_loop_pair_amp:
  assumes "clean n st" "pair_ok n (k, v)" "shrinking u"
  shows "\<exists>st'. qs_loop u st (k @ CHR ''='' # v @ CHR ''&'' # rest) = qs_loop u st' rest \<and>
           clean n st' \<and> req st' = write_value u (req st) k v \<and>
           set (vmem st') \<subseteq> insert NUL (set (decode_value u v) \<union> set (unplus v) \<union> set (vmem st))"
proof -
  from qs_loop_pair[OF assms(1,2), of u] obtain mem
    where mem: "qs_loop u st (k @ CHR ''='' # v) =
        Inr (st\<lparr>kbuf := k, target := True, vmem := mem, vpos := length v\<rparr>)"
      "length mem = n" "take (length v) mem = v" "drop (length v) mem = drop (length v) (vmem st)" by blast
  from assms(2) have kv: "plain k" "plain v" "length k < KEY_SZ" "length v < n"
    by (simp_all add: pair_ok_def)
  let ?st = "st\<lparr>kbuf := k, target := True, vpos := length v, vmem := mem[length v := NUL]\<rparr>"
  have fl: "flush_value u ?st = ?st\<lparr>vmem := overwrite (overwrite (vmem ?st)
        (unplus v)) (decode_value u v @ [NUL]),
      req := write_value u (req ?st) k v\<rparr>" (is "_ = ?st\<lparr>vmem := ?mem, req := _\<rparr>")
    by (rule flush_value_pair) (use mem kv in simp_all)
  have len: "length (decode_value u v) \<le> length v"
    using assms(3) unfolding shrinking_def decode_value_def by (metis length_unplus)
  have "length ?mem = n" using len kv mem by simp
  moreover have "set ?mem \<subseteq> insert NUL (set (decode_value u v) \<union> set (unplus v) \<union> set (vmem st))"
  proof -
    have "set (drop (length v) (mem[length v := NUL])) \<subseteq> insert NUL (set (drop (length v) mem))"
      by (simp add: drop_update_swap set_update_subset_insert)
    also have "\<dots> \<subseteq> insert NUL (set (vmem st))"
      using mem(4) set_drop_subset by fastforce
    finally have "set (drop (length v) (mem[length v := NUL])) \<subseteq> insert NUL (set (vmem st))" .
    with set_overwrite2[of "vmem ?st" "unplus v" "decode_value u v @ [NUL]"] show ?thesis
      by auto
  qed
  moreover have "qs_loop u st (k @ CHR ''='' # v @ CHR ''&'' # rest) =
      qs_loop u ((flush_value u ?st)\<lparr>target := False, kbuf := []\<rparr>) rest"
    using mem kv qs_loop_append[of u st "k @ CHR ''='' # v" "CHR ''&'' # rest"]
    by (simp add: qs_char_def end_key_def end_value_def)
  ultimately show ?thesis
    by (intro exI[of _ "(flush_value u ?st)\<lparr>target := False, kbuf := []\<rparr>"])
      (simp add: fl clean_def)
qed

lemma store_all_simps [simp]:
  "store_all u r [] = r"
  "store_all u r ((k, v) # kvs) = store_all u (write_value u r k v) kvs"
  by (simp_all add: store_all_def)

text \<open>A whole query, up to the end of its last value.\<close>

lemma qs_loop_query:
  assumes "clean n st" "list_all (pair_ok n) (kvs @ [(k, v)])" "shrinking u"
  shows "\<exists>st' mem. qs_loop u st (query_text (kvs @ [(k, v)])) =
            Inr (st'\<lparr>kbuf := k, target := True, vmem := mem, vpos := length v\<rparr>) \<and>
          req st' = store_all u (req st) kvs \<and>
          length mem = n \<and> take (length v) mem = v \<and>
          set (drop (length v) mem) \<subseteq> insert NUL (set (vmem st) \<union>
            (\<Union>(k, v)\<in>set kvs. set (decode_value u v) \<union> set (unplus v)))"
  using assms
proof (induction kvs arbitrary: st)
  case Nil
  from qs_loop_pair[of n st k v u] Nil.prems obtain mem
    where "qs_loop u st (k @ CHR ''='' # v) =
        Inr (st\<lparr>kbuf := k, target := True, vmem := mem, vpos := length v\<rparr>)"
      "length mem = n" "take (length v) mem = v" "drop (length v) mem = drop (length v) (vmem st)"
    by auto
  then show ?case
    by (intro exI[of _ st] exI[of _ mem]) (auto dest: in_set_dropD)
next
  case (Cons kv kvs)
  obtain k1 v1 where kv: "kv = (k1, v1)" by (cases kv)
  obtain kv2 rest where ne: "kvs @ [(k, v)] = kv2 # rest" by (cases "kvs @ [(k, v)]") auto
  from Cons.prems kv have ok: "pair_ok n (k1, v1)" by simp
  from qs_loop_pair_amp[OF Cons.prems(1) ok assms(3), of "query_text (kvs @ [(k, v)])"] obtain st1
    where st1: "qs_loop u st (k1 @ CHR ''='' # v1 @ CHR ''&'' # query_text (kvs @ [(k, v)])) =
        qs_loop u st1 (query_text (kvs @ [(k, v)]))"
      "clean n st1" "req st1 = write_value u (req st) k1 v1"
      "set (vmem st1) \<subseteq> insert NUL (set (decode_value u v1) \<union> set (unplus v1) \<union> set (vmem st))"
    by blast
  have q: "query_text ((kv # kvs) @ [(k, v)]) =
      k1 @ CHR ''='' # v1 @ CHR ''&'' # query_text (kvs @ [(k, v)])"
    by (simp add: kv ne)
  from Cons.IH[OF st1(2)] Cons.prems kv obtain st2 mem
    where st2: "qs_loop u st1 (query_text (kvs @ [(k, v)])) =
            Inr (st2\<lparr>kbuf := k, target := True, vmem := mem, vpos := length v\<rparr>)"
          "req st2 = store_all u (req st1) kvs"
          "length mem = n" "take (length v) mem = v"
          "set (drop (length v) mem) \<subseteq> insert NUL (set (vmem st1) \<union>
            (\<Union>(k, v)\<in>set kvs. set (decode_value u v) \<union> set (unplus v)))"
    by auto
  have "set (drop (length v) mem) \<subseteq> insert NUL (set (vmem st) \<union>
            (\<Union>(k, v)\<in>set (kv # kvs). set (decode_value u v) \<union> set (unplus v)))"
    using st2(5) st1(4) kv by (simp only: list.set UN_insert split_conv) blast
  with st2 st1 q kv show ?case
    by (intro exI[of _ st2] exI[of _ mem]) simp
qed

text \<open>Neither end of the last value is a line end in the raw text.\<close>

definition no_eol_end :: "string \<Rightarrow> bool" where
  "no_eol_end v \<longleftrightarrow> v = [] \<or> \<not> is_eol (last v)"

lemma chop_loop_value:
  assumes "is_eol (mem ! length v)" "take (length v) mem = v" "length v < length mem" "no_eol_end v"
  shows "fst (chop_loop mem (length v)) = mem[length v := NUL]"
proof (cases v rule: rev_cases)
  case Nil
  with assms show ?thesis by simp
next
  case (snoc ys y)
  have "mem ! length ys = y"
    using assms(2,3) snoc by (metis nth_take nth_append_length length_append_singleton lessI)
  with assms snoc show ?thesis
    by (cases "length ys") (auto simp: no_eol_end_def)
qed

lemma post_finish_value:
  assumes "kbuf st = k" "vpos st = length v" "take (length v) (vmem st) = v"
    and "length v < length (vmem st)" "length k < KEY_SZ" "plain k" "plain v" "no_eol_end v"
  shows "post_finish u st = Inr (write_value u (req st) k v)"
proof -
  have "flush_value u (st\<lparr>vmem := (vmem st)[length v := NUL]\<rparr>) =
      st\<lparr>vmem := overwrite (overwrite ((vmem st)[length v := NUL]) (unplus v))
                (decode_value u v @ [NUL]), req := write_value u (req st) k v\<rparr>"
    using flush_value_pair[of v "vmem st" k "st\<lparr>vmem := (vmem st)[length v := NUL]\<rparr>" u] assms
    by simp
  with assms show ?thesis
    by (simp add: post_finish_def end_key_def chop_loop_value)
qed

lemma get_finish_value:
  assumes "kbuf st = k" "vpos st = length v" "take (length v) (vmem st) = v"
    and "length v < length (vmem st)" "length k < KEY_SZ" "plain k" "plain v"
    and "\<not> is_eol (vmem st ! length v)"
  shows "get_finish u st = Inr (write_value u (req st) k v)"
proof -
  have "chop_loop (vmem st) (length v) = (vmem st, Some (length v))"
    using assms(8) by (cases "length v") auto
  with assms flush_value_pair[of v "vmem st" k "st\<lparr>vmem := (vmem st)[length v := NUL], vpos := length v\<rparr>" u]
  show ?thesis by (simp add: get_finish_def end_key_def)
qed

lemma clean_init [simp]: "clean (length mem) (qs_init mem r)"
  by (simp add: clean_def qs_init_def)

lemma store_all_snoc: "store_all u r (kvs @ [(k, v)]) = write_value u (store_all u r kvs) k v"
  by (simp add: store_all_def)

lemma qs_post_correct:
  assumes "list_all (pair_ok (length mem)) (kvs @ [(k, v)])" "shrinking u" "no_eol_end v"
  shows "rbind (qs_loop u (qs_init mem r) (query_text (kvs @ [(k, v)]))) (post_finish u) =
    Inr (store_all u r (kvs @ [(k, v)]))"
proof -
  from qs_loop_query[OF clean_init assms(1,2), of r] obtain st mem' where
    st: "qs_loop u (qs_init mem r) (query_text (kvs @ [(k, v)])) =
            Inr (st\<lparr>kbuf := k, target := True, vmem := mem', vpos := length v\<rparr>)"
    "req st = store_all u r kvs" "length mem' = length mem" "take (length v) mem' = v"
    by (auto simp: qs_init_def)
  from assms(1) have "length v < length mem" "length k < KEY_SZ" "plain k" "plain v"
    by (simp_all add: pair_ok_def)
  with st assms(3)
    post_finish_value[of "st\<lparr>kbuf := k, target := True, vmem := mem', vpos := length v\<rparr>" k v u]
  show ?thesis by (simp add: store_all_snoc)
qed

lemma length_query_text:
  "kv \<in> set kvs \<Longrightarrow> length (snd kv) < length (query_text kvs)"
proof (induction kvs rule: query_text.induct)
  case (3 k v kv2 kvs)
  then show ?case by auto
qed auto

lemma cstr_query_text: "list_all (pair_ok n) kvs \<Longrightarrow> cstr (query_text kvs) = query_text kvs"
proof -
  assume "list_all (pair_ok n) kvs"
  then have "c_string (query_text kvs)"
    by (induction kvs rule: query_text.induct) (auto simp: pair_ok_def plain_def)
  then show ?thesis by (rule cstr_id)
qed

text \<open>A POST body of any length spooled to a file, made of key=value pairs joined by ampersands, has
  the effect of storing the decoded values one after the other, when every key is shorter than
  its buffer and the last value does not end in a line end.
\<close>

theorem post_file_stores_pairs:
  assumes "shrinking u" "kvs \<noteq> []" "no_eol_end (snd (last kvs))"
    and "\<And>n. length (garbage n) = n"
    and "\<forall>(k, v)\<in>set kvs. plain k \<and> plain v \<and> length k < KEY_SZ"
  shows "parse_post_query_file u garbage (query_text kvs) r = Inr (store_all u r kvs)"
proof -
  obtain kvs0 k v where kvs: "kvs = kvs0 @ [(k, v)]"
    using assms(2) by (metis append_butlast_last_id surj_pair)
  have "list_all (pair_ok (length (query_text kvs))) kvs"
    using assms(5) by (force simp: list_all_iff pair_ok_def length_query_text)
  with assms kvs show ?thesis
    unfolding parse_post_query_file_def
    using qs_post_correct[of "garbage (length (query_text kvs))" kvs0 k v u r] by simp
qed



lemma post_bufsz_concat: "length (concat bufs) \<le> post_bufsz bufs"
  by (induction bufs) (auto simp: post_bufsz_def)

text \<open>A POST body in a chain of buffers has that same effect however the pairs are cut by the ends of
  the buffers.
\<close>

theorem post_string_stores_pairs:
  assumes "shrinking u" "kvs \<noteq> []" "no_eol_end (snd (last kvs))"
    and "\<And>n. length (garbage n) = n"
    and "\<forall>(k, v)\<in>set kvs. plain k \<and> plain v \<and> length k < KEY_SZ"
    and "concat bufs = query_text kvs"
  shows "parse_post_query_string u garbage bufs r = Inr (store_all u r kvs)"
proof -
  obtain kvs0 k v where kvs: "kvs = kvs0 @ [(k, v)]"
    using assms(2) by (metis append_butlast_last_id surj_pair)
  have "length (query_text kvs) \<le> post_bufsz bufs"
    using post_bufsz_concat[of bufs] assms(6) by simp
  then have "list_all (pair_ok (post_bufsz bufs)) kvs"
    using assms(5) by (force simp: list_all_iff pair_ok_def dest: length_query_text)
  with assms kvs show ?thesis
    unfolding parse_post_query_string_def
    using qs_post_correct[of "garbage (post_bufsz bufs)" kvs0 k v u r] by simp
qed

lemma set_unplus: "set (unplus v) \<subseteq> insert (CHR '' '') (set v)"
  by (auto simp: unplus_def)

lemma get_stores:
  assumes "shrinking u" "kvs \<noteq> []" "length mem = GET_VALUE_SZ"
    and "list_all (pair_ok GET_VALUE_SZ) kvs"
    and "\<forall>c\<in>set mem. \<not> is_eol c"
    and "\<forall>(k, v)\<in>set kvs. \<forall>c\<in>set v \<union> set (decode_value u v). \<not> is_eol c"
  shows "parse_get_query_string u mem (query_text kvs) r = Inr (store_all u r kvs)"
proof -
  obtain kvs0 k v where kvs: "kvs = kvs0 @ [(k, v)]"
    using assms(2) by (metis append_butlast_last_id surj_pair)
  with assms(3,4) have ok: "list_all (pair_ok (length mem)) (kvs0 @ [(k, v)])" by simp
  from qs_loop_query[OF clean_init ok assms(1), of r] obtain st mem' where
    st: "qs_loop u (qs_init mem r) (query_text kvs) =
            Inr (st\<lparr>kbuf := k, target := True, vmem := mem', vpos := length v\<rparr>)"
    "req st = store_all u r kvs0" "length mem' = length mem" "take (length v) mem' = v"
    "set (drop (length v) mem') \<subseteq> insert NUL (set mem \<union>
      (\<Union>(k, v)\<in>set kvs0. set (decode_value u v) \<union> set (unplus v)))"
    by (auto simp: qs_init_def kvs)
  from ok have kv: "length v < length mem" "length k < KEY_SZ" "plain k" "plain v"
    by (simp_all add: pair_ok_def)
  with st(3) have "mem' ! length v \<in> set (drop (length v) mem')"
    by (simp add: Cons_nth_drop_Suc [symmetric])
  with st(5) have "mem' ! length v \<in> insert NUL (set mem \<union>
      (\<Union>(k, v)\<in>set kvs0. set (decode_value u v) \<union> set (unplus v)))" by blast
  moreover have "\<not> is_eol c" if "(k1, v1) \<in> set kvs0" "c \<in> set (decode_value u v1) \<union> set (unplus v1)" for k1 v1 c
  proof -
    from that(1) assms(6) kvs have "\<forall>c\<in>set v1 \<union> set (decode_value u v1). \<not> is_eol c" by fastforce
    with that(2) set_unplus[of v1] show ?thesis by (auto simp: is_eol_def)
  qed
  moreover have "\<not> is_eol NUL" by (simp add: is_eol_def)
  ultimately have "\<not> is_eol (mem' ! length v)" using assms(5) by auto
  with st kv get_finish_value[of "st\<lparr>kbuf := k, target := True, vmem := mem', vpos := length v\<rparr>" k v u]
  have "rbind (qs_loop u (qs_init mem r) (query_text kvs)) (get_finish u) =
      Inr (store_all u r kvs)" by (simp add: kvs store_all_snoc)
  moreover have "length (query_text kvs) \<noteq> 0"
    using length_query_text[of "(k, v)" kvs] kvs by auto
  ultimately show ?thesis
    using cstr_query_text[OF assms(4)] by (simp add: parse_get_query_string_def)
qed

text \<open>C16.
  The three parsers agree: a list of pairs joined by ampersands, in the query part of a GET
  request, in a body in memory whose buffers may cut it anywhere, or in a body in a file, has the
  effect of storing its decoded values one after the other, when no value is as long as the buffer
  of the GET parser and no line end occurs in a value, decoded or not, nor in what that buffer
  held before.
\<close>

theorem parsers_agree:
  assumes "shrinking u" "kvs \<noteq> []" "length mem = GET_VALUE_SZ" "\<And>n. length (garbage n) = n"
    and "list_all (pair_ok GET_VALUE_SZ) kvs" "\<forall>c\<in>set mem. \<not> is_eol c"
    and "\<forall>(k, v)\<in>set kvs. \<forall>c\<in>set v \<union> set (decode_value u v). \<not> is_eol c"
    and "concat bufs = query_text kvs"
  shows "parse_get_query_string u mem (query_text kvs) r = Inr (store_all u r kvs) \<and>
    parse_post_query_string u garbage bufs r = Inr (store_all u r kvs) \<and>
    parse_post_query_file u garbage (query_text kvs) r = Inr (store_all u r kvs)"
proof (intro conjI)
  show "parse_get_query_string u mem (query_text kvs) r = Inr (store_all u r kvs)"
    by (rule get_stores[OF assms(1-3,5-7)])
  have keys: "\<forall>(k, v)\<in>set kvs. plain k \<and> plain v \<and> length k < KEY_SZ"
    using assms(5) by (auto simp: list_all_iff pair_ok_def)
  have "last kvs \<in> set kvs" using assms(2) by simp
  with assms(7) have "\<forall>c\<in>set (snd (last kvs)). \<not> is_eol c" by (cases "last kvs") fastforce
  then have "no_eol_end (snd (last kvs))" by (cases "snd (last kvs)" rule: rev_cases) (simp_all add: no_eol_end_def)
  note post = assms(1,2) this assms(4) keys
  show "parse_post_query_string u garbage bufs r = Inr (store_all u r kvs)"
    by (rule post_string_stores_pairs[OF post assms(8)])
  show "parse_post_query_file u garbage (query_text kvs) r = Inr (store_all u r kvs)"
    by (rule post_file_stores_pairs[OF post])
qed

subsection \<open>Samples\<close>

text \<open>A decoder of percent escapes to run the samples with.\<close>

definition hex_digit_value :: "char \<Rightarrow> nat option" where
  "hex_digit_value c = (let n = of_char c :: nat in
     if 48 \<le> n \<and> n \<le> 57 then Some (n - 48)
     else if 97 \<le> n \<and> n \<le> 102 then Some (n - 87)
     else if 65 \<le> n \<and> n \<le> 70 then Some (n - 55) else None)"

fun percent_decode :: "string \<Rightarrow> string" where
  "percent_decode (c # a # b # s) =
     (if c = CHR ''%'' then
        (case hex_digit_value a of
           None \<Rightarrow> percent_decode (a # b # s)
         | Some x \<Rightarrow>
             (case hex_digit_value b of
                None \<Rightarrow> percent_decode (a # b # s)
              | Some y \<Rightarrow> char_of (16 * x + y) # percent_decode s))
      else c # percent_decode (a # b # s))"
| "percent_decode s = s"

lemma percent_decode_shrinking: "shrinking percent_decode"
proof -
  have "length (percent_decode s) \<le> length s" for s
  proof (induction s rule: percent_decode.induct)
    case (1 c a b s)
    then show ?case
      by (cases "hex_digit_value a"; cases "hex_digit_value b"; cases "c = CHR ''%''") force+
  qed simp_all
  then show ?thesis by (simp add: shrinking_def)
qed

definition sample_pairs :: "(string \<times> string) list" where
  "sample_pairs = [(''sql_server'', ''db%31''), (''sql'', ''select+1''), (''param1'', ''int:7'')]"

lemma sample_query: "query_text sample_pairs = ''sql_server=db%31&sql=select+1&param1=int:7''"
  by (simp add: sample_pairs_def)

lemma sample_pairs_plain:
  "\<forall>(k, v)\<in>set sample_pairs. plain k \<and> plain v \<and> length k < KEY_SZ"
  by (simp add: sample_pairs_def KEY_SZ_def)

theorem post_file_stores_pairs_witness:
  "parse_post_query_file percent_decode (\<lambda>n. replicate n CHR ''x'')
     ''sql_server=db%31&sql=select+1&param1=int:7'' zero_request =
   Inr (store_all percent_decode zero_request sample_pairs)"
  using post_file_stores_pairs[OF percent_decode_shrinking _ _ _ sample_pairs_plain,
      of "\<lambda>n. replicate n CHR ''x''" zero_request]
  by (simp add: sample_query) (simp add: sample_pairs_def no_eol_end_def is_eol_def)

theorem post_string_stores_pairs_witness:
  "parse_post_query_string percent_decode (\<lambda>n. replicate n CHR ''x'')
     [''sql_server=d'', ''b%31&sql=select+1&par'', ''am1=int:7''] zero_request =
   Inr (store_all percent_decode zero_request sample_pairs)"
  using post_string_stores_pairs[OF percent_decode_shrinking _ _ _ sample_pairs_plain,
      of "\<lambda>n. replicate n CHR ''x''"
         "[''sql_server=d'', ''b%31&sql=select+1&par'', ''am1=int:7'']" zero_request]
  by (simp add: sample_query) (simp add: sample_pairs_def no_eol_end_def is_eol_def)

theorem parsers_agree_witness:
  "parse_get_query_string percent_decode (replicate 4000 CHR ''x'')
     ''sql_server=db%31&sql=select+1&param1=int:7'' zero_request =
   parse_post_query_string percent_decode (\<lambda>n. replicate n CHR ''x'')
     [''sql_server=d'', ''b%31&sql=select+1&par'', ''am1=int:7''] zero_request"
proof -
  have 1: "list_all (pair_ok GET_VALUE_SZ) sample_pairs" "sample_pairs \<noteq> []"
    "length (replicate 4000 CHR ''x'') = GET_VALUE_SZ" "\<forall>c\<in>set (replicate 4000 CHR ''x''). \<not> is_eol c"
    by (simp_all add: sample_pairs_def pair_ok_def KEY_SZ_def GET_VALUE_SZ_def is_eol_def)
  have 2: "\<forall>(k, v)\<in>set sample_pairs. \<forall>c\<in>set v \<union> set (decode_value percent_decode v). \<not> is_eol c"
    by (simp add: sample_pairs_def decode_value_def unplus_def is_eol_def hex_digit_value_def Let_def
        char_of_def)
  have 3: "concat [''sql_server=d'', ''b%31&sql=select+1&par'', ''am1=int:7''] = query_text sample_pairs"
    by (simp add: sample_query)
  from parsers_agree[OF percent_decode_shrinking 1(2,3) _ 1(1,4) 2 3, of "\<lambda>n. replicate n CHR ''x''" zero_request]
  show ?thesis by (simp add: sample_query)
qed

end
