(* ===== verification/Http_Module.thy ===== *)
theory Http_Module
  imports Status Admin Query_String
begin

section \<open>The nginx module (src/ngx_http_dbrelay_module.c)\<close>

text \<open>
  What the module does with a request of the server: the gate of its handler, the reading of
  headers, the dispatch of a request to a query, the status page or a command, and the clean-up
  of the master process. The server itself (buffers, filters, configuration) is nginx code; of
  its request only the fields the module reads are kept. \<^verbatim>\<open>malloc\<close> may give more bytes
  than it was asked for: \<open>slack n\<close> says how many when asked for \<open>n\<close>.
\<close>

datatype http_method = GET | HEAD | POST | Other_Method

datatype http_body = No_Body | In_Memory "string list" | In_File string

text \<open>The headers are a list of parts, each an array of names and values.\<close>

record ngx_request =
  r_method :: http_method
  uri :: string
  zero_in_uri :: bool
  headers :: "(string \<times> string) list list"
  args :: string
  body :: http_body
  addr_text :: string

subsection \<open>Headers\<close>

text \<open>
  \<^verbatim>\<open>get_header_value\<close> compares as many bytes as the header's name has, and writes the
  terminator behind the bytes it allocated.
\<close>

definition header_value :: "(nat \<Rightarrow> nat) \<Rightarrow> string \<Rightarrow> string option result" where
  "header_value slack value =
     (if slack (length value) = 0 then Inl Buffer_Overflow else Inr (Some (cstr value)))"

fun header_loop ::
    "(nat \<Rightarrow> nat) \<Rightarrow> string \<Rightarrow> (string \<times> string) list \<Rightarrow> (string \<times> string) list list \<Rightarrow> string option result" where
  "header_loop slack key [] [] = Inr None"
| "header_loop slack key [] ([] # parts) = Inl Out_Of_Bounds"
| "header_loop slack key [] (((n, v) # hs) # parts) =
     (if strncmp_eq key n (length n) then header_value slack v else header_loop slack key hs parts)"
| "header_loop slack key ((n, v) # hs) parts =
     (if strncmp_eq key n (length n) then header_value slack v else header_loop slack key hs parts)"

definition get_header_value ::
    "(nat \<Rightarrow> nat) \<Rightarrow> ngx_request \<Rightarrow> string \<Rightarrow> string option result" where
  "get_header_value slack r key =
     (case headers r of [] \<Rightarrow> Inr None | hs # hss \<Rightarrow> header_loop slack key hs hss)"

text \<open>
  The patterns of the configured origin, separated by commas. A pattern that starts with a star
  is compared with the end of the header, at an offset that is negative for a shorter header.
\<close>

fun origin_loop :: "string \<Rightarrow> string list \<Rightarrow> bool \<Rightarrow> bool result" where
  "origin_loop hdr [] m = Inr m"
| "origin_loop hdr (s # ss) m =
     (if hd s = CHR ''*'' then
        (if length hdr + 1 < length s then Inl Out_Of_Bounds
         else origin_loop hdr ss (m \<or> tl s = drop (length hdr + 1 - length s) hdr))
      else origin_loop hdr ss (m \<or> s = hdr))"

definition origin_matches :: "(nat \<Rightarrow> nat) \<Rightarrow> ngx_request \<Rightarrow> string \<Rightarrow> bool result" where
  "origin_matches slack r origin =
     rbind (get_header_value slack r ''Origin'') (\<lambda>v.
       case v of
         None \<Rightarrow> Inr False
       | Some hdr \<Rightarrow> origin_loop hdr (strtok_all '','' (cstr origin)) False)"

text \<open>
  The loop that should cut the token at a semicolon leaves after its first turn, so it looks at
  the first byte only.
\<close>

definition chop_qualifier :: "string \<Rightarrow> string" where
  "chop_qualifier s = (case s of [] \<Rightarrow> [] | c # cs \<Rightarrow> if c = CHR '';'' then [] else s)"

definition accepts_application_json :: "(nat \<Rightarrow> nat) \<Rightarrow> ngx_request \<Rightarrow> bool result" where
  "accepts_application_json slack r =
     rbind (get_header_value slack r ''Accept'') (\<lambda>v.
       case v of
         None \<Rightarrow> Inr False
       | Some hdr \<Rightarrow>
           Inr (foldl (\<lambda>have s. have \<or> chop_qualifier s = ''application/json'') False
             (strtok_all '','' hdr)))"

subsection \<open>The handler\<close>

text \<open>
  The codes the handler returns. \<open>rc\<close> is what \<^verbatim>\<open>ngx_http_read_client_request_body\<close>
  returned, when the handler called it: it is an error from \<^verbatim>\<open>NGX_HTTP_SPECIAL_RESPONSE\<close>
  on.
\<close>

datatype ngx_code = NOT_ALLOWED | DECLINED | FORBIDDEN | DONE | Code int

definition NGX_HTTP_SPECIAL_RESPONSE :: int where "NGX_HTTP_SPECIAL_RESPONSE = 300"

definition ngx_http_dbrelay_handler ::
    "(nat \<Rightarrow> nat) \<Rightarrow> string \<Rightarrow> int \<Rightarrow> ngx_request \<Rightarrow> (ngx_code \<times> bool) result" where
  "ngx_http_dbrelay_handler slack origin rc r =
     (if r_method r = Other_Method then Inr (NOT_ALLOWED, False)
      else if uri r = [] then Inl Out_Of_Bounds
      else if last (uri r) = CHR ''/'' then Inr (DECLINED, False)
      else if zero_in_uri r then Inr (DECLINED, False)
      else
        rbind (get_header_value slack r ''Origin'') (\<lambda>v.
        rbind (if length origin \<noteq> 0 then origin_matches slack r origin else Inr True) (\<lambda>ok.
          if length origin \<noteq> 0 \<and> \<not> ok then Inr (FORBIDDEN, False)
          else if NGX_HTTP_SPECIAL_RESPONSE \<le> rc then Inr (Code rc, True)
          else Inr (DONE, True))))"

subsection \<open>The response\<close>

text \<open>
  What the module needs beside the administration commands: the decoding of nginx, the bytes on
  the stack and in fresh memory, the printing of times, the name of the build and the key of the
  shared memory, and whether a buffer of a size can be had.
\<close>

record ('d, 'w) http_env =
  h_admin :: "('d, 'w) admin_env"
  h_unescape :: "string \<Rightarrow> string"
  h_stack :: "char list"
  h_heap :: "nat \<Rightarrow> char list"
  h_slack :: "nat \<Rightarrow> nat"
  h_time :: "int \<Rightarrow> string"
  h_build :: string
  h_key :: "32 word"
  h_alloc :: "nat \<Rightarrow> bool"

record response =
  content :: string
  content_type :: string
  drop_keepalive :: bool

definition parse_request :: "('d, 'w) http_env \<Rightarrow> ngx_request \<Rightarrow> dbrelay_request result" where
  "parse_request env r =
     (let q = dbrelay_alloc_request
      in if r_method r = GET \<or> r_method r = HEAD then
           parse_get_query_string (h_unescape env) (h_stack env) (args r) q
         else
           (case body r of
              In_File b \<Rightarrow> parse_post_query_file (h_unescape env) (h_heap env) b q
            | In_Memory bs \<Rightarrow> parse_post_query_string (h_unescape env) (h_heap env) bs q
            | No_Body \<Rightarrow> Inr q))"

definition dispatch ::
    "('d, 'w) http_env \<Rightarrow> dbrelay_request \<Rightarrow> ('d, 'w) world \<Rightarrow> (string \<times> ('d, 'w) world) result option" where
  "dispatch env q w =
     (if cmd q \<noteq> [] then dbrelay_db_cmd (h_admin env) q w
      else if status q \<noteq> 0 then
        Some (Inr (dbrelay_db_status (h_time env) (h_build env) (h_key env) (w_table w), w))
      else dbrelay_db_run_query (a_query (h_admin env)) q w)"

text \<open>\<open>None\<close> in the place of the response is \<^verbatim>\<open>NGX_HTTP_INTERNAL_SERVER_ERROR\<close>.\<close>

definition ngx_http_dbrelay_send_response ::
    "('d, 'w) http_env \<Rightarrow> ngx_request \<Rightarrow> ('d, 'w) world \<Rightarrow> (response option \<times> ('d, 'w) world) result option" where
  "ngx_http_dbrelay_send_response env r w =
     and_then (parse_request env r) (\<lambda>q.
       let q = q\<lparr>remote_addr := take (DBRELAY_OBJ_SZ - 1) (addr_text r)\<rparr>
       in loop_bind (dispatch env q w) (\<lambda>(json_output, w).
            if \<not> h_alloc env (length json_output + 1) then Some (Inr (None, w))
            else
              and_then (get_header_value (h_slack env) r ''Accept'') (\<lambda>v.
              and_then (accepts_application_json (h_slack env) r) (\<lambda>json.
                Some (Inr (Some \<lparr>content = json_output,
                  content_type = (if json then ''application/json'' else ''text/plain''),
                  drop_keepalive = (http_keepalive q = 0)\<rparr>, w))))))"

subsection \<open>The end of the master process\<close>

datatype exit_event = SIGTERM int | SIGKILL int | Usleep int | Release_Shmem | Destroy_Shmem

text \<open>
  The first loop asks every connector to end and signals every process that is there; the
  variable \<^verbatim>\<open>pid\<close> keeps the last one. The second loop signals that variable, and the
  shared memory is destroyed at the end.
\<close>

fun term_loop ::
    "sock_calls \<Rightarrow> (int \<Rightarrow> 'w channel) \<Rightarrow> (int \<Rightarrow> bool) \<Rightarrow> table \<Rightarrow> int \<Rightarrow> 'w \<Rightarrow>
     (int \<times> 'w \<times> exit_event list) result option" where
  "term_loop k ch dead1 [] p wire = Some (Inr (p, wire, []))"
| "term_loop k ch dead1 (c # cs) p wire =
     loop_bind
       (if c_sock_path c \<noteq> [] then
          and_then (dbrelay_socket_connect k (c_sock_path c) 2) (\<lambda>(s, err).
            if s \<noteq> - 1 then map_option Inr (dbrelay_conn_kill (ch s) wire) else Some (Inr wire))
        else Some (Inr wire))
       (\<lambda>wire.
          let p = (if helper_pid c \<noteq> 0 then helper_pid c else p)
          in loop_bind (term_loop k ch dead1 cs p wire) (\<lambda>(p', wire, sigs).
               Some (Inr (p', wire,
                 (if helper_pid c \<noteq> 0 \<and> \<not> dead1 p then [SIGTERM p] else []) @ sigs))))"

definition kill_loop :: "(int \<Rightarrow> bool) \<Rightarrow> table \<Rightarrow> int \<Rightarrow> exit_event list" where
  "kill_loop dead2 t p =
     concat (map (\<lambda>c. if helper_pid c \<noteq> 0 \<and> \<not> dead2 p then [SIGKILL p] else []) t)"

definition ngx_http_dbrelay_exit_master ::
    "sock_calls \<Rightarrow> (int \<Rightarrow> 'w channel) \<Rightarrow> (int \<Rightarrow> bool) \<Rightarrow> (int \<Rightarrow> bool) \<Rightarrow> table option \<Rightarrow> 'w \<Rightarrow>
     ('w \<times> exit_event list) result option" where
  "ngx_http_dbrelay_exit_master k ch dead1 dead2 t wire =
     (case t of
        None \<Rightarrow> Some (Inr (wire, []))
      | Some t \<Rightarrow>
          loop_bind (term_loop k ch dead1 t 0 wire) (\<lambda>(p, wire, sigs).
            Some (Inr (wire,
              sigs @ [Usleep 500000] @ kill_loop dead2 t p @ [Release_Shmem, Destroy_Shmem]))))"

subsection \<open>Headers and origins\<close>

text \<open>The reference: the first header whose name is a prefix of the key, in a list without parts.\<close>

fun first_header :: "string \<Rightarrow> (string \<times> string) list \<Rightarrow> string option" where
  "first_header key [] = None"
| "first_header key ((n, v) # hs) = (if take (length n) key = n then Some v else first_header key hs)"

lemma header_loop_first:
  "header_loop slack key hs parts = Inr v \<Longrightarrow> v = map_option cstr (first_header key (hs @ concat parts))"
  by (induction slack key hs parts rule: header_loop.induct)
    (auto simp: header_value_def strncmp_eq_def split: if_splits)

definition header :: "ngx_request \<Rightarrow> string \<Rightarrow> string option" where
  "header r key = map_option cstr (first_header key (concat (headers r)))"

lemma get_header_first: "get_header_value slack r key = Inr v \<Longrightarrow> v = header r key"
  by (auto simp: get_header_value_def header_def dest: header_loop_first split: list.splits)

text \<open>A pattern matches an origin: the same text, or, after a star, the end of it.\<close>

definition origin_ok :: "string \<Rightarrow> string \<Rightarrow> bool" where
  "origin_ok hdr s \<longleftrightarrow> (if hd s = CHR ''*'' then \<exists>pre. hdr = pre @ tl s else s = hdr)"

lemma suffix_at:
  assumes "s \<noteq> []" "length s \<le> length h + 1"
  shows "tl s = drop (length h + 1 - length s) h \<longleftrightarrow> (\<exists>pre. h = pre @ tl s)"
proof
  assume "tl s = drop (length h + 1 - length s) h"
  then show "\<exists>pre. h = pre @ tl s" by (metis append_take_drop_id)
next
  assume "\<exists>pre. h = pre @ tl s"
  then obtain pre where h: "h = pre @ tl s" ..
  with assms(1) have "length h + 1 - length s = length pre" by (cases s) auto
  with h show "tl s = drop (length h + 1 - length s) h" by simp
qed

lemma origin_loop_spec:
  "[] \<notin> set ss \<Longrightarrow> origin_loop h ss m = Inr b \<Longrightarrow> b = (m \<or> list_ex (origin_ok h) ss)"
proof (induction ss arbitrary: m)
  case (Cons s ss)
  show ?case
  proof (cases "hd s = CHR ''*''")
    case True
    with Cons.prems have le: "length s \<le> length h + 1" by (auto split: if_splits)
    have "tl s = drop (length h + 1 - length s) h \<longleftrightarrow> origin_ok h s"
      using suffix_at[of s h] Cons.prems(1) le True by (auto simp: origin_ok_def)
    with Cons.prems Cons.IH le True show ?thesis by auto
  next
    case False
    with Cons.prems have "b = ((m \<or> s = h) \<or> list_ex (origin_ok h) ss)" by (intro Cons.IH) simp_all
    moreover have "origin_ok h s = (s = h)" using False by (simp add: origin_ok_def)
    ultimately show ?thesis by auto
  qed
qed simp

lemma strtok_all_tokens: "[] \<notin> set (strtok_all ds s)"
  by (simp add: strtok_all_def)

lemma foldl_or: "foldl (\<lambda>have s. have \<or> P s) b ss = (b \<or> list_ex P ss)"
  by (induction ss arbitrary: b) auto

lemma accepts_header:
  assumes "get_header_value slack r ''Accept'' = Inr v"
  shows "accepts_application_json slack r = Inr (case v of
    None \<Rightarrow> False | Some h \<Rightarrow> ''application/json'' \<in> set (strtok_all '','' h))"
proof -
  have chop: "chop_qualifier s = ''application/json'' \<longleftrightarrow> s = ''application/json''" for s
    by (cases s) (auto simp: chop_qualifier_def)
  show ?thesis
    by (auto simp: accepts_application_json_def assms foldl_or list_ex_iff chop split: option.splits)
qed

lemma term_loop_spec:
  "term_loop k ch dead1 t p wire = Some (Inr (p', wire', sigs)) \<Longrightarrow>
     p' = last (p # filter (\<lambda>p. p \<noteq> 0) (map helper_pid t)) \<and>
     sigs = map SIGTERM (filter (\<lambda>p. \<not> dead1 p) (filter (\<lambda>p. p \<noteq> 0) (map helper_pid t)))"
proof (induction t arbitrary: p wire sigs)
  case (Cons c cs)
  from Cons.prems obtain wire1 sigs1 where
    "term_loop k ch dead1 cs (if helper_pid c \<noteq> 0 then helper_pid c else p) wire1 = Some (Inr (p', wire', sigs1))"
    "sigs = (if helper_pid c \<noteq> 0 \<and> \<not> dead1 (helper_pid c) then [SIGTERM (helper_pid c)] else []) @ sigs1"
    by (auto simp: loop_bind_eq_Inr_iff Let_def split: if_splits)
  with Cons.IH[OF this(1)] show ?case by (auto simp del: filter_filter split: if_splits)
qed simp

subsection \<open>The fields of every request keep their sizes\<close>

definition keeps_wf :: "qs_state \<Rightarrow> bool" where
  "keeps_wf st \<longleftrightarrow> request_wf (req st)"

lemma flush_keeps_wf: "keeps_wf st \<Longrightarrow> request_wf (req (flush_value u st))"
  by (simp add: keeps_wf_def flush_value_def Let_def write_value_wf)

lemma qs_char_keeps_wf: "keeps_wf st \<Longrightarrow> qs_char u st c = Inr st' \<Longrightarrow> keeps_wf st'"
  using flush_keeps_wf
  by (auto simp: qs_char_def end_key_def end_value_def rbind_eq_Inr_iff keeps_wf_def split: if_splits)

lemma qs_loop_keeps_wf: "keeps_wf st \<Longrightarrow> qs_loop u st s = Inr st' \<Longrightarrow> keeps_wf st'"
  by (induction s arbitrary: st) (auto simp: rbind_eq_Inr_iff dest: qs_char_keeps_wf)

lemma finish_keeps_wf:
  "keeps_wf st \<Longrightarrow> get_finish u st = Inr q \<Longrightarrow> request_wf q"
  "keeps_wf st \<Longrightarrow> post_finish u st = Inr q \<Longrightarrow> request_wf q"
  by (auto simp: get_finish_def post_finish_def end_key_def rbind_eq_Inr_iff keeps_wf_def
      split: if_splits prod.splits option.splits intro!: flush_keeps_wf)

lemma parsers_keep_wf:
  assumes "request_wf r"
  shows "parse_get_query_string u mem as r = Inr q \<Longrightarrow> request_wf q"
    and "parse_post_query_string u garbage bufs r = Inr q \<Longrightarrow> request_wf q"
    and "parse_post_query_file u garbage s r = Inr q \<Longrightarrow> request_wf q"
proof -
  have init: "keeps_wf (qs_init m r)" for m using assms by (simp add: keeps_wf_def qs_init_def)
  show "parse_get_query_string u mem as r = Inr q \<Longrightarrow> request_wf q"
    using assms by (auto simp: parse_get_query_string_def rbind_eq_Inr_iff split: if_splits
      dest!: qs_loop_keeps_wf[OF init] dest: finish_keeps_wf(1))
  show "parse_post_query_string u garbage bufs r = Inr q \<Longrightarrow> request_wf q"
    by (auto simp: parse_post_query_string_def rbind_eq_Inr_iff dest!: qs_loop_keeps_wf[OF init]
      dest: finish_keeps_wf(2))
  show "parse_post_query_file u garbage s r = Inr q \<Longrightarrow> request_wf q"
    by (auto simp: parse_post_query_file_def rbind_eq_Inr_iff dest!: qs_loop_keeps_wf[OF init]
      dest: finish_keeps_wf(2))
qed

subsection \<open>Properties\<close>

text \<open>The module goes on to read and answer a request only when its method is GET, HEAD or POST, its
  path does not end in a slash, and, where origins are configured, the request has an Origin
  header that one of them is equal to or, behind a star, that ends in one of them.
\<close>

theorem handler_gate:
  assumes "ngx_http_dbrelay_handler slack origin rc r = Inr (code, True)"
  shows "r_method r \<noteq> Other_Method \<and> uri r \<noteq> [] \<and> last (uri r) \<noteq> CHR ''/'' \<and> \<not> zero_in_uri r \<and>
    (origin = [] \<or> (\<exists>h. header r ''Origin'' = Some h \<and>
       list_ex (origin_ok h) (strtok_all '','' (cstr origin))))"
proof -
  from assms have 1: "r_method r \<noteq> Other_Method" "uri r \<noteq> []" "last (uri r) \<noteq> CHR ''/''" "\<not> zero_in_uri r"
    by (auto simp: ngx_http_dbrelay_handler_def split: if_splits)
  show ?thesis
  proof (cases "origin = []")
    case False
    with assms 1 have "origin_matches slack r origin = Inr True"
      by (auto simp: ngx_http_dbrelay_handler_def rbind_eq_Inr_iff split: if_splits)
    then obtain h where "get_header_value slack r ''Origin'' = Inr (Some h)"
      "origin_loop h (strtok_all '','' (cstr origin)) False = Inr True"
      by (auto simp: origin_matches_def rbind_eq_Inr_iff split: option.splits)
    with origin_loop_spec[OF strtok_all_tokens this(2)] get_header_first[OF this(1)] 1 show ?thesis
      by auto
  qed (use 1 in simp)
qed

text \<open>A pattern with a star that is longer than the Origin header, such as a domain against the
  header "null", makes the comparison start before the header's bytes.
\<close>

theorem origin_star_out_of_bounds:
  assumes "get_header_value slack r ''Origin'' = Inr (Some h)"
    and "c_string pat" "CHR '','' \<notin> set pat" "length h < length pat"
  shows "origin_matches slack r (CHR ''*'' # pat) = Inl Out_Of_Bounds"
proof -
  let ?s = "CHR ''*'' # pat"
  have "map (\<lambda>c. if c \<in> set '','' then NUL else c) ?s = ?s"
    using assms(3) by (intro map_idI) auto
  moreover have "NUL \<notin> set ?s" using assms(2) by (simp add: c_string_def)
  ultimately have "strtok_all '','' ?s = [?s]"
    using strsep_all_no_delim[of NUL ?s] by (simp only: strtok_all_def) simp
  with assms show ?thesis by (simp add: origin_matches_def cstr_id)
qed


text \<open>
  A header whose value fills the bytes \<^verbatim>\<open>malloc\<close> gives for it, such as one of 24 bytes
  with the sizes of glibc, is terminated one byte behind them.
\<close>

definition glibc_slack :: "nat \<Rightarrow> nat" where
  "glibc_slack n = max 24 ((n + 23) div 16 * 16 - 8) - n"

theorem header_terminator_overflows:
  assumes "headers r = (hs @ (key, v) # hs') # parts" "first_header key hs = None"
    and "length v mod 16 = 8" "24 \<le> length v"
  shows "get_header_value glibc_slack r key = Inl Buffer_Overflow"
proof -
  have "header_loop slack key (hs @ (key, v) # hs') parts = header_value slack v" for slack
    using assms(2) by (induction hs) (auto simp: strncmp_eq_def split: if_splits)
  moreover have "glibc_slack (length v) = 0"
  proof -
    define q where "q = length v div 16"
    have "length v = 16 * q + 8" using assms(3) by (simp add: q_def) (metis mult_div_mod_eq)
    with assms(4) show ?thesis by (simp add: glibc_slack_def)
  qed
  ultimately show ?thesis using assms(1) by (simp add: get_header_value_def header_value_def)
qed

text \<open>At the end of the master process every process still there gets a \<^verbatim>\<open>SIGTERM\<close>, but
  the \<^verbatim>\<open>SIGKILL\<close> of the second round only ever goes to the process of the last slot
  that has one, although the shared memory with their numbers is destroyed: a connector in an
  earlier slot that ignored the first signal stays.
\<close>

theorem exit_kills_last_only:
  assumes "ngx_http_dbrelay_exit_master k ch dead1 dead2 (Some t) wire = Some (Inr (wire', sigs))"
    and "filter (\<lambda>p. p \<noteq> 0) (map helper_pid t) = ps @ [p]"
  shows "\<exists>kills. sigs = map SIGTERM (filter (\<lambda>p. \<not> dead1 p) (ps @ [p])) @ [Usleep 500000] @ kills @
      [Release_Shmem, Destroy_Shmem] \<and>
    set kills = (if dead2 p then {} else {SIGKILL p})"
proof -
  from assms(1) obtain p1 sigs1 where t: "term_loop k ch dead1 t 0 wire = Some (Inr (p1, wire', sigs1))"
    and sigs: "sigs = sigs1 @ [Usleep 500000] @ kill_loop dead2 t p1 @ [Release_Shmem, Destroy_Shmem]"
    by (auto simp: ngx_http_dbrelay_exit_master_def loop_bind_eq_Inr_iff)
  from term_loop_spec[OF t] assms(2) have 1: "p1 = p"
    "sigs1 = map SIGTERM (filter (\<lambda>p. \<not> dead1 p) (ps @ [p]))" by simp_all
  have "p \<in> set (filter (\<lambda>p. p \<noteq> 0) (map helper_pid t))" by (simp add: assms(2))
  then have "set (kill_loop dead2 t p) = (if dead2 p then {} else {SIGKILL p})"
    by (auto simp: kill_loop_def)
  with sigs 1 show ?thesis by blast
qed

text \<open>
  A request that carries the pairs \<open>kvs\<close>: in its query part, or in its body, in memory or in a
  file.
\<close>

definition carries :: "('d, 'w) http_env \<Rightarrow> ngx_request \<Rightarrow> (string \<times> string) list \<Rightarrow> bool" where
  "carries env r kvs \<longleftrightarrow> shrinking (h_unescape env) \<and> kvs \<noteq> [] \<and>
     (if r_method r = GET \<or> r_method r = HEAD then
        args r = query_text kvs \<and> length (h_stack env) = GET_VALUE_SZ \<and>
        list_all (pair_ok GET_VALUE_SZ) kvs \<and> (\<forall>c\<in>set (h_stack env). \<not> is_eol c) \<and>
        (\<forall>(k, v)\<in>set kvs. \<forall>c\<in>set v \<union> set (decode_value (h_unescape env) v). \<not> is_eol c)
      else
        (body r = In_File (query_text kvs) \<or> (\<exists>bs. body r = In_Memory bs \<and> concat bs = query_text kvs)) \<and>
        (\<forall>n. length (h_heap env n) = n) \<and> no_eol_end (snd (last kvs)) \<and>
        (\<forall>(k, v)\<in>set kvs. plain k \<and> plain v \<and> length k < KEY_SZ))"

text \<open>The request they are stored into.\<close>

definition stored :: "('d, 'w) http_env \<Rightarrow> ngx_request \<Rightarrow> (string \<times> string) list \<Rightarrow> dbrelay_request" where
  "stored env r kvs = (store_all (h_unescape env) dbrelay_alloc_request kvs)
     \<lparr>remote_addr := take (DBRELAY_OBJ_SZ - 1) (addr_text r)\<rparr>"

lemma parse_carried:
  assumes "carries env r kvs"
  shows "parse_request env r = Inr (store_all (h_unescape env) dbrelay_alloc_request kvs)"
proof (cases "r_method r = GET \<or> r_method r = HEAD")
  case True
  with assms get_stores[of "h_unescape env" kvs "h_stack env" dbrelay_alloc_request] show ?thesis
    by (auto simp: carries_def parse_request_def)
next
  case False
  with assms post_file_stores_pairs[of "h_unescape env" kvs "h_heap env" dbrelay_alloc_request]
    post_string_stores_pairs[of "h_unescape env" kvs "h_heap env" _ dbrelay_alloc_request]
  show ?thesis by (auto simp: carries_def parse_request_def)
qed

lemma send_carried:
  assumes "carries env r kvs" "dispatch env (stored env r kvs) w = Some (Inr (reply, w'))"
    and "h_alloc env (length reply + 1)" "get_header_value (h_slack env) r ''Accept'' = Inr v"
  shows "ngx_http_dbrelay_send_response env r w = Some (Inr (Some \<lparr>content = reply,
      content_type = (if \<exists>h. v = Some h \<and> ''application/json'' \<in> set (strtok_all '','' h)
        then ''application/json'' else ''text/plain''),
      drop_keepalive = (http_keepalive (stored env r kvs) = 0)\<rparr>, w'))"
proof -
  have "(case v of None \<Rightarrow> False | Some h \<Rightarrow> ''application/json'' \<in> set (strtok_all '','' h)) =
      (\<exists>h. v = Some h \<and> ''application/json'' \<in> set (strtok_all '','' h))"
    by (cases v) simp_all
  with parse_carried[OF assms(1)] accepts_header[OF assms(4)] assms(2-4) show ?thesis
    by (simp add: ngx_http_dbrelay_send_response_def stored_def Let_def)
qed


text \<open>C23.
  Whatever the bytes of the query or the body are, a request that parsing produces has every field
  within the size of its member, terminator included, and all its places for parameters.
\<close>

theorem parsed_request_fits:
  assumes "parse_request env r = Inr q"
  shows "request_wf q \<and> length (params q) = DBRELAY_MAX_PARAMS"
proof -
  have "request_wf q"
    using assms alloc_request_wf parsers_keep_wf[OF alloc_request_wf]
    by (auto simp: parse_request_def Let_def split: if_splits http_body.splits)
  then show ?thesis by (simp add: request_wf_def)
qed

subsection \<open>Samples\<close>

definition sample_http :: "(memory_db, unit) http_env" where
  "sample_http = \<lparr>h_admin = sample_admin, h_unescape = percent_decode,
     h_stack = replicate 4000 CHR ''x'', h_heap = (\<lambda>n. replicate n CHR ''x''), h_slack = (\<lambda>n. 8),
     h_time = (\<lambda>n. ''now''), h_build = ''1'', h_key = 7, h_alloc = (\<lambda>n. True)\<rparr>"

definition sample_page :: ngx_request where
  "sample_page = \<lparr>r_method = GET, uri = ''/sql'', zero_in_uri = False,
     headers = [[(''Host'', ''h''), (''Origin'', ''https://a.example.com'')],
       [(''Accept'', ''text/html,application/json'')]],
     args = ''cmd=none&header=1'', body = No_Body, addr_text = ''10.0.0.1''\<rparr>"

lemmas sample_page_simps = sample_page_def get_header_value_def strncmp_eq_def header_value_def

lemma sample_accept:
  "get_header_value (\<lambda>n. 8) sample_page ''Accept'' = Inr (Some ''text/html,application/json'')"
  by (simp add: sample_page_simps cstr_def)

lemma sample_origin:
  "get_header_value (\<lambda>n. 8) sample_page ''Origin'' = Inr (Some ''https://a.example.com'')"
  by (simp add: sample_page_simps cstr_def)

theorem handler_gate_witness:
  "ngx_http_dbrelay_handler (\<lambda>n. 8) ''http://b,*.example.com'' 0 sample_page = Inr (DONE, True) \<and>
   list_ex (origin_ok ''https://a.example.com'') [''http://b'', ''*.example.com'']"
proof -
  have 1: "ngx_http_dbrelay_handler (\<lambda>n. 8) ''http://b,*.example.com'' 0 sample_page = Inr (DONE, True)"
    unfolding ngx_http_dbrelay_handler_def origin_matches_def sample_origin
    by (simp add: sample_page_def strtok_all_def cstr_def NGX_HTTP_SPECIAL_RESPONSE_def)
  from handler_gate[OF 1] 1 get_header_first[OF sample_origin] show ?thesis
    by (auto simp: strtok_all_def cstr_def)
qed

theorem origin_star_out_of_bounds_witness:
  "origin_matches (\<lambda>n. 8) (sample_page\<lparr>headers := [[(''Origin'', ''null'')]]\<rparr>) ''*.example.com'' =
     Inl Out_Of_Bounds"
proof -
  have "get_header_value (\<lambda>n. 8) (sample_page\<lparr>headers := [[(''Origin'', ''null'')]]\<rparr>) ''Origin'' =
      Inr (Some ''null'')" by (simp add: sample_page_simps cstr_def)
  from origin_star_out_of_bounds[OF this, of "''.example.com''"] show ?thesis by simp
qed


theorem header_terminator_overflows_witness:
  "get_header_value glibc_slack (sample_page\<lparr>headers :=
     [[(''Host'', ''h''), (''Origin'', ''https://a.b.example.com/'')]]\<rparr>) ''Origin'' = Inl Buffer_Overflow"
  using header_terminator_overflows[of "sample_page\<lparr>headers :=
     [[(''Host'', ''h''), (''Origin'', ''https://a.b.example.com/'')]]\<rparr>" "[(''Host'', ''h'')]" "''Origin''"
     "''https://a.b.example.com/''" "[]" "[]"] by simp

theorem exit_kills_last_only_witness:
  "\<exists>kills. ngx_http_dbrelay_exit_master sample_calls (\<lambda>s. broken_channel) (\<lambda>p. False) (\<lambda>p. False)
       (Some [zero_conn\<lparr>helper_pid := 8\<rparr>, zero_conn\<lparr>helper_pid := 9\<rparr>]) () =
     Some (Inr ((), map SIGTERM [8, 9] @ [Usleep 500000] @ kills @ [Release_Shmem, Destroy_Shmem])) \<and> set kills = {SIGKILL 9}"
proof -
  let ?t = "[zero_conn\<lparr>helper_pid := 8\<rparr>, zero_conn\<lparr>helper_pid := 9\<rparr>]"
  have "\<exists>sigs. ngx_http_dbrelay_exit_master sample_calls (\<lambda>s. broken_channel) (\<lambda>p. False)
      (\<lambda>p. False) (Some ?t) () = Some (Inr ((), sigs))"
    by (simp add: ngx_http_dbrelay_exit_master_def zero_conn_def)
  then obtain sigs where 1: "ngx_http_dbrelay_exit_master sample_calls (\<lambda>s. broken_channel)
      (\<lambda>p. False) (\<lambda>p. False) (Some ?t) () = Some (Inr ((), sigs))" by blast
  from exit_kills_last_only[OF 1, of "[8]" 9] 1 show ?thesis by auto
qed

theorem parsed_request_fits_witness:
  "\<exists>q. parse_request sample_http (sample_page\<lparr>r_method := Other_Method,
     body := In_File ''sql=1''\<rparr>) = Inr q \<and> length (params q) = 100"
proof -
  have "\<exists>q. parse_request sample_http (sample_page\<lparr>r_method := Other_Method, body := In_File ''sql=1''\<rparr>) = Inr q"
    by (simp add: parse_request_def parse_post_query_file_def sample_http_def qs_init_def qs_char_def
        KEY_SZ_def post_finish_def end_key_def is_eol_def)
  then obtain q where q: "parse_request sample_http (sample_page\<lparr>r_method := Other_Method,
     body := In_File ''sql=1''\<rparr>) = Inr q" by blast
  with parsed_request_fits[OF q] show ?thesis by (simp add: DBRELAY_MAX_PARAMS_def)
qed

definition sample_cmd :: "(string \<times> string) list" where
  "sample_cmd = [(''cmd'', ''no%6ee'')]"

lemma sample_cmd_ok:
  "list_all (pair_ok GET_VALUE_SZ) sample_cmd" "sample_cmd \<noteq> []"
  "\<forall>(k, v)\<in>set sample_cmd. \<forall>c\<in>set v \<union> set (decode_value percent_decode v). \<not> is_eol c"
  "query_text sample_cmd = ''cmd=no%6ee''"
  by (simp_all add: sample_cmd_def pair_ok_def KEY_SZ_def GET_VALUE_SZ_def decode_value_def unplus_def
      is_eol_def hex_digit_value_def Let_def char_of_def)

lemma sample_http_simps:
  "h_unescape sample_http = percent_decode" "h_stack sample_http = replicate 4000 CHR ''x''"
  "h_slack sample_http = (\<lambda>n. 8)" "h_alloc sample_http n"
  by (simp_all add: sample_http_def)

definition sample_cmd_request :: dbrelay_request where
  "sample_cmd_request = (store_all percent_decode dbrelay_alloc_request sample_cmd)
     \<lparr>remote_addr := ''10.0.0.1''\<rparr>"

lemma sample_cmd_request:
  "cmd sample_cmd_request = ''none''" "http_keepalive sample_cmd_request = 1"
  by (simp_all add: sample_cmd_request_def store_all_def sample_cmd_def write_value_def decode_value_def
      unplus_def hex_digit_value_def store_value_def dbrelay_alloc_request_def zero_request_def
      dbrelay_copy_string_def DBRELAY_OBJ_SZ_def DBRELAY_NAME_SZ_def char_of_def Let_def cstr_def bit_0)

definition sample_cmd_page :: "bool \<Rightarrow> ngx_request" where
  "sample_cmd_page post = (if post then sample_page\<lparr>r_method := POST, body := In_Memory [''cm'', ''d=no%6ee'']\<rparr>
     else sample_page\<lparr>args := ''cmd=no%6ee''\<rparr>)"

lemma sample_cmd_page_simps:
  "r_method (sample_cmd_page post) = (if post then POST else GET)"
  "body (sample_cmd_page True) = In_Memory [''cm'', ''d=no%6ee'']" "args (sample_cmd_page False) = ''cmd=no%6ee''"
  "headers (sample_cmd_page post) = headers sample_page" "addr_text (sample_cmd_page post) = ''10.0.0.1''"
  by (simp_all add: sample_cmd_page_def sample_page_def)

lemma sample_carried: "carries sample_http (sample_cmd_page post) sample_cmd"
proof (cases post)
  case True
  have "\<forall>(k, v)\<in>set sample_cmd. plain k \<and> plain v \<and> length k < KEY_SZ" "no_eol_end (snd (last sample_cmd))"
    by (simp_all add: sample_cmd_def KEY_SZ_def no_eol_end_def is_eol_def)
  moreover have "\<forall>n. length (h_heap sample_http n) = n" by (simp add: sample_http_def)
  ultimately show ?thesis using True percent_decode_shrinking sample_cmd_ok(2,4)
    unfolding carries_def by (simp add: sample_http_simps sample_cmd_page_simps)
next
  case False
  with percent_decode_shrinking sample_cmd_ok show ?thesis
    unfolding carries_def by (simp add: sample_http_simps sample_cmd_page_simps GET_VALUE_SZ_def is_eol_def)
qed

lemma sample_cmd_stored: "stored sample_http (sample_cmd_page post) sample_cmd = sample_cmd_request"
  by (simp add: stored_def sample_cmd_request_def sample_http_simps sample_cmd_page_simps DBRELAY_OBJ_SZ_def)


end
