(* ===== verification/Driver.thy ===== *)
theory Driver
  imports Result
begin

section \<open>What the drivers share\<close>

text \<open>
  The contract between the query code of src/db.c and a driver, as a locale: the driver holds a
  list of result sets, gives them one after the other, and is in order at the end. Inside it,
  once, what a query returns. Each driver theory interprets the locale with its own table of
  functions and the documented behaviour of its client library.
\<close>

locale driver =
  fixes api :: "'d dbapi" and h :: handle
    and holds :: "'d \<Rightarrow> result_set list \<Rightarrow> bool"
    and in_set :: "'d \<Rightarrow> result_set \<Rightarrow> result_set list \<Rightarrow> bool"
    and finished :: "'d \<Rightarrow> bool"
  assumes next_set: "holds d (s # ss) \<Longrightarrow>
      \<exists>d1. api_has_results api h d = Inr (True, d1) \<and> shows_columns api h d1 (columns s) \<and> in_set d1 s ss"
    and last_set: "holds d [] \<Longrightarrow> \<exists>d1. api_has_results api h d = Inr (False, d1) \<and> finished d1"
    and next_row: "in_set d s ss \<Longrightarrow> rows s = vs # vss \<Longrightarrow>
      \<exists>d1. api_fetch_row api h d = Inr (True, d1) \<and> shows_row api h d1 (columns s) vs \<and>
        in_set d1 (s\<lparr>rows := vss\<rparr>) ss"
    and last_row: "in_set d s ss \<Longrightarrow> rows s = [] \<Longrightarrow>
      \<exists>d1. api_fetch_row api h d = Inr (False, d1) \<and> api_rowcount api h d1 = Inr (row_count s) \<and> holds d1 ss"
begin

lemma rows_delivered:
  "in_set d s ss \<Longrightarrow> \<exists>d1. delivers_rows api h (columns s) d (rows s) d1 \<and>
     api_rowcount api h d1 = Inr (row_count s) \<and> holds d1 ss"
proof (induction "rows s" arbitrary: d s)
  case Nil
  from last_row[OF Nil.prems] Nil.hyps show ?case by (metis delivers_rows.simps(1))
next
  case (Cons vs vss)
  from next_row[OF Cons.prems Cons.hyps(2)[symmetric]] obtain d1 where
    d1: "api_fetch_row api h d = Inr (True, d1)" "shows_row api h d1 (columns s) vs"
      "in_set d1 (s\<lparr>rows := vss\<rparr>) ss" by blast
  from Cons.hyps(1)[OF _ d1(3)] obtain d2 where
    "delivers_rows api h (columns s) d1 vss d2" "api_rowcount api h d2 = Inr (row_count s)" "holds d2 ss"
    by auto
  with d1 Cons.hyps(2)[symmetric] show ?case by auto
qed

lemma all_delivered: "holds d ss \<Longrightarrow> \<exists>d1. delivers api h d ss d1 \<and> finished d1"
proof (induction ss arbitrary: d)
  case Nil
  from last_set[OF Nil] show ?case by auto
next
  case (Cons s ss)
  from next_set[OF Cons.prems] obtain d1 where
    d1: "api_has_results api h d = Inr (True, d1)" "shows_columns api h d1 (columns s)" "in_set d1 s ss"
    by blast
  from rows_delivered[OF d1(3)] obtain d2 where
    d2: "delivers_rows api h (columns s) d1 (rows s) d2" "api_rowcount api h d2 = Inr (row_count s)" "holds d2 ss"
    by blast
  from Cons.IH[OF d2(3)] d1 d2 show ?case by auto
qed

text \<open>Outside a transaction nothing is executed but the query.\<close>

lemma query_answered:
  assumes "\<not> flag_set fl DBRELAY_FLAG_EMBEDCSV" "\<not> flag_set fl DBRELAY_FLAG_XACT"
    and "query_sent api h database q fl d = Inr (True, d1)"
    and "holds d1 ss" "list_all set_fits ss"
  shows "\<exists>d2. dbrelay_exec_query api h database (Some q) fl d =
      Some (Inr (Some (key_text (flag_set fl DBRELAY_FLAG_PP) ''data'' @
        render (flag_set fl DBRELAY_FLAG_PP) 0 (JArr (map set_tree ss))), d2)) \<and> finished d2"
proof -
  from all_delivered[OF assms(4)] obtain d2 where d2: "delivers api h d1 ss d2" "finished d2" by blast
  from exec_query_std[OF assms(1,3) d2(1) assms(5)] d2(2) assms(2) show ?thesis
    by (simp add: exec_if_def)
qed

end

text \<open>
  The driver in memory keeps the contract with every list of result sets whose rows have as many
  values as there are columns.
\<close>

definition set_shaped :: "result_set \<Rightarrow> bool" where
  "set_shaped s \<longleftrightarrow> list_all (\<lambda>vs. length vs = length (columns s)) (rows s)"

interpretation memory: driver memory_api h
  "\<lambda>d ss. fst d = ss \<and> list_all set_shaped ss"
  "\<lambda>d s ss. fst d = ss \<and> fst (snd d) = s \<and> list_all set_shaped (s # ss)"
  "\<lambda>d. fst d = []"
  for h
  by unfold_locales
    (force simp: memory_api_def shows_columns_def shows_row_def memory_column_def set_shaped_def
      split: list.splits prod.splits)+

subsection \<open>A driver whose results never end\<close>

text \<open>\<open>endless\<close> holds of states in which there is another result set, without rows.\<close>

lemma set_loop_never:
  assumes step: "\<And>d. endless d \<Longrightarrow> \<exists>d1 d2 cs n. api_has_results api h d = Inr (True, d1) \<and>
      shows_columns api h d1 cs \<and> api_fetch_row api h d1 = Inr (False, d2) \<and>
      api_rowcount api h d2 = Inr n \<and> endless d2"
    and "endless d"
  shows "set_loop api h j d = None"
proof -
  have no_rows: "row_loop api h n j d1 = Some (Inr (j, d2))" if "api_fetch_row api h d1 = Inr (False, d2)" for n j d1 d2
    using that by (subst row_loop.simps) simp
  have begun: "\<exists>j'. begin_set api h d (int (length cs)) j = Inr j'" if "shows_columns api h d cs" for cs d j
    using colinfo_loop_emit[of cs api h 0 d] that
    by (simp add: begin_set_def shows_columns_def colnums_nums Let_def)
  have counted: "\<exists>j'. end_set api h d j = Inr j'" if "api_rowcount api h d = Inr n" for d j n
    using that by (simp add: end_set_def Let_def)
  have ends: "a = api \<longrightarrow> h0 = h \<longrightarrow> \<not> endless d" if "set_loop a h0 j d = Some r" for a h0 j d r
  proof (rule set_loop.raw_induct[OF _ that, of "\<lambda>a h0 j d r. a = api \<longrightarrow> h0 = h \<longrightarrow> \<not> endless d"])
    fix f and a :: "'a dbapi" and h0 j d r
    assume IH: "\<And>a h0 j d r. f a h0 j d = Some r \<Longrightarrow> a = api \<longrightarrow> h0 = h \<longrightarrow> \<not> endless d"
      and f: "and_then (api_has_results a h0 d) (\<lambda>(more, d).
        if more then
          and_then (api_numcols a h0 d) (\<lambda>numcols.
          and_then (begin_set a h0 d numcols j) (\<lambda>j.
          loop_bind (row_loop a h0 numcols j d) (\<lambda>(j, d).
          and_then (end_set a h0 d j) (\<lambda>j. f a h0 j d))))
        else Some (Inr (j, d))) = Some r"
    show "a = api \<longrightarrow> h0 = h \<longrightarrow> \<not> endless d"
    proof (intro impI notI)
      assume eq: "a = api" "h0 = h" and "endless d"
      from step[OF this(3)] obtain d1 d2 cs n where d: "api_has_results api h d = Inr (True, d1)"
        "shows_columns api h d1 cs" "api_fetch_row api h d1 = Inr (False, d2)"
        "api_rowcount api h d2 = Inr n" "endless d2" by blast
      have n: "api_numcols api h d1 = Inr (int (length cs))" using d(2) by (simp add: shows_columns_def)
      obtain j1 where j1: "begin_set api h d1 (int (length cs)) j = Inr j1" using begun[OF d(2)] by blast
      obtain j2 where j2: "end_set api h d2 j1 = Inr j2" using counted[OF d(4)] by blast
      have "f api h j2 d2 = Some r" using f d(1) by (simp add: eq n j1 j2 no_rows[OF d(3)])
      from IH[OF this] d(5) show False by simp
    qed
  qed
  with assms(2) show ?thesis by (cases "set_loop api h j d") auto
qed

end
