(* ===== verification/Serving.thy ===== *)
theory Serving
  imports Driver Run_Query
begin

section \<open>A driver that serves queries (src/db.c and the drivers)\<close>

text \<open>
  The contract of a driver, extended to the whole of a query: from a handle in order, through the
  query that the database runs or refuses, to the handle that is let go. What the database does is
  said by two predicates of the driver's state, which every driver theory defines over its client
  library. Inside the locale, once, what a worker answers over a connection of its own.
\<close>

locale serving = driver api "Some a" holds in_set ready
  for api :: "'d dbapi" and a :: nat and holds in_set and ready :: "'d \<Rightarrow> bool" +
  fixes runs :: "string \<Rightarrow> string \<Rightarrow> 'd \<Rightarrow> result_set list \<Rightarrow> bool"
    and refuses :: "string \<Rightarrow> string \<Rightarrow> 'd \<Rightarrow> string \<Rightarrow> bool"
    and closed :: "'d \<Rightarrow> bool"
  assumes in_order: "ready d \<Longrightarrow> api_connected api (Some a) d = Inr True"
    and run_sent: "ready d \<Longrightarrow> runs database q d ss \<Longrightarrow> \<not> flag_set fl DBRELAY_FLAG_XACT \<Longrightarrow>
      \<exists>d1. query_sent api (Some a) database q fl d = Inr (True, d1) \<and> holds d1 ss"
    and run_fits: "runs database q d ss \<Longrightarrow> list_all set_fits ss"
    and refusal_sent: "ready d \<Longrightarrow> refuses database q d e \<Longrightarrow> \<not> flag_set fl DBRELAY_FLAG_XACT \<Longrightarrow>
      \<exists>d1. query_sent api (Some a) database q fl d = Inr (False, d1) \<and> ready d1 \<and>
        api_error api (Some a) d1 = Inr e"
    and let_go_closes: "ready d \<Longrightarrow> \<exists>d1. let_go api (Some a) d = Inr d1 \<and> closed d1"
begin

lemma own_answered:
  assumes "ready_to_run env r q ps newsql" "own_connection env r w p i (Some a) d" "q_api env = api"
    and "ready d" "runs (sql_database r) newsql d ss"
    and "\<not> flag_set (flags r) DBRELAY_FLAG_EMBEDCSV" "\<not> flag_set (flags r) DBRELAY_FLAG_PP"
      "\<not> flag_set (flags r) DBRELAY_FLAG_XACT"
  shows "\<exists>w'. dbrelay_db_run_query env r w = Some (Inr (reply_text False r
      [(''data'', JArr (map set_tree ss)), (''log'', log_tree r q ps [])], w')) \<and>
    own_query_done w p i (Some a) (w_db w') w' \<and> closed (w_db w')"
proof -
  from run_sent[OF assms(4,5,8)] obtain d1 where
    d1: "query_sent api (Some a) (sql_database r) newsql (flags r) d = Inr (True, d1)" "holds d1 ss" by blast
  from all_delivered[OF d1(2)] obtain d2 where d2: "delivers api (Some a) d1 ss d2" "ready d2" by blast
  from let_go_closes[OF d2(2)] obtain d3 where d3: "let_go api (Some a) d2 = Inr d3" "closed d3" by blast
  have "exec_if (flag_set (flags r) DBRELAY_FLAG_XACT) api (Some a) DBRELAY_DBCMD_COMMIT d2 = Inr d2"
    using assms(8) by (simp add: exec_if_def)
  from query_results[OF assms(1,2,6,7), unfolded assms(3), OF in_order[OF assms(4)] d1(1) d2(1)
      run_fits[OF assms(5)] this d3(1)] d3(2)
  show ?thesis by (auto simp: own_query_done_def)
qed

lemma own_refused:
  assumes "ready_to_run env r q ps newsql" "own_connection env r w p i (Some a) d" "q_api env = api"
    and "ready d" "refuses (sql_database r) newsql d e" "length e < 500"
    and "\<not> flag_set (flags r) DBRELAY_FLAG_XACT"
  shows "\<exists>w'. dbrelay_db_run_query env r w = Some (Inr (reply_text True r
      [(''log'', log_tree r q ps e)], w')) \<and>
    own_query_done w p i (Some a) (w_db w') w' \<and> closed (w_db w')"
proof -
  from refusal_sent[OF assms(4,5,7)] obtain d1 where
    d1: "query_sent api (Some a) (sql_database r) newsql (flags r) d = Inr (False, d1)" "ready d1"
      "api_error api (Some a) d1 = Inr e" by blast
  from let_go_closes[OF d1(2)] obtain d3 where d3: "let_go api (Some a) d1 = Inr d3" "closed d3" by blast
  have "exec_if (flag_set (flags r) DBRELAY_FLAG_XACT) api (Some a) DBRELAY_DBCMD_ROLLBACK d1 = Inr d1"
    using assms(7) by (simp add: exec_if_def)
  from query_error[OF assms(1,2), unfolded assms(3), OF in_order[OF assms(4)] d1(1) this d1(3) assms(6) d3(1)] d3(2)
  show ?thesis by (auto simp: own_query_done_def)
qed

end

text \<open>The driver in memory serves every query but a bad one with what it holds.\<close>

interpretation memory_serving: serving memory_api a
  "\<lambda>d ss. fst d = ss \<and> list_all set_shaped ss"
  "\<lambda>d s ss. fst d = ss \<and> fst (snd d) = s \<and> list_all set_shaped (s # ss)"
  "\<lambda>d. True"
  "\<lambda>database q d ss. q \<noteq> ''bad'' \<and> fst d = ss \<and> list_all set_shaped ss \<and> list_all set_fits ss"
  "\<lambda>database q d e. q = ''bad'' \<and> e = ''refused''" "\<lambda>d. True" for a
  by unfold_locales
    (force simp: memory_api_def shows_columns_def shows_row_def memory_column_def set_shaped_def
      query_sent_def before_query_def exec_if_def let_go_def split: list.splits prod.splits)+

end
