(* ===== verification/Mssql_Catalog.thy ===== *)
theory Mssql_Catalog
  imports Result
begin

section \<open>The catalog queries of the SQL Server driver (src/mssql.c)\<close>

text \<open>
  The queries the driver makes for the commands, the splitting of a table name into schema and
  table, and the arrays both are written to.
\<close>

subsection \<open>Catalog queries\<close>

text \<open>
  The position of the first dot outside double quotes and brackets; the schema before it and the
  table behind it lose their delimiters.
\<close>

fun first_dot :: "bool \<Rightarrow> bool \<Rightarrow> string \<Rightarrow> nat \<Rightarrow> nat option" where
  "first_dot quote bracket [] i = None"
| "first_dot quote bracket (c # cs) i =
     (let quote = (if c = DQ then \<not> quote else quote);
          bracket = (if \<not> bracket \<and> c = CHR ''['' then True else bracket);
          bracket = (if bracket \<and> c = CHR '']'' then False else bracket)
      in if \<not> quote \<and> \<not> bracket \<and> c = CHR ''.'' then Some i
         else first_dot quote bracket cs (i + 1))"

definition strip_delimiters :: "string \<Rightarrow> string" where
  "strip_delimiters s =
     (case s of [] \<Rightarrow> [] | c # cs \<Rightarrow> if c = DQ \<or> c = CHR ''['' then butlast cs else s)"

definition split_tablename :: "string \<Rightarrow> string \<times> string" where
  "split_tablename orig =
     (case first_dot False False orig 0 of
        None \<Rightarrow> ([], orig)
      | Some i \<Rightarrow> (strip_delimiters (take i orig), strip_delimiters (drop (i + 1) orig)))"

definition columns_mask :: "string \<Rightarrow> string" where
  "columns_mask table =
     ''SELECT COLUMN_NAME,IS_NULLABLE,DATA_TYPE,CHARACTER_MAXIMUM_LENGTH, NUMERIC_SCALE, CASE WHEN COLUMN_DEFAULT IS NULL THEN 0 ELSE 1 END AS HAS_DEFAULT, COLUMNPROPERTY(object_id(TABLE_NAME), COLUMN_NAME, '' @
     [SQ] @ ''IsIdentity'' @ [SQ] @ '') as IS_IDENTITY FROM INFORMATION_SCHEMA.COLUMNS WHERE TABLE_NAME = '' @
     [SQ] @ table @ [SQ]"

definition columns_mask2 :: "string \<Rightarrow> string \<Rightarrow> string" where
  "columns_mask2 table schema =
     columns_mask table @ '' AND TABLE_SCHEMA = '' @ [SQ] @ schema @ [SQ]"

definition pkey_mask :: "string \<Rightarrow> string" where
  "pkey_mask table =
     ''SELECT c.COLUMN_NAME FROM  INFORMATION_SCHEMA.TABLE_CONSTRAINTS pk , INFORMATION_SCHEMA.KEY_COLUMN_USAGE c WHERE pk.TABLE_NAME = '' @
     [SQ] @ table @ [SQ] @ '' AND   CONSTRAINT_TYPE = '' @ [SQ] @ ''PRIMARY KEY'' @ [SQ] @
     '' AND   c.TABLE_NAME = pk.TABLE_NAME AND   c.CONSTRAINT_NAME = pk.CONSTRAINT_NAME''"

definition pkey_mask2 :: "string \<Rightarrow> string \<Rightarrow> string" where
  "pkey_mask2 table schema =
     ''SELECT c.COLUMN_NAME FROM  INFORMATION_SCHEMA.TABLE_CONSTRAINTS pk , INFORMATION_SCHEMA.KEY_COLUMN_USAGE c WHERE pk.TABLE_NAME = '' @
     [SQ] @ table @ [SQ] @ '' AND   pk.TABLE_SCHEMA = '' @ [SQ] @ schema @ [SQ] @
     '' AND   CONSTRAINT_TYPE = '' @ [SQ] @ ''PRIMARY KEY'' @ [SQ] @
     '' AND   c.TABLE_NAME = pk.TABLE_NAME AND   c.TABLE_SCHEMA = pk.TABLE_SCHEMA AND   c.CONSTRAINT_NAME = pk.CONSTRAINT_NAME''"

text \<open>
  The two arrays of the split have one byte more than the parameter, the query's array the bytes
  of the longer mask and of the parameter.
\<close>

definition masked_query ::
    "(string \<Rightarrow> string) \<Rightarrow> (string \<Rightarrow> string \<Rightarrow> string) \<Rightarrow> string option \<Rightarrow> string option result" where
  "masked_query short_mask long_mask param =
     (case param of
        None \<Rightarrow> Inl Null_Deref
      | Some p \<Rightarrow>
          (let (schema, table) = split_tablename p;
               sz = length (long_mask ''%s'' ''%s'') + length p
           in rbind (into_array (length p + 1) schema) (\<lambda>schema.
              rbind (into_array (length p + 1) table) (\<lambda>table.
              rbind (into_array sz (if schema \<noteq> [] then long_mask table schema else short_mask table)) (\<lambda>s.
                Inr (Some s))))))"

definition dbrelay_mssql_catalogsql :: "nat \<Rightarrow> string option list \<Rightarrow> string option result" where
  "dbrelay_mssql_catalogsql c ps =
     (if c = DBRELAY_DBCMD_BEGIN then Inr (Some ''BEGIN TRAN'')
      else if c = DBRELAY_DBCMD_COMMIT then Inr (Some ''COMMIT TRAN'')
      else if c = DBRELAY_DBCMD_ROLLBACK then Inr (Some ''ROLLBACK TRAN'')
      else if c = DBRELAY_DBCMD_TABLES then
        Inr (Some (''SELECT * FROM INFORMATION_SCHEMA.tables WHERE TABLE_TYPE='' @ [SQ] @ ''BASE TABLE'' @ [SQ]))
      else if c = DBRELAY_DBCMD_COLUMNS then masked_query columns_mask columns_mask2 (ps ! 0)
      else if c = DBRELAY_DBCMD_PKEY then masked_query pkey_mask pkey_mask2 (ps ! 0)
      else Inr None)"

subsection \<open>Names with delimiters\<close>

datatype delimiter = Plain | Quoted | Bracketed

fun written :: "delimiter \<Rightarrow> string \<Rightarrow> string" where
  "written Plain n = n"
| "written Quoted n = DQ # n @ [DQ]"
| "written Bracketed n = CHR ''['' # n @ '']''"

text \<open>A name that can be written with a delimiter: dots are no trouble inside one.\<close>

fun name_ok :: "delimiter \<Rightarrow> string \<Rightarrow> bool" where
  "name_ok Plain n \<longleftrightarrow> DQ \<notin> set n \<and> CHR ''['' \<notin> set n \<and> CHR ''.'' \<notin> set n"
| "name_ok Quoted n \<longleftrightarrow> DQ \<notin> set n \<and> CHR ''['' \<notin> set n"
| "name_ok Bracketed n \<longleftrightarrow> DQ \<notin> set n \<and> CHR '']'' \<notin> set n"

lemma first_dot_plain:
  "DQ \<notin> set n \<Longrightarrow> CHR ''['' \<notin> set n \<Longrightarrow> CHR ''.'' \<notin> set n \<Longrightarrow>
     first_dot False False (n @ rest) i = first_dot False False rest (i + length n)"
  by (induction n arbitrary: i) auto

lemma first_dot_quoted:
  "DQ \<notin> set n \<Longrightarrow> CHR ''['' \<notin> set n \<Longrightarrow>
     first_dot True False (n @ rest) i = first_dot True False rest (i + length n)"
  by (induction n arbitrary: i) auto

lemma first_dot_bracketed:
  "DQ \<notin> set n \<Longrightarrow> CHR '']'' \<notin> set n \<Longrightarrow>
     first_dot False True (n @ rest) i = first_dot False True rest (i + length n)"
  by (induction n arbitrary: i) auto

lemma first_dot_written:
  "name_ok k n \<Longrightarrow> first_dot False False (written k n @ CHR ''.'' # rest) 0 = Some (length (written k n))"
  by (cases k) (simp_all add: first_dot_plain first_dot_quoted first_dot_bracketed)

lemma strip_written: "name_ok k n \<Longrightarrow> strip_delimiters (written k n) = n"
  by (cases k) (auto simp: strip_delimiters_def butlast_append split: list.splits)

lemma split_qualified:
  "name_ok k1 n1 \<Longrightarrow> name_ok k2 n2 \<Longrightarrow>
     split_tablename (written k1 n1 @ CHR ''.'' # written k2 n2) = (n1, n2)"
  by (simp add: split_tablename_def first_dot_written strip_written)

lemma first_dot_below: "first_dot qt br s i = Some n \<Longrightarrow> n < i + length s"
proof (induction qt br s i rule: first_dot.induct)
  case (2 qt br c cs i)
  then show ?case by (simp only: first_dot.simps Let_def) (force split: if_splits)
qed simp

lemma length_strip: "length (strip_delimiters s) \<le> length s"
  by (auto simp: strip_delimiters_def split: list.splits)

lemma split_lengths:
  assumes "split_tablename s = (schema, table)"
  shows "length schema \<le> length s \<and> length table \<le> length s \<and> length schema + length table \<le> length s"
proof (cases "first_dot False False s 0")
  case None
  with assms show ?thesis by (simp add: split_tablename_def)
next
  case (Some i)
  with first_dot_below[of False False s 0 i] have "i < length s" by simp
  with Some assms length_strip[of "take i s"] length_strip[of "drop (i + 1) s"] show ?thesis
    by (auto simp: split_tablename_def)
qed

lemma masked_query_fits:
  assumes "\<And>t s. length (long_mask t s) = k2 + length t + length s" "\<And>t. length (short_mask t) = k1 + length t"
    and "k1 < k2 + 4" "split_tablename p = (schema, table)"
  shows "masked_query short_mask long_mask (Some p) =
    Inr (Some (if schema \<noteq> [] then long_mask table schema else short_mask table))"
  using assms split_lengths[OF assms(4)] by (simp add: masked_query_def into_array_def)

lemma catalog_tables:
  assumes "split_tablename p = (schema, table)"
  shows "masked_query columns_mask columns_mask2 (Some p) =
      Inr (Some (if schema \<noteq> [] then columns_mask2 table schema else columns_mask table))"
    and "masked_query pkey_mask pkey_mask2 (Some p) =
      Inr (Some (if schema \<noteq> [] then pkey_mask2 table schema else pkey_mask table))"
proof -
  have "length (columns_mask t) = length (columns_mask []) + length t"
    "length (columns_mask2 t s) = length (columns_mask2 [] []) + length t + length s"
    "length (pkey_mask t) = length (pkey_mask []) + length t"
    "length (pkey_mask2 t s) = length (pkey_mask2 [] []) + length t + length s" for t s
    by (simp_all add: columns_mask_def columns_mask2_def pkey_mask_def pkey_mask2_def)
  note len = this
  have "length (columns_mask []) < length (columns_mask2 [] []) + 4"
    "length (pkey_mask []) < length (pkey_mask2 [] []) + 4"
    by (simp_all add: columns_mask2_def pkey_mask_def pkey_mask2_def)
  note less = this
  show "masked_query columns_mask columns_mask2 (Some p) =
      Inr (Some (if schema \<noteq> [] then columns_mask2 table schema else columns_mask table))"
    by (rule masked_query_fits[OF len(2,1) less(1) assms])
  show "masked_query pkey_mask pkey_mask2 (Some p) =
      Inr (Some (if schema \<noteq> [] then pkey_mask2 table schema else pkey_mask table))"
    by (rule masked_query_fits[OF len(4,3) less(2) assms])
qed

text \<open>
  A quote in the name of a table ends the literal it is pasted into, and what follows it is part
  of the query.
\<close>

lemma catalog_query_injects:
  assumes "s = n @ SQ # behind" "name_ok Plain s"
  shows "dbrelay_mssql_catalogsql DBRELAY_DBCMD_COLUMNS (Some s # ps) = Inr (Some (columns_mask n @ behind @ [SQ]))"
proof -
  have "first_dot False False s 0 = None" using first_dot_plain[of s "[]" 0] assms(2) by simp
  then have "split_tablename s = ([], s)" by (simp add: split_tablename_def)
  from catalog_tables(1)[OF this] show ?thesis
    by (simp add: dbrelay_mssql_catalogsql_def dbcmd_defs assms(1) columns_mask_def)
qed

text \<open>Without a schema the delimiters of a name are not taken off, so the query names no such table.\<close>

lemma unqualified_keeps_delimiters:
  assumes "name_ok k n"
  shows "split_tablename (written k n) = ([], written k n)"
proof -
  have "first_dot False False (written k n) 0 = None" using assms
    first_dot_plain[of n "[]" 0] first_dot_quoted[of n "[DQ]"] first_dot_bracketed[of n "[CHR '']'']"]
    by (cases k) simp_all
  then show ?thesis by (simp add: split_tablename_def)
qed

subsection \<open>Properties\<close>

text \<open>C32.
  Whatever the table parameter is, no catalog query runs over the array made for it, nor the split
  of the parameter over its two.
\<close>

theorem catalog_fits:
  "\<exists>s. dbrelay_mssql_catalogsql c (Some p # ps) = Inr s"
proof -
  obtain schema table where "split_tablename p = (schema, table)" by (cases "split_tablename p")
  from catalog_tables[OF this] show ?thesis by (auto simp: dbrelay_mssql_catalogsql_def)
qed

text \<open>For a table written with its schema, each of the two in double quotes, in brackets or bare,
  the query for its columns names exactly the table and the schema, without their delimiters.
\<close>

theorem catalog_qualified:
  assumes "name_ok k1 n1" "name_ok k2 n2" "n1 \<noteq> []"
  shows "dbrelay_mssql_catalogsql DBRELAY_DBCMD_COLUMNS (Some (written k1 n1 @ CHR ''.'' # written k2 n2) # ps) =
      Inr (Some (columns_mask2 n2 n1)) \<and>
    dbrelay_mssql_catalogsql DBRELAY_DBCMD_PKEY (Some (written k1 n1 @ CHR ''.'' # written k2 n2) # ps) =
      Inr (Some (pkey_mask2 n2 n1))"
  using catalog_tables[OF split_qualified[OF assms(1,2)]] assms(3)
  by (simp add: dbrelay_mssql_catalogsql_def dbcmd_defs)

theorem catalog_qualified_witness:
  "dbrelay_mssql_catalogsql DBRELAY_DBCMD_PKEY [Some ''[my.db].orders''] = Inr (Some (pkey_mask2 ''orders'' ''my.db''))"
  using catalog_qualified[of Bracketed "''my.db''" Plain "''orders''" "[]"] by simp

end
