(* ===== verification/Mssql.thy ===== *)
theory Mssql
  imports Serving Mssql_Catalog
begin

section \<open>The SQL Server driver (src/mssql.c)\<close>

text \<open>
  The driver over db-library. The library is the record \<open>'l dblib\<close> of its functions on a
  state \<open>'l\<close> that stands for library and server: every call gives its documented outcome, the
  messages it had for the message handler, and the new state. The structures the driver
  allocates and the handler's buffers are modelled here, the catalog queries in
  \<open>Mssql_Catalog\<close>.
\<close>

subsection \<open>Types and their names\<close>

datatype sybtype =
    SYBVARCHAR | SYBCHAR | SYBTEXT | SYBINT4 | SYBINT2 | SYBINT1 | SYBINTN | SYBFLT8 | SYBREAL
  | SYBFLTN | SYBMONEY | SYBMONEY4 | SYBIMAGE | SYBBIT | SYBDATETIME4 | SYBDATETIME | SYBDATETIMN
  | SYBNUMERIC | SYBDECIMAL | SYBUNIQUE | SYBBINARY | SYBVARBINARY | Other_Type int

text \<open>\<open>dest\<close> is what the buffer held before: some sizes leave it as it is.\<close>

fun dbrelay_mssql_get_sqltype_string :: "string \<Rightarrow> sybtype \<Rightarrow> int \<Rightarrow> string" where
  "dbrelay_mssql_get_sqltype_string dest SYBVARCHAR n = ''varchar''"
| "dbrelay_mssql_get_sqltype_string dest SYBCHAR n = ''char''"
| "dbrelay_mssql_get_sqltype_string dest SYBMONEY n = ''money''"
| "dbrelay_mssql_get_sqltype_string dest SYBMONEY4 n = ''smallmoney''"
| "dbrelay_mssql_get_sqltype_string dest SYBIMAGE n = ''image''"
| "dbrelay_mssql_get_sqltype_string dest SYBTEXT n = ''text''"
| "dbrelay_mssql_get_sqltype_string dest SYBBIT n = ''bit''"
| "dbrelay_mssql_get_sqltype_string dest SYBNUMERIC n = ''numeric''"
| "dbrelay_mssql_get_sqltype_string dest SYBDECIMAL n = ''decimal''"
| "dbrelay_mssql_get_sqltype_string dest SYBUNIQUE n = ''guid''"
| "dbrelay_mssql_get_sqltype_string dest SYBBINARY n = ''binary''"
| "dbrelay_mssql_get_sqltype_string dest SYBVARBINARY n = ''varbinary''"
| "dbrelay_mssql_get_sqltype_string dest (Other_Type c) n = ''unknown type '' @ show_int c"
| "dbrelay_mssql_get_sqltype_string dest c n =
     (if c \<in> {SYBINT4, SYBINT2, SYBINT1, SYBINTN} then
        (if n = 1 then ''tinyint'' else if n = 2 then ''smallint'' else if n = 4 then ''int'' else dest)
      else if c \<in> {SYBFLT8, SYBREAL, SYBFLTN} then
        (if n = 4 then ''real'' else if n = 8 then ''float'' else dest)
      else
        (if n = 4 then ''smalldatetime'' else if n = 8 then ''datetime'' else dest))"

definition is_quoted_type :: "sybtype \<Rightarrow> bool" where
  "is_quoted_type c \<longleftrightarrow> c \<in> {SYBVARCHAR, SYBCHAR, SYBTEXT, SYBDATETIMN, SYBDATETIME, SYBDATETIME4,
     SYBBINARY, SYBVARBINARY, SYBUNIQUE}"

definition dbrelay_mssql_has_prec :: "sybtype \<Rightarrow> bool" where
  "dbrelay_mssql_has_prec c \<longleftrightarrow> c = SYBDECIMAL \<or> c = SYBNUMERIC"

subsection \<open>The library\<close>

record sql_login =
  login_password :: "string option"
  login_port :: string
  login_user :: string
  login_app :: string

text \<open>A message: the process it is for, its number and its text.\<close>

type_synonym dbmessage = "nat option \<times> int \<times> string"

datatype results_code = SUCCEED | FAILED | NO_MORE_RESULTS

text \<open>
  A regular row comes with the text of each value, none for a null. A call can also fail, or give
  a row that is not a regular one, without storing anything.
\<close>

datatype row_code = Reg_Row "string option list" | NO_MORE_ROWS | No_Regular_Row

record 'l dblib =
  dbopen :: "sql_login \<Rightarrow> string \<Rightarrow> 'l \<Rightarrow> nat option \<times> dbmessage list \<times> 'l"
  dbuse :: "nat \<Rightarrow> string \<Rightarrow> 'l \<Rightarrow> bool \<times> dbmessage list \<times> 'l"
  dbcmd :: "nat \<Rightarrow> string option \<Rightarrow> 'l \<Rightarrow> 'l"
  dbsqlexec :: "nat \<Rightarrow> 'l \<Rightarrow> bool \<times> dbmessage list \<times> 'l"
  dbresults :: "nat \<Rightarrow> 'l \<Rightarrow> results_code \<times> dbmessage list \<times> 'l"
  dbnextrow :: "nat \<Rightarrow> 'l \<Rightarrow> row_code \<times> dbmessage list \<times> 'l"
  dbcount :: "nat \<Rightarrow> 'l \<Rightarrow> int"
  dbnumcols :: "nat \<Rightarrow> 'l \<Rightarrow> int"
  dbcolname :: "nat \<Rightarrow> nat \<Rightarrow> 'l \<Rightarrow> string option"
  dbcoltype :: "nat \<Rightarrow> nat \<Rightarrow> 'l \<Rightarrow> sybtype"
  dbcollen :: "nat \<Rightarrow> nat \<Rightarrow> 'l \<Rightarrow> int"
  dbcoltypeinfo :: "nat \<Rightarrow> nat \<Rightarrow> 'l \<Rightarrow> int \<times> int"
  dbdead :: "nat \<Rightarrow> 'l \<Rightarrow> bool"
  dbclose :: "nat \<Rightarrow> 'l \<Rightarrow> 'l"

subsection \<open>The structures of the driver\<close>

definition MSSQL_MAX_COLUMNS :: nat where "MSSQL_MAX_COLUMNS = 256"

text \<open>
  A buffer of \<^verbatim>\<open>colval\<close> is its size and its text. \<open>m_user\<close> is the
  \<^verbatim>\<open>error_message\<close> of the request assigned to a process.
\<close>

record mssql_db =
  login :: sql_login
  dbproc :: "nat option"
  colval :: "(nat \<times> string) option list"
  colnull :: "int list"

record 'l mssql_state =
  m_lib :: 'l
  m_structs :: "nat \<Rightarrow> mssql_db option"
  m_next :: nat
  m_user :: "nat \<Rightarrow> string option"
  m_login_error :: string
  m_login_msgno :: int

text \<open>The structure behind a handle: none is there for a null pointer, nor for one that was freed.\<close>

definition m_deref :: "handle \<Rightarrow> 'l mssql_state \<Rightarrow> mssql_db result" where
  "m_deref h d =
     (case h of
        None \<Rightarrow> Inl Null_Deref
      | Some a \<Rightarrow> (case m_structs d a of None \<Rightarrow> Inl Out_Of_Bounds | Some s \<Rightarrow> Inr s))"

definition m_proc :: "handle \<Rightarrow> 'l mssql_state \<Rightarrow> nat result" where
  "m_proc h d =
     rbind (m_deref h d) (\<lambda>s. case dbproc s of None \<Rightarrow> Inl Null_Deref | Some p \<Rightarrow> Inr p)"

definition m_put :: "handle \<Rightarrow> mssql_db \<Rightarrow> 'l mssql_state \<Rightarrow> 'l mssql_state" where
  "m_put h s d = d\<lparr>m_structs := (m_structs d)(the h \<mapsto> s)\<rparr>"

subsection \<open>Messages and errors\<close>

definition ERROR_MESSAGE_SZ :: nat where "ERROR_MESSAGE_SZ = 4000"
definition LOGIN_ERROR_SZ :: nat where "LOGIN_ERROR_SZ = 500"

fun dbrelay_mssql_msg_handler :: "dbmessage \<Rightarrow> 'l mssql_state \<Rightarrow> 'l mssql_state result" where
  "dbrelay_mssql_msg_handler (None, msgno, msgtext) d = Inr d"
| "dbrelay_mssql_msg_handler (Some p, msgno, msgtext) d =
     (if msgno = 5701 \<or> msgno = 5703 \<or> msgno = 5704 then Inr d
      else
        case m_user d p of
          Some err \<Rightarrow>
            rbind (if IS_SET msgtext then into_array ERROR_MESSAGE_SZ (err @ [NL]) else Inr err) (\<lambda>err.
            rbind (into_array ERROR_MESSAGE_SZ (err @ msgtext)) (\<lambda>err.
              Inr (d\<lparr>m_user := (m_user d)(p \<mapsto> err)\<rparr>)))
        | None \<Rightarrow>
            rbind (into_array LOGIN_ERROR_SZ msgtext) (\<lambda>err.
              Inr (d\<lparr>m_login_msgno := msgno, m_login_error := err\<rparr>)))"

fun handle_messages :: "dbmessage list \<Rightarrow> 'l mssql_state \<Rightarrow> 'l mssql_state result" where
  "handle_messages [] d = Inr d"
| "handle_messages (msg # msgs) d =
     rbind (dbrelay_mssql_msg_handler msg d) (handle_messages msgs)"

text \<open>A null pointer is \<open>None\<close>.\<close>

definition dbrelay_mssql_error :: "handle \<Rightarrow> 'l mssql_state \<Rightarrow> string option result" where
  "dbrelay_mssql_error h d =
     (case h of
        None \<Rightarrow> Inr (Some (m_login_error d))
      | Some a \<Rightarrow>
          rbind (m_deref h d) (\<lambda>s.
            case dbproc s of
              None \<Rightarrow> Inr (Some (m_login_error d))
            | Some p \<Rightarrow> Inr (m_user d p)))"

subsection \<open>Connecting and closing\<close>

text \<open>The name of the application the server shows, in an array of 30 bytes.\<close>

definition APP_SZ :: nat where "APP_SZ = 30"

definition strncat :: "nat \<Rightarrow> string \<Rightarrow> string \<Rightarrow> nat \<Rightarrow> string result" where
  "strncat sz dest src n = into_array sz (dest @ take n src)"

definition app_name :: "dbrelay_request \<Rightarrow> string result" where
  "app_name r =
     (let tmpbuf = ''dbrelay (''; len = length tmpbuf
      in rbind (strncat APP_SZ tmpbuf
           (if IS_SET (connection_name r) then connection_name r else remote_addr r)
           (APP_SZ - len - 3)) (\<lambda>tmpbuf. into_array APP_SZ (tmpbuf @ '')'')))"

definition dbrelay_mssql_connect ::
    "'l dblib \<Rightarrow> dbrelay_request \<Rightarrow> 'l mssql_state \<Rightarrow> (handle \<times> 'l mssql_state) result" where
  "dbrelay_mssql_connect lib r d =
     rbind (app_name r) (\<lambda>app.
       let lg = \<lparr>login_password = (if IS_SET (sql_password r) then Some (sql_password r) else None),
             login_port = sql_port r, login_user = sql_user r, login_app = app\<rparr>;
           (proc, msgs, l) = dbopen lib lg (sql_server r) (m_lib d)
       in rbind (handle_messages msgs (d\<lparr>m_lib := l\<rparr>)) (\<lambda>d.
            case proc of
              None \<Rightarrow> Inr (None, d)
            | Some p \<Rightarrow>
                let a = m_next d;
                    s = \<lparr>login = lg, dbproc = Some p, colval = replicate MSSQL_MAX_COLUMNS None,
                      colnull = replicate MSSQL_MAX_COLUMNS 0\<rparr>
                in Inr (Some a, (m_put (Some a) s d)\<lparr>m_next := a + 1,
                     m_user := (m_user d)(p \<mapsto> error_message r)\<rparr>)))"

definition dbrelay_mssql_assign_request ::
    "handle \<Rightarrow> dbrelay_request option \<Rightarrow> 'l mssql_state \<Rightarrow> 'l mssql_state result" where
  "dbrelay_mssql_assign_request h r d =
     rbind (m_proc h d) (\<lambda>p. Inr (d\<lparr>m_user := (m_user d)(p := map_option error_message r)\<rparr>))"

definition dbrelay_mssql_free_results :: "mssql_db \<Rightarrow> mssql_db" where
  "dbrelay_mssql_free_results s = s\<lparr>colval := map (\<lambda>v. None) (colval s)\<rparr>"

definition dbrelay_mssql_close ::
    "'l dblib \<Rightarrow> handle \<Rightarrow> 'l mssql_state \<Rightarrow> 'l mssql_state result" where
  "dbrelay_mssql_close lib h d =
     rbind (m_deref h d) (\<lambda>s.
       let d = m_put h (dbrelay_mssql_free_results s) d;
           d = (case dbproc s of None \<Rightarrow> d | Some p \<Rightarrow> d\<lparr>m_lib := dbclose lib p (m_lib d)\<rparr>)
       in Inr (d\<lparr>m_structs := (m_structs d)(the h := None)\<rparr>))"

definition dbrelay_mssql_connected :: "handle \<Rightarrow> 'l mssql_state \<Rightarrow> bool result" where
  "dbrelay_mssql_connected h d =
     (case h of None \<Rightarrow> Inr False | Some a \<Rightarrow> rbind (m_deref h d) (\<lambda>s. Inr (dbproc s \<noteq> None)))"

definition dbrelay_mssql_isalive :: "'l dblib \<Rightarrow> handle \<Rightarrow> 'l mssql_state \<Rightarrow> bool result" where
  "dbrelay_mssql_isalive lib h d = rbind (m_proc h d) (\<lambda>p. Inr (\<not> dbdead lib p (m_lib d)))"

subsection \<open>Statements, columns and rows\<close>

definition dbrelay_mssql_change_db ::
    "'l dblib \<Rightarrow> handle \<Rightarrow> string \<Rightarrow> 'l mssql_state \<Rightarrow> (bool \<times> 'l mssql_state) result" where
  "dbrelay_mssql_change_db lib h database d =
     rbind (m_proc h d) (\<lambda>p.
       let (ok, msgs, l) = dbuse lib p database (m_lib d)
       in rbind (handle_messages msgs (d\<lparr>m_lib := l\<rparr>)) (\<lambda>d. Inr (ok, d)))"

definition dbrelay_mssql_exec ::
    "'l dblib \<Rightarrow> handle \<Rightarrow> string option \<Rightarrow> 'l mssql_state \<Rightarrow> (bool \<times> 'l mssql_state) result" where
  "dbrelay_mssql_exec lib h q d =
     rbind (m_proc h d) (\<lambda>p.
       let (ok, msgs, l) = dbsqlexec lib p (dbcmd lib p q (m_lib d))
       in rbind (handle_messages msgs (d\<lparr>m_lib := l\<rparr>)) (\<lambda>d. Inr (ok, d)))"

text \<open>Each column of a result set is bound to a buffer for its text.\<close>

fun bind_loop ::
    "'l dblib \<Rightarrow> nat \<Rightarrow> 'l \<Rightarrow> nat list \<Rightarrow> (nat \<times> string) option list \<Rightarrow> (nat \<times> string) option list result" where
  "bind_loop lib p l [] vals = Inr vals"
| "bind_loop lib p l (n # ns) vals =
     (if n - 1 < length vals then
        let colsize = dbcollen lib p n l
        in bind_loop lib p l ns (vals[n - 1 := Some (if colsize > 256 then nat colsize + 1 else 256, [])])
      else Inl Buffer_Overflow)"

definition dbrelay_mssql_has_results ::
    "'l dblib \<Rightarrow> handle \<Rightarrow> 'l mssql_state \<Rightarrow> (bool \<times> 'l mssql_state) result" where
  "dbrelay_mssql_has_results lib h d =
     rbind (m_deref h d) (\<lambda>s.
     rbind (m_proc h d) (\<lambda>p.
       let s = dbrelay_mssql_free_results s;
           (rc, msgs, l) = dbresults lib p (m_lib d)
       in rbind (handle_messages msgs ((m_put h s d)\<lparr>m_lib := l\<rparr>)) (\<lambda>d.
            if rc = NO_MORE_RESULTS then Inr (False, d)
            else
              rbind (bind_loop lib p l [1..<nat (dbnumcols lib p l) + 1] (colval s)) (\<lambda>vals.
                Inr (True, m_put h (s\<lparr>colval := vals\<rparr>) d)))))"

text \<open>What the library stores for a row: a buffer's text, and in the indicator whether it is null.\<close>

fun fill_loop ::
    "nat \<Rightarrow> string option list \<Rightarrow> (nat \<times> string) option list \<Rightarrow> int list \<Rightarrow>
     ((nat \<times> string) option list \<times> int list) result" where
  "fill_loop i [] vals nulls = Inr (vals, nulls)"
| "fill_loop i (v # vs) vals nulls =
     (case vals ! i of
        None \<Rightarrow> fill_loop (i + 1) vs vals nulls
      | Some (sz, old) \<Rightarrow>
          (case v of
             None \<Rightarrow> fill_loop (i + 1) vs (vals[i := Some (sz, [])]) (nulls[i := - 1])
           | Some t \<Rightarrow>
               if length t < sz then fill_loop (i + 1) vs (vals[i := Some (sz, t)]) (nulls[i := 0])
               else Inl Buffer_Overflow))"

definition dbrelay_mssql_fetch_row ::
    "'l dblib \<Rightarrow> handle \<Rightarrow> 'l mssql_state \<Rightarrow> (bool \<times> 'l mssql_state) result" where
  "dbrelay_mssql_fetch_row lib h d =
     rbind (m_deref h d) (\<lambda>s.
     rbind (m_proc h d) (\<lambda>p.
       let (row, msgs, l) = dbnextrow lib p (m_lib d)
       in rbind (handle_messages msgs (d\<lparr>m_lib := l\<rparr>)) (\<lambda>d.
            case row of
              NO_MORE_ROWS \<Rightarrow> Inr (False, d)
            | No_Regular_Row \<Rightarrow> Inr (True, d)
            | Reg_Row vs \<Rightarrow>
                rbind (fill_loop 0 vs (colval s) (colnull s)) (\<lambda>(vals, nulls).
                  Inr (True, m_put h (s\<lparr>colval := vals, colnull := nulls\<rparr>) d)))))"

definition dbrelay_mssql_rowcount :: "'l dblib \<Rightarrow> handle \<Rightarrow> 'l mssql_state \<Rightarrow> int result" where
  "dbrelay_mssql_rowcount lib h d = rbind (m_proc h d) (\<lambda>p. Inr (dbcount lib p (m_lib d)))"

definition dbrelay_mssql_numcols :: "'l dblib \<Rightarrow> handle \<Rightarrow> 'l mssql_state \<Rightarrow> int result" where
  "dbrelay_mssql_numcols lib h d = rbind (m_proc h d) (\<lambda>p. Inr (dbnumcols lib p (m_lib d)))"

definition dbrelay_mssql_colname ::
    "'l dblib \<Rightarrow> handle \<Rightarrow> nat \<Rightarrow> 'l mssql_state \<Rightarrow> string option result" where
  "dbrelay_mssql_colname lib h n d = rbind (m_proc h d) (\<lambda>p. Inr (dbcolname lib p n (m_lib d)))"

definition dbrelay_mssql_coltype ::
    "'l dblib \<Rightarrow> string \<Rightarrow> handle \<Rightarrow> nat \<Rightarrow> 'l mssql_state \<Rightarrow> string result" where
  "dbrelay_mssql_coltype lib dest h n d =
     rbind (m_proc h d) (\<lambda>p. Inr (dbrelay_mssql_get_sqltype_string dest
       (dbcoltype lib p n (m_lib d)) (dbcollen lib p n (m_lib d))))"

definition dbrelay_mssql_collen :: "'l dblib \<Rightarrow> handle \<Rightarrow> nat \<Rightarrow> 'l mssql_state \<Rightarrow> int result" where
  "dbrelay_mssql_collen lib h n d = rbind (m_proc h d) (\<lambda>p. Inr (dbcollen lib p n (m_lib d)))"

definition dbrelay_mssql_colprec :: "'l dblib \<Rightarrow> handle \<Rightarrow> nat \<Rightarrow> 'l mssql_state \<Rightarrow> int result" where
  "dbrelay_mssql_colprec lib h n d =
     rbind (m_proc h d) (\<lambda>p. Inr (if dbrelay_mssql_has_prec (dbcoltype lib p n (m_lib d))
       then fst (dbcoltypeinfo lib p n (m_lib d)) else 0))"

definition dbrelay_mssql_colscale :: "'l dblib \<Rightarrow> handle \<Rightarrow> nat \<Rightarrow> 'l mssql_state \<Rightarrow> int result" where
  "dbrelay_mssql_colscale lib h n d =
     rbind (m_proc h d) (\<lambda>p. Inr (if dbrelay_mssql_has_prec (dbcoltype lib p n (m_lib d))
       then snd (dbcoltypeinfo lib p n (m_lib d)) else 0))"

definition dbrelay_mssql_is_quoted :: "'l dblib \<Rightarrow> handle \<Rightarrow> nat \<Rightarrow> 'l mssql_state \<Rightarrow> bool result" where
  "dbrelay_mssql_is_quoted lib h n d =
     rbind (m_proc h d) (\<lambda>p. Inr (is_quoted_type (dbcoltype lib p n (m_lib d))))"

definition dbrelay_mssql_colvalue :: "handle \<Rightarrow> nat \<Rightarrow> 'l mssql_state \<Rightarrow> string option result" where
  "dbrelay_mssql_colvalue h n d =
     rbind (m_deref h d) (\<lambda>s.
       if \<not> n - 1 < length (colnull s) then Inl Out_Of_Bounds
       else if colnull s ! (n - 1) = - 1 then Inr None
       else (case colval s ! (n - 1) of None \<Rightarrow> Inl Null_Deref | Some (sz, t) \<Rightarrow> Inr (Some t)))"

subsection \<open>The table of functions\<close>

text \<open>Whoever asks for the error reads it as a string, so a null pointer is a fault there.\<close>

definition dbrelay_mssql_api :: "'l dblib \<Rightarrow> string \<Rightarrow> 'l mssql_state dbapi" where
  "dbrelay_mssql_api lib stale = \<lparr>
     api_connected = dbrelay_mssql_connected,
     api_change_db = dbrelay_mssql_change_db lib,
     api_exec = dbrelay_mssql_exec lib,
     api_rowcount = dbrelay_mssql_rowcount lib,
     api_has_results = dbrelay_mssql_has_results lib,
     api_numcols = dbrelay_mssql_numcols lib,
     api_colname = dbrelay_mssql_colname lib,
     api_coltype = dbrelay_mssql_coltype lib stale,
     api_collen = dbrelay_mssql_collen lib,
     api_colprec = dbrelay_mssql_colprec lib,
     api_colscale = dbrelay_mssql_colscale lib,
     api_fetch_row = dbrelay_mssql_fetch_row lib,
     api_colvalue = dbrelay_mssql_colvalue,
     api_is_quoted = dbrelay_mssql_is_quoted lib,
     api_error = (\<lambda>h d. rbind (dbrelay_mssql_error h d)
       (\<lambda>e. case e of None \<Rightarrow> Inl Null_Deref | Some e \<Rightarrow> Inr e)),
     api_catalogsql = dbrelay_mssql_catalogsql,
     api_isalive = dbrelay_mssql_isalive lib,
     api_connect = dbrelay_mssql_connect lib,
     api_assign_request = dbrelay_mssql_assign_request,
     api_close = dbrelay_mssql_close lib\<rparr>"

subsection \<open>What the library promises\<close>

text \<open>
  A column and a result set as db-library describes them. \<open>lib_sets\<close> is its documented
  behaviour for an executed statement: result sets come one after the other, each with all its
  rows, and no message comes with them.
\<close>

record sql_column =
  q_name :: "string option"
  q_type :: sybtype
  q_len :: int
  q_prec :: int
  q_scale :: int

record sql_set =
  q_columns :: "sql_column list"
  q_rows :: "string option list list"
  q_count :: int

definition lib_describes :: "'l dblib \<Rightarrow> nat \<Rightarrow> 'l \<Rightarrow> sql_column list \<Rightarrow> bool" where
  "lib_describes lib p l cs \<longleftrightarrow> dbnumcols lib p l = int (length cs) \<and>
     (\<forall>i<length cs. dbcolname lib p (Suc i) l = q_name (cs ! i) \<and>
        dbcoltype lib p (Suc i) l = q_type (cs ! i) \<and> dbcollen lib p (Suc i) l = q_len (cs ! i) \<and>
        dbcoltypeinfo lib p (Suc i) l = (q_prec (cs ! i), q_scale (cs ! i)))"

fun lib_rows :: "'l dblib \<Rightarrow> nat \<Rightarrow> sql_column list \<Rightarrow> 'l \<Rightarrow> string option list list \<Rightarrow> 'l \<Rightarrow> bool" where
  "lib_rows lib p cs l [] l' \<longleftrightarrow> dbnextrow lib p l = (NO_MORE_ROWS, [], l')"
| "lib_rows lib p cs l (vs # vss) l' \<longleftrightarrow> length vs = length cs \<and>
     (\<exists>l1. dbnextrow lib p l = (Reg_Row vs, [], l1) \<and> lib_describes lib p l1 cs \<and>
        lib_rows lib p cs l1 vss l')"

fun lib_sets :: "'l dblib \<Rightarrow> nat \<Rightarrow> 'l \<Rightarrow> sql_set list \<Rightarrow> 'l \<Rightarrow> bool" where
  "lib_sets lib p l [] l' \<longleftrightarrow> dbresults lib p l = (NO_MORE_RESULTS, [], l')"
| "lib_sets lib p l (s # ss) l' \<longleftrightarrow>
     (\<exists>l1 l2. dbresults lib p l = (SUCCEED, [], l1) \<and> lib_describes lib p l1 (q_columns s) \<and>
        lib_rows lib p (q_columns s) l1 (q_rows s) l2 \<and> dbcount lib p l2 = q_count s \<and>
        lib_sets lib p l2 ss l')"

text \<open>The result set the query code should get of it.\<close>

definition shown_column :: "string \<Rightarrow> sql_column \<Rightarrow> column" where
  "shown_column stale c =
     \<lparr>col_name = q_name c, col_type = dbrelay_mssql_get_sqltype_string stale (q_type c) (q_len c),
      col_len = q_len c, col_prec = (if dbrelay_mssql_has_prec (q_type c) then q_prec c else 0),
      col_scale = (if dbrelay_mssql_has_prec (q_type c) then q_scale c else 0),
      col_quoted = is_quoted_type (q_type c)\<rparr>"

definition shown_set :: "string \<Rightarrow> sql_set \<Rightarrow> result_set" where
  "shown_set stale s =
     \<lparr>columns = map (shown_column stale) (q_columns s), rows = q_rows s, row_count = q_count s\<rparr>"

text \<open>Every value fits the buffer its column gets, and there are not too many columns.\<close>

definition buffer_size :: "int \<Rightarrow> nat" where
  "buffer_size colsize = (if colsize > 256 then nat colsize + 1 else 256)"

definition row_bound :: "sql_column list \<Rightarrow> string option list \<Rightarrow> bool" where
  "row_bound cs vs \<longleftrightarrow>
     list_all2 (\<lambda>c v. case v of None \<Rightarrow> True | Some t \<Rightarrow> length t < buffer_size (q_len c)) cs vs"

definition set_bound :: "sql_set \<Rightarrow> bool" where
  "set_bound s \<longleftrightarrow> length (q_columns s) \<le> MSSQL_MAX_COLUMNS \<and> list_all (row_bound (q_columns s)) (q_rows s)"

subsection \<open>The driver keeps its contract\<close>

lemma bind_loop_binds:
  assumes "\<forall>n\<in>set ns. 0 < n \<and> n \<le> length vals"
  shows "\<exists>vals'. bind_loop lib p l ns vals = Inr vals' \<and> length vals' = length vals \<and>
    (\<forall>i<length vals. vals' ! i =
       (if Suc i \<in> set ns then Some (buffer_size (dbcollen lib p (Suc i) l), []) else vals ! i))"
  using assms
proof (induction ns arbitrary: vals)
  case (Cons n ns)
  let ?vals = "vals[n - 1 := Some (buffer_size (dbcollen lib p n l), [])]"
  from Cons.prems have n: "0 < n" "n - 1 < length vals" "\<forall>n\<in>set ns. 0 < n \<and> n \<le> length ?vals" by auto
  from Cons.IH[OF n(3)] obtain vals' where v: "bind_loop lib p l ns ?vals = Inr vals'"
    "length vals' = length vals" "\<forall>i<length vals. vals' ! i =
      (if Suc i \<in> set ns then Some (buffer_size (dbcollen lib p (Suc i) l), []) else ?vals ! i)" by auto
  have "?vals ! i = (if Suc i = n then Some (buffer_size (dbcollen lib p (Suc i) l), []) else vals ! i)"
    if "i < length vals" for i using that n(1,2) by (auto simp: nth_list_update)
  with v n(1,2) show ?case by (intro exI[of _ vals']) (auto simp: buffer_size_def)
qed simp

lemma fill_loop_fills:
  assumes "length vals = length nulls" "i + length vs \<le> length vals"
    and "\<forall>j<length vs. \<exists>t. vals ! (i + j) = Some (cap (i + j), t)"
    and "\<forall>j<length vs. \<forall>t. vs ! j = Some t \<longrightarrow> length t < cap (i + j)"
  shows "\<exists>vals' nulls'. fill_loop i vs vals nulls = Inr (vals', nulls') \<and>
    length vals' = length vals \<and> length nulls' = length vals \<and>
    (\<forall>k<i. vals' ! k = vals ! k \<and> nulls' ! k = nulls ! k) \<and>
    (\<forall>j<length vs. nulls' ! (i + j) = (if vs ! j = None then - 1 else 0) \<and>
       vals' ! (i + j) = Some (cap (i + j), case vs ! j of None \<Rightarrow> [] | Some t \<Rightarrow> t))"
  using assms
proof (induction vs arbitrary: i vals nulls)
  case (Cons v vs)
  define vals1 where "vals1 = vals[i := Some (cap i, case v of None \<Rightarrow> [] | Some t \<Rightarrow> t)]"
  define nulls1 where "nulls1 = nulls[i := (if v = None then - 1 else 0)]"
  from Cons.prems(2) have i: "i < length vals" by simp
  from Cons.prems(3) obtain old where old: "vals ! i = Some (cap i, old)" by force
  have "\<forall>t. v = Some t \<longrightarrow> length t < cap i" using Cons.prems(4) by force
  with old have step: "fill_loop i (v # vs) vals nulls = fill_loop (i + 1) vs vals1 nulls1"
    by (cases v) (simp_all add: vals1_def nulls1_def)
  have prems: "length vals1 = length nulls1" "i + 1 + length vs \<le> length vals1"
    using Cons.prems(1,2) by (simp_all add: vals1_def nulls1_def)
  moreover have "\<exists>t. vals1 ! (i + 1 + j) = Some (cap (i + 1 + j), t)" if "j < length vs" for j
    using Cons.prems(3)[rule_format, of "Suc j"] that by (simp add: vals1_def)
  moreover have "length t < cap (i + 1 + j)" if "j < length vs" "vs ! j = Some t" for j t
    using Cons.prems(4)[rule_format, of "Suc j" t] that by simp
  ultimately obtain vals' nulls' where r: "fill_loop (i + 1) vs vals1 nulls1 = Inr (vals', nulls')"
    "length vals' = length vals1" "length nulls' = length vals1"
    "\<forall>k<i + 1. vals' ! k = vals1 ! k \<and> nulls' ! k = nulls1 ! k"
    "\<forall>j<length vs. nulls' ! (i + 1 + j) = (if vs ! j = None then - 1 else 0) \<and>
       vals' ! (i + 1 + j) = Some (cap (i + 1 + j), case vs ! j of None \<Rightarrow> [] | Some t \<Rightarrow> t)"
    using Cons.IH[of vals1 nulls1 "i + 1"] by blast
  have below: "vals' ! k = vals ! k \<and> nulls' ! k = nulls ! k" if "k < i" for k
    using r(4) that by (simp add: vals1_def nulls1_def)
  have here: "nulls' ! i = (if v = None then - 1 else 0)"
    "vals' ! i = Some (cap i, case v of None \<Rightarrow> [] | Some t \<Rightarrow> t)"
    using r(4) i Cons.prems(1) by (simp_all add: vals1_def nulls1_def)
  have above: "nulls' ! (i + j) = (if (v # vs) ! j = None then - 1 else 0) \<and>
      vals' ! (i + j) = Some (cap (i + j), case (v # vs) ! j of None \<Rightarrow> [] | Some t \<Rightarrow> t)"
    if "j < length (v # vs)" for j
    using here r(5)[rule_format, of "j - 1"] that by (cases j) auto
  show ?case using step r(1-3) below above by (intro exI[of _ vals'] exI[of _ nulls']) (auto simp: vals1_def)
qed simp

text \<open>A connection in order: its structure, its process, and its arrays.\<close>

definition m_ready :: "nat \<Rightarrow> nat \<Rightarrow> 'l mssql_state \<Rightarrow> bool" where
  "m_ready a p d \<longleftrightarrow> (\<exists>s. m_structs d a = Some s \<and> dbproc s = Some p \<and>
     length (colval s) = MSSQL_MAX_COLUMNS \<and> length (colnull s) = MSSQL_MAX_COLUMNS)"

definition m_bound :: "nat \<Rightarrow> sql_column list \<Rightarrow> 'l mssql_state \<Rightarrow> bool" where
  "m_bound a cs d \<longleftrightarrow> (\<forall>i<length cs. \<exists>t. colval (the (m_structs d a)) ! i = Some (buffer_size (q_len (cs ! i)), t))"

definition m_holds :: "'l dblib \<Rightarrow> string \<Rightarrow> nat \<Rightarrow> nat \<Rightarrow> 'l mssql_state \<Rightarrow> result_set list \<Rightarrow> bool" where
  "m_holds lib stale a p d ss \<longleftrightarrow> m_ready a p d \<and>
     (\<exists>qs l. lib_sets lib p (m_lib d) qs l \<and> list_all set_bound qs \<and> ss = map (shown_set stale) qs)"

definition m_in_set ::
    "'l dblib \<Rightarrow> string \<Rightarrow> nat \<Rightarrow> nat \<Rightarrow> 'l mssql_state \<Rightarrow> result_set \<Rightarrow> result_set list \<Rightarrow> bool" where
  "m_in_set lib stale a p d s ss \<longleftrightarrow> m_ready a p d \<and>
     (\<exists>q qs l1 l2. s = shown_set stale q \<and> ss = map (shown_set stale) qs \<and> set_bound q \<and>
        m_bound a (q_columns q) d \<and> lib_rows lib p (q_columns q) (m_lib d) (q_rows q) l1 \<and>
        dbcount lib p l1 = q_count q \<and> lib_sets lib p l1 qs l2 \<and> list_all set_bound qs)"

lemma m_in_setI:
  "m_ready a p d \<Longrightarrow> s = shown_set stale q \<Longrightarrow> ss = map (shown_set stale) qs \<Longrightarrow> set_bound q \<Longrightarrow>
   m_bound a (q_columns q) d \<Longrightarrow> lib_rows lib p (q_columns q) (m_lib d) (q_rows q) l1 \<Longrightarrow>
   dbcount lib p l1 = q_count q \<Longrightarrow> lib_sets lib p l1 qs l2 \<Longrightarrow> list_all set_bound qs \<Longrightarrow>
   m_in_set lib stale a p d s ss"
  unfolding m_in_set_def by blast

lemma m_in_setE:
  assumes "m_in_set lib stale a p d s ss"
  obtains q qs l1 l2 where "m_ready a p d" "s = shown_set stale q" "ss = map (shown_set stale) qs"
    "set_bound q" "m_bound a (q_columns q) d" "lib_rows lib p (q_columns q) (m_lib d) (q_rows q) l1"
    "dbcount lib p l1 = q_count q" "lib_sets lib p l1 qs l2" "list_all set_bound qs"
  using assms unfolding m_in_set_def by blast

lemma m_readyE:
  assumes "m_ready a p d"
  obtains s where "m_structs d a = Some s" "dbproc s = Some p" "length (colval s) = MSSQL_MAX_COLUMNS"
    "length (colnull s) = MSSQL_MAX_COLUMNS"
    "m_deref (Some a) d = Inr s" "m_proc (Some a) d = Inr p"
  using assms by (auto simp: m_ready_def m_deref_def m_proc_def)

lemma m_proc_ready: "m_ready a p d \<Longrightarrow> m_proc (Some a) d = Inr p"
  by (auto elim: m_readyE)

lemmas column_calls = dbrelay_mssql_rowcount_def dbrelay_mssql_numcols_def dbrelay_mssql_colname_def
  dbrelay_mssql_coltype_def dbrelay_mssql_collen_def dbrelay_mssql_colprec_def
  dbrelay_mssql_colscale_def dbrelay_mssql_is_quoted_def

lemma m_shows_columns:
  assumes "m_ready a p d" "lib_describes lib p (m_lib d) cs"
  shows "shows_columns (dbrelay_mssql_api lib stale) (Some a) d (map (shown_column stale) cs)"
  using assms by (simp add: shows_columns_def dbrelay_mssql_api_def column_calls m_proc_ready
      lib_describes_def shown_column_def)

lemma m_next_set:
  assumes "m_holds lib stale a p d (s # ss)"
  shows "\<exists>d1. dbrelay_mssql_has_results lib (Some a) d = Inr (True, d1) \<and>
    shows_columns (dbrelay_mssql_api lib stale) (Some a) d1 (columns s) \<and> m_in_set lib stale a p d1 s ss"
proof -
  from assms obtain q qs l where q: "m_ready a p d" "lib_sets lib p (m_lib d) (q # qs) l" "set_bound q"
    "list_all set_bound qs" "s = shown_set stale q" "ss = map (shown_set stale) qs"
    by (auto simp: m_holds_def Cons_eq_map_conv)
  from q(2) obtain l1 l2 where l: "dbresults lib p (m_lib d) = (SUCCEED, [], l1)"
    "lib_describes lib p l1 (q_columns q)" "lib_rows lib p (q_columns q) l1 (q_rows q) l2"
    "dbcount lib p l2 = q_count q" "lib_sets lib p l2 qs l" by auto
  from q(1) obtain r where r: "m_structs d a = Some r" "dbproc r = Some p"
    "length (colval r) = MSSQL_MAX_COLUMNS" "length (colnull r) = MSSQL_MAX_COLUMNS"
    "m_deref (Some a) d = Inr r" "m_proc (Some a) d = Inr p" by (rule m_readyE)
  let ?r = "dbrelay_mssql_free_results r"
  let ?n = "length (q_columns q)"
  have "\<forall>n\<in>set [1..<?n + 1]. 0 < n \<and> n \<le> length (colval ?r)"
    using q(3) r(3) by (auto simp: set_bound_def dbrelay_mssql_free_results_def)
  from bind_loop_binds[OF this, of lib p l1] obtain vals where v:
    "bind_loop lib p l1 [1..<?n + 1] (colval ?r) = Inr vals" "length vals = length (colval ?r)"
    "\<forall>i<length (colval ?r). vals ! i = (if Suc i \<in> set [1..<?n + 1]
      then Some (buffer_size (dbcollen lib p (Suc i) l1), []) else colval ?r ! i)" by blast
  let ?d = "m_put (Some a) (?r\<lparr>colval := vals\<rparr>) ((m_put (Some a) ?r d)\<lparr>m_lib := l1\<rparr>)"
  have "nat (dbnumcols lib p l1) = ?n" using l(2) by (simp add: lib_describes_def)
  with l(1) r(5,6) v(1) have "dbrelay_mssql_has_results lib (Some a) d = Inr (True, ?d)"
    by (simp add: dbrelay_mssql_has_results_def Let_def del: upt_Suc)
  moreover have ready: "m_ready a p ?d" using r(2-4) v(2)
    by (simp add: m_ready_def m_put_def dbrelay_mssql_free_results_def)
  moreover have "m_bound a (q_columns q) ?d"
    using v(3) l(2) q(3) r(3) by (auto simp: m_bound_def m_put_def dbrelay_mssql_free_results_def set_bound_def
        lib_describes_def)
  moreover have "m_lib ?d = l1" by (simp add: m_put_def)
  ultimately show ?thesis using l q(3-6) m_shows_columns[OF ready, of lib "q_columns q" stale]
    by (auto simp: m_in_set_def shown_set_def)
qed

lemma m_last_set:
  assumes "m_holds lib stale a p d []"
  shows "\<exists>d1. dbrelay_mssql_has_results lib (Some a) d = Inr (False, d1) \<and> m_ready a p d1"
proof -
  from assms obtain l where l: "m_ready a p d" "dbresults lib p (m_lib d) = (NO_MORE_RESULTS, [], l)"
    by (auto simp: m_holds_def)
  from l(1) obtain r where r: "m_structs d a = Some r" "dbproc r = Some p"
    "length (colval r) = MSSQL_MAX_COLUMNS" "length (colnull r) = MSSQL_MAX_COLUMNS"
    "m_deref (Some a) d = Inr r" "m_proc (Some a) d = Inr p" by (rule m_readyE)
  let ?d = "(m_put (Some a) (dbrelay_mssql_free_results r) d)\<lparr>m_lib := l\<rparr>"
  have "dbrelay_mssql_has_results lib (Some a) d = Inr (False, ?d)"
    using l(2) r(5,6) by (simp add: dbrelay_mssql_has_results_def Let_def)
  moreover have "m_ready a p ?d" using r(2-4)
    by (simp add: m_ready_def m_put_def dbrelay_mssql_free_results_def)
  ultimately show ?thesis by blast
qed

lemma m_next_row:
  assumes "m_in_set lib stale a p d s ss" "rows s = vs # vss"
  shows "\<exists>d1. dbrelay_mssql_fetch_row lib (Some a) d = Inr (True, d1) \<and>
    shows_row (dbrelay_mssql_api lib stale) (Some a) d1 (columns s) vs \<and>
    m_in_set lib stale a p d1 (s\<lparr>rows := vss\<rparr>) ss"
proof -
  from assms(1) obtain q qs l1 l2 where q: "m_ready a p d" "s = shown_set stale q"
    "ss = map (shown_set stale) qs" "set_bound q" "m_bound a (q_columns q) d"
    "lib_rows lib p (q_columns q) (m_lib d) (q_rows q) l1" "dbcount lib p l1 = q_count q"
    "lib_sets lib p l1 qs l2" "list_all set_bound qs" by (rule m_in_setE)
  have qr: "q_rows q = vs # vss" using assms(2) q(2) by (simp add: shown_set_def)
  let ?cs = "q_columns q"
  from q(6) qr obtain l where l: "length vs = length ?cs" "dbnextrow lib p (m_lib d) = (Reg_Row vs, [], l)"
    "lib_describes lib p l ?cs" "lib_rows lib p ?cs l vss l1" by auto
  from q(1) obtain r where r: "m_structs d a = Some r" "dbproc r = Some p"
    "length (colval r) = MSSQL_MAX_COLUMNS" "length (colnull r) = MSSQL_MAX_COLUMNS"
    "m_deref (Some a) d = Inr r" "m_proc (Some a) d = Inr p" by (rule m_readyE)
  define cap where "cap = (\<lambda>i. buffer_size (q_len (?cs ! i)))"
  have 1: "0 + length vs \<le> length (colval r)" using q(4) l(1) r(3) by (simp add: set_bound_def)
  have 2: "\<forall>j<length vs. \<exists>t. colval r ! (0 + j) = Some (cap (0 + j), t)"
    using q(5) r(1) l(1) by (simp add: m_bound_def cap_def)
  have "row_bound ?cs vs" using q(4) qr by (simp add: set_bound_def)
  then have 3: "\<forall>j<length vs. \<forall>t. vs ! j = Some t \<longrightarrow> length t < cap (0 + j)"
    by (auto simp: row_bound_def list_all2_conv_all_nth cap_def split: option.splits)
  from fill_loop_fills[OF _ 1 2 3, of "colnull r"] r(3,4) obtain vals nulls where
    f: "fill_loop 0 vs (colval r) (colnull r) = Inr (vals, nulls)" "length vals = MSSQL_MAX_COLUMNS"
    "length nulls = MSSQL_MAX_COLUMNS" "\<forall>j<length vs. nulls ! j = (if vs ! j = None then - 1 else 0) \<and>
       vals ! j = Some (cap j, case vs ! j of None \<Rightarrow> [] | Some t \<Rightarrow> t)" by auto
  let ?d = "m_put (Some a) (r\<lparr>colval := vals, colnull := nulls\<rparr>) (d\<lparr>m_lib := l\<rparr>)"
  from l(2) r(5,6) f(1) have "dbrelay_mssql_fetch_row lib (Some a) d = Inr (True, ?d)"
    by (simp add: dbrelay_mssql_fetch_row_def Let_def)
  moreover have ready: "m_ready a p ?d" using r(2) f(2,3) by (simp add: m_ready_def m_put_def)
  moreover have "m_bound a ?cs ?d" using f(4) l(1) by (auto simp: m_bound_def m_put_def cap_def)
  moreover have "dbrelay_mssql_colvalue (Some a) (Suc i) ?d = Inr (vs ! i)" if "i < length vs" for i
    using f(3,4) that 1 r(3) by (auto simp: dbrelay_mssql_colvalue_def m_deref_def m_put_def)
  then have "shows_row (dbrelay_mssql_api lib stale) (Some a) ?d (columns s) vs"
    using l(1,3) m_proc_ready[OF ready] q(2) by (simp add: shows_row_def dbrelay_mssql_api_def column_calls
        lib_describes_def shown_column_def shown_set_def m_put_def)
  moreover have "s\<lparr>rows := vss\<rparr> = shown_set stale (q\<lparr>q_rows := vss\<rparr>)" "set_bound (q\<lparr>q_rows := vss\<rparr>)"
    using q(2,4) qr by (simp_all add: shown_set_def set_bound_def)
  ultimately show ?thesis using l(4) q(3,7-9)
      m_in_setI[of a p ?d "s\<lparr>rows := vss\<rparr>" stale "q\<lparr>q_rows := vss\<rparr>" ss qs lib l1 l2]
    by (simp add: m_put_def)
qed

lemma m_last_row:
  assumes "m_in_set lib stale a p d s ss" "rows s = []"
  shows "\<exists>d1. dbrelay_mssql_fetch_row lib (Some a) d = Inr (False, d1) \<and>
    api_rowcount (dbrelay_mssql_api lib stale) (Some a) d1 = Inr (row_count s) \<and> m_holds lib stale a p d1 ss"
proof -
  from assms(1) obtain q qs l1 l2 where q1: "m_ready a p d" "s = shown_set stale q"
    "ss = map (shown_set stale) qs"
    "set_bound q" "m_bound a (q_columns q) d" "lib_rows lib p (q_columns q) (m_lib d) (q_rows q) l1"
    "dbcount lib p l1 = q_count q" "lib_sets lib p l1 qs l2" "list_all set_bound qs" by (rule m_in_setE)
  have "q_rows q = []" using assms(2) q1(2) by (simp add: shown_set_def)
  with q1 have q: "m_ready a p d" "s = shown_set stale q"
    "ss = map (shown_set stale) qs" "dbnextrow lib p (m_lib d) = (NO_MORE_ROWS, [], l1)"
    "dbcount lib p l1 = q_count q" "lib_sets lib p l1 qs l2" "list_all set_bound qs" by simp_all
  let ?d = "d\<lparr>m_lib := l1\<rparr>"
  have ready: "m_ready a p ?d" using q(1) by (simp add: m_ready_def)
  from q(1,4) have "dbrelay_mssql_fetch_row lib (Some a) d = Inr (False, ?d)"
    by (auto simp: dbrelay_mssql_fetch_row_def elim!: m_readyE)
  with ready m_proc_ready[OF ready] q(2-7) show ?thesis
    by (auto simp: m_holds_def shown_set_def dbrelay_mssql_api_def column_calls)
qed

lemma m_calls:
  "api_has_results (dbrelay_mssql_api lib stale) = dbrelay_mssql_has_results lib"
  "api_fetch_row (dbrelay_mssql_api lib stale) = dbrelay_mssql_fetch_row lib"
  by (simp_all add: dbrelay_mssql_api_def)

subsection \<open>Messages, names and limits\<close>

lemma handle_messages_keeps:
  "handle_messages ms d = Inr d' \<Longrightarrow> m_lib d' = m_lib d \<and> m_structs d' = m_structs d \<and> m_next d' = m_next d"
proof (induction ms arbitrary: d)
  case (Cons msg ms)
  then obtain d1 where d1: "dbrelay_mssql_msg_handler msg d = Inr d1" "handle_messages ms d1 = Inr d'"
    by (auto simp: rbind_eq_Inr_iff)
  have "m_lib d1 = m_lib d \<and> m_structs d1 = m_structs d \<and> m_next d1 = m_next d"
    using d1(1) by (cases "(msg, d)" rule: dbrelay_mssql_msg_handler.cases)
      (auto simp: rbind_eq_Inr_iff split: if_splits option.splits)
  with Cons.IH[OF d1(2)] show ?case by simp
qed simp

lemma handled_ready: "m_ready a p d \<Longrightarrow> handle_messages ms (d\<lparr>m_lib := l\<rparr>) = Inr d' \<Longrightarrow> m_ready a p d'"
  using handle_messages_keeps[of ms "d\<lparr>m_lib := l\<rparr>" d'] by (simp add: m_ready_def)

lemma set_fits_bound:
  assumes "set_fits (shown_set stale q)" "length (q_columns q) \<le> MSSQL_MAX_COLUMNS"
  shows "set_bound q"
proof -
  have "value_fits (shown_column stale c) v \<Longrightarrow>
      case v of None \<Rightarrow> True | Some t \<Rightarrow> length t < buffer_size (q_len c)" for c v
    by (auto simp: value_fits_def shown_column_def buffer_size_def split: option.splits if_splits)
  then have "row_bound (q_columns q) vs" if "list_all2 value_fits (map (shown_column stale) (q_columns q)) vs" for vs
    using that by (auto simp: row_bound_def list_all2_map1 elim: list_all2_mono)
  with assms show ?thesis by (auto simp: set_bound_def set_fits_def shown_set_def list_all_iff)
qed

lemma handle_all:
  assumes "m_user d p = Some err"
    and "\<forall>(h0, no, t)\<in>set ms. h0 = Some p \<and> no \<notin> {5701, 5703, 5704} \<and> t \<noteq> []"
    and "length (err @ concat (map (\<lambda>(h0, no, t). NL # t) ms)) < ERROR_MESSAGE_SZ"
  shows "handle_messages ms d =
    Inr (d\<lparr>m_user := (m_user d)(p \<mapsto> err @ concat (map (\<lambda>(h0, no, t). NL # t) ms))\<rparr>)"
  using assms
proof (induction ms arbitrary: d err)
  case Nil
  then have "(m_user d)(p \<mapsto> err) = m_user d" by auto
  then show ?case by simp
next
  case (Cons msg ms)
  obtain h0 no t where msg: "msg = (h0, no, t)" by (cases msg)
  have t: "h0 = Some p" "no \<notin> {5701, 5703, 5704}" "t \<noteq> []" using Cons.prems(2) msg by auto
  let ?d = "d\<lparr>m_user := (m_user d)(p \<mapsto> err @ NL # t)\<rparr>"
  have "dbrelay_mssql_msg_handler msg d = Inr ?d"
    using Cons.prems(1,3) t by (simp add: msg into_array_def)
  with Cons.IH[of ?d "err @ NL # t"] Cons.prems msg show ?case by (simp cong: if_cong)
qed

text \<open>
  What db-library does for a query on the process \<open>p\<close>: it goes to the database, executes the text,
  and gives the result sets \<open>qs\<close>; the messages it has fit the buffers.
\<close>

definition sql_server_runs ::
    "'l dblib \<Rightarrow> string \<Rightarrow> nat \<Rightarrow> string \<Rightarrow> string \<Rightarrow> 'l mssql_state \<Rightarrow> sql_set list \<Rightarrow> bool" where
  "sql_server_runs lib stale p database q d qs \<longleftrightarrow>
     (\<exists>ok ms1 l1 d1 ms2 l2 d2 l3. dbuse lib p database (m_lib d) = (ok, ms1, l1) \<and>
        handle_messages ms1 (d\<lparr>m_lib := l1\<rparr>) = Inr d1 \<and>
        dbsqlexec lib p (dbcmd lib p (Some q) l1) = (True, ms2, l2) \<and>
        handle_messages ms2 (d1\<lparr>m_lib := l2\<rparr>) = Inr d2 \<and> lib_sets lib p l2 qs l3) \<and>
     list_all set_fits (map (shown_set stale) qs) \<and>
     list_all (\<lambda>q. length (q_columns q) \<le> MSSQL_MAX_COLUMNS) qs"

text \<open>Such a query leaves the driver with the result sets, ready to be fetched.\<close>

lemma change_db_ready:
  assumes "m_ready a p d" "dbuse lib p database (m_lib d) = (ok, ms, l)" "handle_messages ms (d\<lparr>m_lib := l\<rparr>) = Inr d1"
    and "\<not> flag_set fl DBRELAY_FLAG_XACT"
  shows "query_sent (dbrelay_mssql_api lib stale) (Some a) database q fl d = dbrelay_mssql_exec lib (Some a) (Some q) d1"
    and "m_ready a p d1" "m_lib d1 = l"
proof -
  show "m_ready a p d1" "m_lib d1 = l"
    using handled_ready[OF assms(1,3)] handle_messages_keeps[OF assms(3)] by simp_all
  show "query_sent (dbrelay_mssql_api lib stale) (Some a) database q fl d = dbrelay_mssql_exec lib (Some a) (Some q) d1"
    using assms m_proc_ready[OF assms(1)]
    by (simp add: query_sent_def before_query_def exec_if_def dbrelay_mssql_api_def dbrelay_mssql_change_db_def)
qed

lemma mssql_runs:
  assumes "m_ready a p d" "sql_server_runs lib stale p database q d qs" "\<not> flag_set fl DBRELAY_FLAG_XACT"
  shows "\<exists>d2. query_sent (dbrelay_mssql_api lib stale) (Some a) database q fl d = Inr (True, d2) \<and>
    m_holds lib stale a p d2 (map (shown_set stale) qs)"
proof -
  from assms(2) obtain ok ms1 l1 d1 ms2 l2 d2 l3 where r:
    "dbuse lib p database (m_lib d) = (ok, ms1, l1)" "handle_messages ms1 (d\<lparr>m_lib := l1\<rparr>) = Inr d1"
    "dbsqlexec lib p (dbcmd lib p (Some q) l1) = (True, ms2, l2)"
    "handle_messages ms2 (d1\<lparr>m_lib := l2\<rparr>) = Inr d2" "lib_sets lib p l2 qs l3"
    "list_all set_fits (map (shown_set stale) qs)"
    "list_all (\<lambda>q. length (q_columns q) \<le> MSSQL_MAX_COLUMNS) qs"
    unfolding sql_server_runs_def by blast
  note c = change_db_ready[OF assms(1) r(1,2) assms(3)]
  have "dbrelay_mssql_exec lib (Some a) (Some q) d1 = Inr (True, d2)"
    using r(3,4) c(3) m_proc_ready[OF c(2)] by (simp add: dbrelay_mssql_exec_def)
  moreover have "list_all set_bound qs" using r(6,7) set_fits_bound by (auto simp: list_all_iff)
  moreover have "m_ready a p d2" "m_lib d2 = l2"
    using handled_ready[OF c(2) r(4)] handle_messages_keeps[OF r(4)] by simp_all
  ultimately show ?thesis using c(1) r(5) by (auto simp: m_holds_def)
qed

lemma m_ready_connected: "m_ready a p d \<Longrightarrow> api_connected (dbrelay_mssql_api lib stale) (Some a) d = Inr True"
  by (auto simp: m_ready_def dbrelay_mssql_api_def dbrelay_mssql_connected_def m_deref_def)

subsection \<open>Logging in and out\<close>

definition login_of :: "dbrelay_request \<Rightarrow> sql_login" where
  "login_of r = \<lparr>login_password = (if IS_SET (sql_password r) then Some (sql_password r) else None),
     login_port = sql_port r, login_user = sql_user r,
     login_app = ''dbrelay ('' @ take 18 (if connection_name r \<noteq> [] then connection_name r
       else remote_addr r) @ '')''\<rparr>"

text \<open>The name the driver gives the server for the application never runs over its array: it has at
  most 18 bytes of the connection's name or of the client's address, between parentheses.
\<close>

lemma app_name_fits: "app_name r = Inr (login_app (login_of r))"
  by (simp add: app_name_def strncat_def into_array_def APP_SZ_def login_of_def Let_def)

lemma mssql_connect_login:
  "dbrelay_mssql_connect lib r d =
     (case dbopen lib (login_of r) (sql_server r) (m_lib d) of (proc, msgs, l) \<Rightarrow>
        rbind (handle_messages msgs (d\<lparr>m_lib := l\<rparr>)) (\<lambda>d.
          case proc of
            None \<Rightarrow> Inr (None, d)
          | Some p \<Rightarrow> Inr (Some (m_next d), (m_put (Some (m_next d))
                \<lparr>login = login_of r, dbproc = Some p, colval = replicate MSSQL_MAX_COLUMNS None,
                 colnull = replicate MSSQL_MAX_COLUMNS 0\<rparr> d)
                \<lparr>m_next := m_next d + 1, m_user := (m_user d)(p \<mapsto> error_message r)\<rparr>)))"
proof -
  have "\<lparr>login_password = (if IS_SET (sql_password r) then Some (sql_password r) else None),
      login_port = sql_port r, login_user = sql_user r, login_app = login_app (login_of r)\<rparr> = login_of r"
    by (simp add: login_of_def)
  then show ?thesis by (simp only: dbrelay_mssql_connect_def app_name_fits rbind.simps Let_def)
qed

text \<open>A login that db-library accepts gives a connection in order, with the request assigned to it.\<close>

lemma mssql_connects:
  assumes "dbopen lib (login_of r) (sql_server r) (m_lib d) = (Some p, ms, l)"
    and "handle_messages ms (d\<lparr>m_lib := l\<rparr>) = Inr d'"
  obtains d1 where "dbrelay_mssql_connect lib r d = Inr (Some (m_next d), d1)" "m_ready (m_next d) p d1"
    "m_user d1 p = Some (error_message r)" "m_lib d1 = l"
    "\<And>b. b \<noteq> m_next d \<Longrightarrow> m_structs d1 b = m_structs d b"
proof -
  let ?s = "\<lparr>login = login_of r, dbproc = Some p, colval = replicate MSSQL_MAX_COLUMNS None,
    colnull = replicate MSSQL_MAX_COLUMNS 0\<rparr>"
  let ?d = "(m_put (Some (m_next d)) ?s d')\<lparr>m_next := m_next d + 1,
    m_user := (m_user d')(p \<mapsto> error_message r)\<rparr>"
  have k: "m_lib d' = l" "m_structs d' = m_structs d" "m_next d' = m_next d"
    using handle_messages_keeps[OF assms(2)] by simp_all
  have "dbrelay_mssql_connect lib r d = Inr (Some (m_next d), ?d)"
    using assms k(3) by (simp add: mssql_connect_login)
  moreover have "m_ready (m_next d) p ?d" by (simp add: m_ready_def m_put_def)
  ultimately show thesis using that[of ?d] k by (simp add: m_put_def)
qed

text \<open>A login that it refuses leaves its last message as the error of the login.\<close>

lemma mssql_refuses_login:
  assumes "dbopen lib (login_of r) (sql_server r) (m_lib d) = (None, ms, l)"
    and "handle_messages ms (d\<lparr>m_lib := l\<rparr>) = Inr d1"
  shows "dbrelay_mssql_connect lib r d = Inr (None, d1)"
    and "api_error (dbrelay_mssql_api lib stale) None d1 = Inr (m_login_error d1)"
proof -
  show "dbrelay_mssql_connect lib r d = Inr (None, d1)"
    using assms by (simp add: mssql_connect_login)
  show "api_error (dbrelay_mssql_api lib stale) None d1 = Inr (m_login_error d1)"
    by (simp add: dbrelay_mssql_api_def dbrelay_mssql_error_def)
qed

text \<open>Letting a handle go takes the request from its process, closes the process, and frees the structure.\<close>

lemma mssql_closes:
  assumes "m_ready a p d"
  shows "\<exists>d1 d2. dbrelay_mssql_assign_request (Some a) None d = Inr d1 \<and> dbrelay_mssql_close lib (Some a) d1 = Inr d2 \<and>
    m_structs d2 = (m_structs d)(a := None) \<and> m_user d2 = (m_user d)(p := None) \<and> m_lib d2 = dbclose lib p (m_lib d)"
proof -
  let ?d = "d\<lparr>m_user := (m_user d)(p := None)\<rparr>"
  have "dbrelay_mssql_assign_request (Some a) None d = Inr ?d"
    using m_proc_ready[OF assms] by (simp add: dbrelay_mssql_assign_request_def)
  moreover obtain s where "m_structs d a = Some s" "dbproc s = Some p" using assms by (auto simp: m_ready_def)
  then have "\<exists>d2. dbrelay_mssql_close lib (Some a) ?d = Inr d2 \<and> m_structs d2 = (m_structs d)(a := None) \<and>
      m_user d2 = (m_user d)(p := None) \<and> m_lib d2 = dbclose lib p (m_lib d)"
    by (simp add: dbrelay_mssql_close_def m_deref_def m_put_def dbrelay_mssql_free_results_def Let_def)
  ultimately show ?thesis by blast
qed

subsection \<open>Queries\<close>

text \<open>
  When the server refuses a statement, the error the driver reports is what the request held before
  and then every message of the server in its order, each on a line of its own, as long as they
  fit the array of the request; the three messages that only tell of a changed context are left out.
\<close>

lemma mssql_error_text:
  assumes "m_ready a p d" "m_user d p = Some err"
    and "dbsqlexec lib p (dbcmd lib p (Some q) (m_lib d)) = (False, ms, l)"
    and "\<forall>(h0, no, t)\<in>set ms. h0 = Some p \<and> no \<notin> {5701, 5703, 5704} \<and> t \<noteq> []"
    and "length (err @ concat (map (\<lambda>(h0, no, t). NL # t) ms)) < ERROR_MESSAGE_SZ"
  shows "\<exists>d1. dbrelay_mssql_exec lib (Some a) (Some q) d = Inr (False, d1) \<and> m_ready a p d1 \<and>
    api_error (dbrelay_mssql_api lib stale) (Some a) d1 = Inr (err @ concat (map (\<lambda>(h0, no, t). NL # t) ms))"
proof -
  let ?e = "err @ concat (map (\<lambda>(h0, no, t). NL # t) ms)"
  let ?d = "d\<lparr>m_lib := l, m_user := (m_user d)(p \<mapsto> ?e)\<rparr>"
  have "handle_messages ms (d\<lparr>m_lib := l\<rparr>) = Inr ?d"
    using handle_all[of "d\<lparr>m_lib := l\<rparr>" p err ms] assms(2,4,5) by simp
  then have "dbrelay_mssql_exec lib (Some a) (Some q) d = Inr (False, ?d)"
    using assms(3) m_proc_ready[OF assms(1)] by (simp add: dbrelay_mssql_exec_def)
  moreover obtain s where "m_structs d a = Some s" "dbproc s = Some p"
    using assms(1) by (auto simp: m_ready_def)
  then have "dbrelay_mssql_error (Some a) ?d = Inr (Some ?e)"
    by (simp add: dbrelay_mssql_error_def m_deref_def)
  moreover have "m_ready a p ?d" using assms(1) by (simp add: m_ready_def)
  ultimately show ?thesis by (simp add: dbrelay_mssql_api_def)
qed

text \<open>
  The server refuses the query. The text \<open>e\<close> is what the request held when the query was sent (a
  message from going to the database can be in it), and the messages for the query, each on a line
  of its own.
\<close>

definition sql_server_refuses ::
    "'l dblib \<Rightarrow> nat \<Rightarrow> string \<Rightarrow> string \<Rightarrow> 'l mssql_state \<Rightarrow> dbmessage list \<Rightarrow> string \<Rightarrow> bool" where
  "sql_server_refuses lib p database q d ms e \<longleftrightarrow>
     (\<exists>ok ms1 l1 d1 err l2. dbuse lib p database (m_lib d) = (ok, ms1, l1) \<and>
        handle_messages ms1 (d\<lparr>m_lib := l1\<rparr>) = Inr d1 \<and> m_user d1 p = Some err \<and>
        dbsqlexec lib p (dbcmd lib p (Some q) l1) = (False, ms, l2) \<and>
        e = err @ concat (map (\<lambda>(h0, no, t). NL # t) ms)) \<and>
     (\<forall>(h0, no, t)\<in>set ms. h0 = Some p \<and> no \<notin> {5701, 5703, 5704} \<and> t \<noteq> []) \<and>
     length e < ERROR_MESSAGE_SZ"

lemma sql_server_refusal:
  assumes "m_ready a p d" "sql_server_refuses lib p database q d ms e" "\<not> flag_set fl DBRELAY_FLAG_XACT"
  shows "\<exists>d1. query_sent (dbrelay_mssql_api lib stale) (Some a) database q fl d = Inr (False, d1) \<and>
    m_ready a p d1 \<and> api_error (dbrelay_mssql_api lib stale) (Some a) d1 = Inr e"
proof -
  from assms(2) obtain ok ms1 l1 d1 err l2 where r:
    "dbuse lib p database (m_lib d) = (ok, ms1, l1)" "handle_messages ms1 (d\<lparr>m_lib := l1\<rparr>) = Inr d1"
    "m_user d1 p = Some err" "dbsqlexec lib p (dbcmd lib p (Some q) l1) = (False, ms, l2)"
    "e = err @ concat (map (\<lambda>(h0, no, t). NL # t) ms)"
    "\<forall>(h0, no, t)\<in>set ms. h0 = Some p \<and> no \<notin> {5701, 5703, 5704} \<and> t \<noteq> []" "length e < ERROR_MESSAGE_SZ"
    unfolding sql_server_refuses_def by blast
  note c = change_db_ready[OF assms(1) r(1,2) assms(3)]
  from mssql_error_text[OF c(2) r(3) r(4)[folded c(3)] r(6) r(7)[unfolded r(5)], of stale] c(1) r(5)
  show ?thesis by simp
qed

text \<open>The driver serves queries: with the result sets db-library gives, or with the messages it has.\<close>

interpretation mssql: serving "dbrelay_mssql_api lib stale" a "m_holds lib stale a p" "m_in_set lib stale a p"
  "m_ready a p" "\<lambda>database q d ss. \<exists>qs. sql_server_runs lib stale p database q d qs \<and> ss = map (shown_set stale) qs"
  "\<lambda>database q d e. \<exists>ms. sql_server_refuses lib p database q d ms e"
  "\<lambda>d. m_structs d a = None \<and> (\<exists>l. m_lib d = dbclose lib p l)" for lib stale a p
proof (unfold_locales, unfold m_calls)
  fix database q d ss fl
  assume "m_ready a p d" "\<exists>qs. sql_server_runs lib stale p database q d qs \<and> ss = map (shown_set stale) qs"
    "\<not> flag_set fl DBRELAY_FLAG_XACT"
  then show "\<exists>d1. query_sent (dbrelay_mssql_api lib stale) (Some a) database q fl d = Inr (True, d1) \<and>
      m_holds lib stale a p d1 ss" using mssql_runs by blast
next
  fix database q d e fl
  assume "m_ready a p d" "\<exists>ms. sql_server_refuses lib p database q d ms e" "\<not> flag_set fl DBRELAY_FLAG_XACT"
  then show "\<exists>d1. query_sent (dbrelay_mssql_api lib stale) (Some a) database q fl d = Inr (False, d1) \<and>
      m_ready a p d1 \<and> api_error (dbrelay_mssql_api lib stale) (Some a) d1 = Inr e" using sql_server_refusal by blast
next
  fix d :: "'a mssql_state"
  assume "m_ready a p d"
  then show "\<exists>d1. let_go (dbrelay_mssql_api lib stale) (Some a) d = Inr d1 \<and>
      (m_structs d1 a = None \<and> (\<exists>l. m_lib d1 = dbclose lib p l))"
    using mssql_closes[of a p d lib] by (auto simp: let_go_def dbrelay_mssql_api_def)
qed (rule m_next_set m_last_set m_next_row m_last_row m_ready_connected; assumption |
  auto simp: sql_server_runs_def)+

subsection \<open>Samples\<close>

text \<open>A library whose state is the result sets still to come, the rest of the current one, and its columns.\<close>

type_synonym tape = "sql_set list \<times> sql_set"

definition tape_column :: "tape \<Rightarrow> nat \<Rightarrow> sql_column" where
  "tape_column l i = q_columns (snd l) ! (i - 1)"

definition tape_lib :: "bool \<Rightarrow> dbmessage list \<Rightarrow> tape dblib" where
  "tape_lib ok ms = \<lparr>
     dbopen = (\<lambda>lg s l. (Some 3, [], l)),
     dbuse = (\<lambda>p n l. (True, [(Some p, 5701, ''context'')], l)),
     dbcmd = (\<lambda>p q l. l),
     dbsqlexec = (\<lambda>p l. (ok, ms, l)),
     dbresults = (\<lambda>p l. case l of ([], s) \<Rightarrow> (NO_MORE_RESULTS, [], l) | (s # ss, s0) \<Rightarrow> (SUCCEED, [], (ss, s))),
     dbnextrow = (\<lambda>p (ss, s). case q_rows s of [] \<Rightarrow> (NO_MORE_ROWS, [], (ss, s))
        | vs # vss \<Rightarrow> (Reg_Row vs, [], (ss, s\<lparr>q_rows := vss\<rparr>))),
     dbcount = (\<lambda>p l. q_count (snd l)),
     dbnumcols = (\<lambda>p l. int (length (q_columns (snd l)))),
     dbcolname = (\<lambda>p i l. q_name (tape_column l i)),
     dbcoltype = (\<lambda>p i l. q_type (tape_column l i)),
     dbcollen = (\<lambda>p i l. q_len (tape_column l i)),
     dbcoltypeinfo = (\<lambda>p i l. (q_prec (tape_column l i), q_scale (tape_column l i))),
     dbdead = (\<lambda>p l. False),
     dbclose = (\<lambda>p l. l)\<rparr>"

definition sample_sql_set :: sql_set where
  "sample_sql_set = \<lparr>q_columns = [\<lparr>q_name = Some ''n'', q_type = SYBDECIMAL, q_len = 9, q_prec = 5, q_scale = 2\<rparr>,
       \<lparr>q_name = Some ''t'', q_type = SYBVARCHAR, q_len = 20, q_prec = 0, q_scale = 0\<rparr>],
     q_rows = [[Some ''1.50'', Some ''x''], [None, Some ''y'']], q_count = 2\<rparr>"

definition sample_mssql :: "tape mssql_state" where
  "sample_mssql = \<lparr>m_lib = ([sample_sql_set], \<lparr>q_columns = [], q_rows = [], q_count = 0\<rparr>),
     m_structs = [0 \<mapsto> \<lparr>login = \<lparr>login_password = None, login_port = [], login_user = [], login_app = []\<rparr>,
       dbproc = Some 3, colval = replicate 256 None, colnull = replicate 256 0\<rparr>],
     m_next = 1, m_user = [3 \<mapsto> []], m_login_error = [], m_login_msgno = 0\<rparr>"

lemma sample_mssql_ready: "m_ready 0 3 sample_mssql"
  by (simp add: m_ready_def sample_mssql_def MSSQL_MAX_COLUMNS_def)

lemma sample_lib_sets:
  "lib_sets (tape_lib ok ms) 3 ([sample_sql_set], s) [sample_sql_set] ([], sample_sql_set\<lparr>q_rows := []\<rparr>)"
  by (simp add: tape_lib_def sample_sql_set_def lib_describes_def tape_column_def less_Suc_eq)

lemma sample_sql_fits: "set_fits (shown_set stale sample_sql_set)"
  by (simp add: set_fits_def shown_set_def sample_sql_set_def shown_column_def number_column_def
      dbrelay_is_unnamed_column_def value_fits_def Let_def)

lemma tape_calls:
  "dbuse (tape_lib ok ms) p n l = (True, [(Some p, 5701, ''context'')], l)"
  "dbsqlexec (tape_lib ok ms) p l = (ok, ms, l)" "dbcmd (tape_lib ok ms) p t l = l"
  "dbopen (tape_lib ok ms) lg n l = (Some 3, [], l)" "dbclose (tape_lib ok ms) p l = l"
  by (simp_all add: tape_lib_def)

lemma tape_runs:
  assumes "m_lib d = ([sample_sql_set], s)"
  shows "sql_server_runs (tape_lib True []) [] 3 database q d [sample_sql_set]"
proof -
  have "lib_sets (tape_lib True []) 3 (m_lib d) [sample_sql_set] ([], sample_sql_set\<lparr>q_rows := []\<rparr>)"
    unfolding assms by (rule sample_lib_sets)
  then show ?thesis
    unfolding sql_server_runs_def tape_calls
    using sample_sql_fits[of "[]"]
    by (auto simp: sample_sql_set_def MSSQL_MAX_COLUMNS_def intro!: exI)
qed

end
