(* ===== verification/Mysql.thy ===== *)
theory Mysql
  imports Serving Connector
begin

section \<open>The MySQL driver (src/mysql.c)\<close>

text \<open>
  The driver over the MySQL client library, a record \<open>'l mysqllib\<close> of its functions on a state
  \<open>'l\<close> that stands for library and server. A handle is a structure with the connection, the
  result that was fetched last and its current row. The member \<^verbatim>\<open>field\<close> only holds what the
  call before it wrote, so the field is passed on directly. Lengths are \<^verbatim>\<open>unsigned long\<close>
  in the library and \<^verbatim>\<open>int\<close> in the driver.
\<close>

datatype mysql_type =
    MYSQL_TYPE_DECIMAL | MYSQL_TYPE_TINY | MYSQL_TYPE_SHORT | MYSQL_TYPE_LONG | MYSQL_TYPE_FLOAT
  | MYSQL_TYPE_DOUBLE | MYSQL_TYPE_NULL | MYSQL_TYPE_TIMESTAMP | MYSQL_TYPE_LONGLONG
  | MYSQL_TYPE_INT24 | MYSQL_TYPE_DATE | MYSQL_TYPE_TIME | MYSQL_TYPE_DATETIME | MYSQL_TYPE_YEAR
  | MYSQL_TYPE_NEWDATE | MYSQL_TYPE_VARCHAR | MYSQL_TYPE_BIT | MYSQL_TYPE_NEWDECIMAL
  | MYSQL_TYPE_ENUM | MYSQL_TYPE_SET | MYSQL_TYPE_TINY_BLOB | MYSQL_TYPE_MEDIUM_BLOB
  | MYSQL_TYPE_LONG_BLOB | MYSQL_TYPE_BLOB | MYSQL_TYPE_VAR_STRING | MYSQL_TYPE_STRING
  | MYSQL_TYPE_GEOMETRY | Other_Mysql_Type int

definition is_quoted_mysql_type :: "mysql_type \<Rightarrow> bool" where
  "is_quoted_mysql_type c \<longleftrightarrow> c \<in> {MYSQL_TYPE_VARCHAR, MYSQL_TYPE_VAR_STRING, MYSQL_TYPE_DATE,
     MYSQL_TYPE_TIME, MYSQL_TYPE_DATETIME, MYSQL_TYPE_BLOB, MYSQL_TYPE_STRING, MYSQL_TYPE_LONG_BLOB,
     MYSQL_TYPE_TINY_BLOB, MYSQL_TYPE_NEWDATE, MYSQL_TYPE_MEDIUM_BLOB}"

fun dbrelay_mysql_get_sqltype_string :: "string \<Rightarrow> mysql_type \<Rightarrow> string" where
  "dbrelay_mysql_get_sqltype_string dest MYSQL_TYPE_VARCHAR = ''varchar''"
| "dbrelay_mysql_get_sqltype_string dest MYSQL_TYPE_STRING = ''varchar''"
| "dbrelay_mysql_get_sqltype_string dest MYSQL_TYPE_VAR_STRING = ''varchar''"
| "dbrelay_mysql_get_sqltype_string dest MYSQL_TYPE_BLOB = ''blob''"
| "dbrelay_mysql_get_sqltype_string dest MYSQL_TYPE_LONG_BLOB = ''blob''"
| "dbrelay_mysql_get_sqltype_string dest MYSQL_TYPE_TINY_BLOB = ''blob''"
| "dbrelay_mysql_get_sqltype_string dest MYSQL_TYPE_MEDIUM_BLOB = ''blob''"
| "dbrelay_mysql_get_sqltype_string dest MYSQL_TYPE_DATE = ''date''"
| "dbrelay_mysql_get_sqltype_string dest MYSQL_TYPE_NEWDATE = ''date''"
| "dbrelay_mysql_get_sqltype_string dest MYSQL_TYPE_TIME = ''time''"
| "dbrelay_mysql_get_sqltype_string dest MYSQL_TYPE_DATETIME = ''datetime''"
| "dbrelay_mysql_get_sqltype_string dest MYSQL_TYPE_DECIMAL = ''decimal''"
| "dbrelay_mysql_get_sqltype_string dest MYSQL_TYPE_NEWDECIMAL = ''decimal''"
| "dbrelay_mysql_get_sqltype_string dest MYSQL_TYPE_TINY = ''tinyint''"
| "dbrelay_mysql_get_sqltype_string dest MYSQL_TYPE_SHORT = ''shortint''"
| "dbrelay_mysql_get_sqltype_string dest MYSQL_TYPE_LONG = ''longint''"
| "dbrelay_mysql_get_sqltype_string dest MYSQL_TYPE_FLOAT = ''float''"
| "dbrelay_mysql_get_sqltype_string dest MYSQL_TYPE_DOUBLE = ''double''"
| "dbrelay_mysql_get_sqltype_string dest MYSQL_TYPE_NULL = ''null''"
| "dbrelay_mysql_get_sqltype_string dest MYSQL_TYPE_TIMESTAMP = ''timestamp''"
| "dbrelay_mysql_get_sqltype_string dest MYSQL_TYPE_LONGLONG = ''longlong''"
| "dbrelay_mysql_get_sqltype_string dest MYSQL_TYPE_INT24 = ''int24''"
| "dbrelay_mysql_get_sqltype_string dest MYSQL_TYPE_YEAR = ''year''"
| "dbrelay_mysql_get_sqltype_string dest MYSQL_TYPE_BIT = ''bit''"
| "dbrelay_mysql_get_sqltype_string dest MYSQL_TYPE_ENUM = ''enum''"
| "dbrelay_mysql_get_sqltype_string dest MYSQL_TYPE_SET = ''enum''"
| "dbrelay_mysql_get_sqltype_string dest MYSQL_TYPE_GEOMETRY = ''geometry''"
| "dbrelay_mysql_get_sqltype_string dest (Other_Mysql_Type c) = dest"

subsection \<open>The library and the structures\<close>

record mysql_field =
  f_name :: string
  f_type :: mysql_type
  f_length :: nat
  f_max_length :: nat
  f_decimals :: nat

record 'l mysqllib =
  lib_init :: "'l \<Rightarrow> bool \<times> 'l"
  lib_real_connect :: "nat \<Rightarrow> string \<Rightarrow> string \<Rightarrow> string option \<Rightarrow> 'l \<Rightarrow> bool \<times> 'l"
  lib_close :: "nat \<Rightarrow> 'l \<Rightarrow> 'l"
  lib_select_db :: "nat \<Rightarrow> string \<Rightarrow> 'l \<Rightarrow> int \<times> 'l"
  lib_real_query :: "nat \<Rightarrow> string \<Rightarrow> 'l \<Rightarrow> int \<times> 'l"
  lib_affected_rows :: "nat \<Rightarrow> 'l \<Rightarrow> nat"
  lib_store_result :: "nat \<Rightarrow> 'l \<Rightarrow> nat option \<times> 'l"
  lib_num_fields :: "nat \<Rightarrow> 'l \<Rightarrow> nat"
  lib_fetch_field_direct :: "nat \<Rightarrow> nat \<Rightarrow> 'l \<Rightarrow> mysql_field"
  lib_fetch_row :: "nat \<Rightarrow> 'l \<Rightarrow> string option list option \<times> 'l"
  lib_error :: "nat \<Rightarrow> 'l \<Rightarrow> string"
  lib_ping :: "nat \<Rightarrow> 'l \<Rightarrow> int"

record mysql_db =
  mysql :: nat
  result :: "nat option"
  cur_row :: "string option list option"

text \<open>A pointer that was not set yet counts as a null pointer.\<close>

record 'l mysql_state =
  y_lib :: 'l
  y_structs :: "nat \<Rightarrow> mysql_db option"
  y_next :: nat

definition y_deref :: "handle \<Rightarrow> 'l mysql_state \<Rightarrow> mysql_db result" where
  "y_deref h d =
     (case h of
        None \<Rightarrow> Inl Null_Deref
      | Some a \<Rightarrow> (case y_structs d a of None \<Rightarrow> Inl Out_Of_Bounds | Some s \<Rightarrow> Inr s))"

definition y_result :: "handle \<Rightarrow> 'l mysql_state \<Rightarrow> nat result" where
  "y_result h d = rbind (y_deref h d) (\<lambda>s. case result s of None \<Rightarrow> Inl Null_Deref | Some r \<Rightarrow> Inr r)"

definition y_put :: "handle \<Rightarrow> mysql_db \<Rightarrow> 'l mysql_state \<Rightarrow> 'l mysql_state" where
  "y_put h s d = d\<lparr>y_structs := (y_structs d)(the h \<mapsto> s)\<rparr>"

text \<open>An \<^verbatim>\<open>unsigned long\<close> or \<^verbatim>\<open>unsigned int\<close> returned as an \<^verbatim>\<open>int\<close>.\<close>

definition as_int :: "nat \<Rightarrow> int" where
  "as_int n = sint (word_of_nat n :: 32 word)"

subsection \<open>The functions of the driver\<close>

definition dbrelay_mysql_connect ::
    "'l mysqllib \<Rightarrow> dbrelay_request \<Rightarrow> 'l mysql_state \<Rightarrow> handle \<times> 'l mysql_state" where
  "dbrelay_mysql_connect lib r d =
     (let a = y_next d;
          d = d\<lparr>y_next := a + 1\<rparr>;
          (ok, l) = lib_init lib (y_lib d);
          d = d\<lparr>y_lib := l\<rparr>
      in if \<not> ok then (None, d)
         else
           let (ok, l) = lib_real_connect lib a (sql_server r) (sql_user r)
                 (if IS_SET (sql_password r) then Some (sql_password r) else None) (y_lib d);
               d = d\<lparr>y_lib := l\<rparr>
           in if \<not> ok then (None, d)
              else (Some a, y_put (Some a) \<lparr>mysql = a, result = None, cur_row = None\<rparr> d))"

definition dbrelay_mysql_close ::
    "'l mysqllib \<Rightarrow> handle \<Rightarrow> 'l mysql_state \<Rightarrow> 'l mysql_state result" where
  "dbrelay_mysql_close lib h d =
     rbind (y_deref h d) (\<lambda>s. Inr (d\<lparr>y_lib := lib_close lib (mysql s) (y_lib d)\<rparr>))"

definition dbrelay_mysql_assign_request ::
    "handle \<Rightarrow> dbrelay_request option \<Rightarrow> 'l mysql_state \<Rightarrow> 'l mysql_state result" where
  "dbrelay_mysql_assign_request h r d = Inr d"

definition dbrelay_mysql_connected :: "handle \<Rightarrow> 'l mysql_state \<Rightarrow> bool result" where
  "dbrelay_mysql_connected h d =
     (case h of None \<Rightarrow> Inr False | Some a \<Rightarrow> rbind (y_deref h d) (\<lambda>s. Inr True))"

definition dbrelay_mysql_change_db ::
    "'l mysqllib \<Rightarrow> handle \<Rightarrow> string \<Rightarrow> 'l mysql_state \<Rightarrow> (bool \<times> 'l mysql_state) result" where
  "dbrelay_mysql_change_db lib h database d =
     rbind (y_deref h d) (\<lambda>s.
       let (rc, l) = lib_select_db lib (mysql s) database (y_lib d)
       in Inr (rc = 0, d\<lparr>y_lib := l\<rparr>))"

definition dbrelay_mysql_exec ::
    "'l mysqllib \<Rightarrow> handle \<Rightarrow> string option \<Rightarrow> 'l mysql_state \<Rightarrow> (bool \<times> 'l mysql_state) result" where
  "dbrelay_mysql_exec lib h q d =
     rbind (y_deref h d) (\<lambda>s.
       case q of
         None \<Rightarrow> Inl Null_Deref
       | Some q \<Rightarrow>
           let (rc, l) = lib_real_query lib (mysql s) q (y_lib d)
           in Inr (rc = 0, d\<lparr>y_lib := l\<rparr>))"

definition dbrelay_mysql_rowcount :: "'l mysqllib \<Rightarrow> handle \<Rightarrow> 'l mysql_state \<Rightarrow> int result" where
  "dbrelay_mysql_rowcount lib h d =
     rbind (y_deref h d) (\<lambda>s. Inr (as_int (lib_affected_rows lib (mysql s) (y_lib d))))"

definition dbrelay_mysql_has_results ::
    "'l mysqllib \<Rightarrow> handle \<Rightarrow> 'l mysql_state \<Rightarrow> (bool \<times> 'l mysql_state) result" where
  "dbrelay_mysql_has_results lib h d =
     rbind (y_deref h d) (\<lambda>s.
       let (r, l) = lib_store_result lib (mysql s) (y_lib d)
       in Inr (r \<noteq> None, y_put h (s\<lparr>result := r\<rparr>) (d\<lparr>y_lib := l\<rparr>)))"

definition dbrelay_mysql_numcols :: "'l mysqllib \<Rightarrow> handle \<Rightarrow> 'l mysql_state \<Rightarrow> int result" where
  "dbrelay_mysql_numcols lib h d = rbind (y_result h d) (\<lambda>r. Inr (as_int (lib_num_fields lib r (y_lib d))))"

definition y_field :: "'l mysqllib \<Rightarrow> handle \<Rightarrow> nat \<Rightarrow> 'l mysql_state \<Rightarrow> mysql_field result" where
  "y_field lib h n d = rbind (y_result h d) (\<lambda>r. Inr (lib_fetch_field_direct lib r (n - 1) (y_lib d)))"

definition dbrelay_mysql_colname :: "'l mysqllib \<Rightarrow> handle \<Rightarrow> nat \<Rightarrow> 'l mysql_state \<Rightarrow> string option result" where
  "dbrelay_mysql_colname lib h n d = rbind (y_field lib h n d) (\<lambda>f. Inr (Some (f_name f)))"

definition dbrelay_mysql_coltype :: "'l mysqllib \<Rightarrow> string \<Rightarrow> handle \<Rightarrow> nat \<Rightarrow> 'l mysql_state \<Rightarrow> string result" where
  "dbrelay_mysql_coltype lib dest h n d =
     rbind (y_field lib h n d) (\<lambda>f. Inr (dbrelay_mysql_get_sqltype_string dest (f_type f)))"

definition dbrelay_mysql_collen :: "'l mysqllib \<Rightarrow> handle \<Rightarrow> nat \<Rightarrow> 'l mysql_state \<Rightarrow> int result" where
  "dbrelay_mysql_collen lib h n d = rbind (y_field lib h n d) (\<lambda>f. Inr (as_int (f_length f)))"

definition dbrelay_mysql_colprec :: "'l mysqllib \<Rightarrow> handle \<Rightarrow> nat \<Rightarrow> 'l mysql_state \<Rightarrow> int result" where
  "dbrelay_mysql_colprec lib h n d = rbind (y_field lib h n d) (\<lambda>f. Inr (as_int (f_max_length f)))"

definition dbrelay_mysql_colscale :: "'l mysqllib \<Rightarrow> handle \<Rightarrow> nat \<Rightarrow> 'l mysql_state \<Rightarrow> int result" where
  "dbrelay_mysql_colscale lib h n d = rbind (y_field lib h n d) (\<lambda>f. Inr (as_int (f_decimals f)))"

definition dbrelay_mysql_is_quoted :: "'l mysqllib \<Rightarrow> handle \<Rightarrow> nat \<Rightarrow> 'l mysql_state \<Rightarrow> bool result" where
  "dbrelay_mysql_is_quoted lib h n d = rbind (y_field lib h n d) (\<lambda>f. Inr (is_quoted_mysql_type (f_type f)))"

definition dbrelay_mysql_fetch_row ::
    "'l mysqllib \<Rightarrow> handle \<Rightarrow> 'l mysql_state \<Rightarrow> (bool \<times> 'l mysql_state) result" where
  "dbrelay_mysql_fetch_row lib h d =
     rbind (y_deref h d) (\<lambda>s. rbind (y_result h d) (\<lambda>r.
       let (row, l) = lib_fetch_row lib r (y_lib d)
       in Inr (row \<noteq> None, y_put h (s\<lparr>cur_row := row\<rparr>) (d\<lparr>y_lib := l\<rparr>))))"

definition dbrelay_mysql_colvalue :: "handle \<Rightarrow> nat \<Rightarrow> 'l mysql_state \<Rightarrow> string option result" where
  "dbrelay_mysql_colvalue h n d =
     rbind (y_deref h d) (\<lambda>s.
       case cur_row s of
         None \<Rightarrow> Inl Null_Deref
       | Some vs \<Rightarrow> if n - 1 < length vs then Inr (vs ! (n - 1)) else Inl Out_Of_Bounds)"

definition dbrelay_mysql_error :: "'l mysqllib \<Rightarrow> handle \<Rightarrow> 'l mysql_state \<Rightarrow> string result" where
  "dbrelay_mysql_error lib h d = rbind (y_deref h d) (\<lambda>s. Inr (lib_error lib (mysql s) (y_lib d)))"

definition dbrelay_mysql_catalogsql :: "nat \<Rightarrow> string option list \<Rightarrow> string option" where
  "dbrelay_mysql_catalogsql c ps =
     (if c = DBRELAY_DBCMD_BEGIN then Some ''BEGIN TRAN''
      else if c = DBRELAY_DBCMD_COMMIT then Some ''COMMIT TRAN''
      else if c = DBRELAY_DBCMD_ROLLBACK then Some ''ROLLBACK TRAN''
      else None)"

text \<open>The answer of \<^verbatim>\<open>mysql_ping\<close> as it is: zero when the server is there.\<close>

definition dbrelay_mysql_isalive :: "'l mysqllib \<Rightarrow> handle \<Rightarrow> 'l mysql_state \<Rightarrow> int result" where
  "dbrelay_mysql_isalive lib h d = rbind (y_deref h d) (\<lambda>s. Inr (lib_ping lib (mysql s) (y_lib d)))"

definition dbrelay_mysql_api :: "'l mysqllib \<Rightarrow> string \<Rightarrow> 'l mysql_state dbapi" where
  "dbrelay_mysql_api lib stale = \<lparr>
     api_connected = dbrelay_mysql_connected,
     api_change_db = dbrelay_mysql_change_db lib,
     api_exec = dbrelay_mysql_exec lib,
     api_rowcount = dbrelay_mysql_rowcount lib,
     api_has_results = dbrelay_mysql_has_results lib,
     api_numcols = dbrelay_mysql_numcols lib,
     api_colname = dbrelay_mysql_colname lib,
     api_coltype = dbrelay_mysql_coltype lib stale,
     api_collen = dbrelay_mysql_collen lib,
     api_colprec = dbrelay_mysql_colprec lib,
     api_colscale = dbrelay_mysql_colscale lib,
     api_fetch_row = dbrelay_mysql_fetch_row lib,
     api_colvalue = dbrelay_mysql_colvalue,
     api_is_quoted = dbrelay_mysql_is_quoted lib,
     api_error = dbrelay_mysql_error lib,
     api_catalogsql = (\<lambda>c ps. Inr (dbrelay_mysql_catalogsql c ps)),
     api_isalive = (\<lambda>h d. rbind (dbrelay_mysql_isalive lib h d) (\<lambda>ret. Inr (ret \<noteq> 0))),
     api_connect = (\<lambda>r d. Inr (dbrelay_mysql_connect lib r d)),
     api_assign_request = dbrelay_mysql_assign_request,
     api_close = dbrelay_mysql_close lib\<rparr>"

subsection \<open>What the library promises\<close>

record mysql_set =
  y_fields :: "mysql_field list"
  y_rows :: "string option list list"
  y_count :: nat

definition y_describes :: "'l mysqllib \<Rightarrow> nat \<Rightarrow> 'l \<Rightarrow> mysql_field list \<Rightarrow> bool" where
  "y_describes lib r l fs \<longleftrightarrow> lib_num_fields lib r l = length fs \<and> length fs < 2 ^ 31 \<and>
     (\<forall>i<length fs. lib_fetch_field_direct lib r i l = fs ! i)"

fun y_lib_rows ::
    "'l mysqllib \<Rightarrow> nat \<Rightarrow> mysql_field list \<Rightarrow> 'l \<Rightarrow> string option list list \<Rightarrow> 'l \<Rightarrow> bool" where
  "y_lib_rows lib r fs l [] l' \<longleftrightarrow> lib_fetch_row lib r l = (None, l')"
| "y_lib_rows lib r fs l (vs # vss) l' \<longleftrightarrow> length vs = length fs \<and>
     (\<exists>l1. lib_fetch_row lib r l = (Some vs, l1) \<and> y_describes lib r l1 fs \<and> y_lib_rows lib r fs l1 vss l')"

text \<open>
  The results that successive calls of \<^verbatim>\<open>mysql_store_result\<close> give. The driver never calls
  \<^verbatim>\<open>mysql_next_result\<close>, so by the library's documentation there is at most one.
\<close>

fun y_lib_sets :: "'l mysqllib \<Rightarrow> nat \<Rightarrow> 'l \<Rightarrow> mysql_set list \<Rightarrow> 'l \<Rightarrow> bool" where
  "y_lib_sets lib m l [] l' \<longleftrightarrow> lib_store_result lib m l = (None, l')"
| "y_lib_sets lib m l (s # ss) l' \<longleftrightarrow>
     (\<exists>r l1 l2. lib_store_result lib m l = (Some r, l1) \<and> y_describes lib r l1 (y_fields s) \<and>
        y_lib_rows lib r (y_fields s) l1 (y_rows s) l2 \<and> lib_affected_rows lib m l2 = y_count s \<and>
        y_lib_sets lib m l2 ss l')"

definition y_shown_column :: "string \<Rightarrow> mysql_field \<Rightarrow> column" where
  "y_shown_column stale f =
     \<lparr>col_name = Some (f_name f), col_type = dbrelay_mysql_get_sqltype_string stale (f_type f),
      col_len = as_int (f_length f), col_prec = as_int (f_max_length f),
      col_scale = as_int (f_decimals f), col_quoted = is_quoted_mysql_type (f_type f)\<rparr>"

definition y_shown_set :: "string \<Rightarrow> mysql_set \<Rightarrow> result_set" where
  "y_shown_set stale s = \<lparr>columns = map (y_shown_column stale) (y_fields s), rows = y_rows s,
     row_count = as_int (y_count s)\<rparr>"

subsection \<open>The driver keeps its contract\<close>

definition y_ready :: "nat \<Rightarrow> nat \<Rightarrow> 'l mysql_state \<Rightarrow> bool" where
  "y_ready a m d \<longleftrightarrow> (\<exists>s. y_structs d a = Some s \<and> mysql s = m)"

definition y_holds :: "'l mysqllib \<Rightarrow> string \<Rightarrow> nat \<Rightarrow> nat \<Rightarrow> 'l mysql_state \<Rightarrow> result_set list \<Rightarrow> bool" where
  "y_holds lib stale a m d ss \<longleftrightarrow> y_ready a m d \<and>
     (\<exists>qs l. y_lib_sets lib m (y_lib d) qs l \<and> ss = map (y_shown_set stale) qs)"

definition y_in_set ::
    "'l mysqllib \<Rightarrow> string \<Rightarrow> nat \<Rightarrow> nat \<Rightarrow> 'l mysql_state \<Rightarrow> result_set \<Rightarrow> result_set list \<Rightarrow> bool" where
  "y_in_set lib stale a m d s ss \<longleftrightarrow> y_ready a m d \<and>
     (\<exists>q qs r l1 l2. s = y_shown_set stale q \<and> ss = map (y_shown_set stale) qs \<and>
        y_result (Some a) d = Inr r \<and> y_lib_rows lib r (y_fields q) (y_lib d) (y_rows q) l1 \<and>
        lib_affected_rows lib m l1 = y_count q \<and> y_lib_sets lib m l1 qs l2)"

lemma y_readyE:
  assumes "y_ready a m d"
  obtains s where "y_structs d a = Some s" "mysql s = m" "y_deref (Some a) d = Inr s"
  using assms by (auto simp: y_ready_def y_deref_def)

lemma y_in_setI:
  "y_ready a m d \<Longrightarrow> s = y_shown_set stale q \<Longrightarrow> ss = map (y_shown_set stale) qs \<Longrightarrow>
   y_result (Some a) d = Inr r \<Longrightarrow> y_lib_rows lib r (y_fields q) (y_lib d) (y_rows q) l1 \<Longrightarrow>
   lib_affected_rows lib m l1 = y_count q \<Longrightarrow> y_lib_sets lib m l1 qs l2 \<Longrightarrow> y_in_set lib stale a m d s ss"
  unfolding y_in_set_def by blast

lemma y_in_setE:
  assumes "y_in_set lib stale a m d s ss"
  obtains q qs r l1 l2 where "y_ready a m d" "s = y_shown_set stale q" "ss = map (y_shown_set stale) qs"
    "y_result (Some a) d = Inr r" "y_lib_rows lib r (y_fields q) (y_lib d) (y_rows q) l1"
    "lib_affected_rows lib m l1 = y_count q" "y_lib_sets lib m l1 qs l2"
  using assms unfolding y_in_set_def by blast

lemma y_put_simps [simp]:
  "y_deref (Some a) (y_put (Some a) s d) = Inr s"
  "y_result (Some a) (y_put (Some a) s d) = (case result s of None \<Rightarrow> Inl Null_Deref | Some r \<Rightarrow> Inr r)"
  "y_lib (y_put h s d) = y_lib d"
  "y_ready a m (y_put (Some a) s d) \<longleftrightarrow> mysql s = m"
  by (auto simp: y_deref_def y_result_def y_put_def y_ready_def)

lemma as_int_small: "n < 2 ^ 31 \<Longrightarrow> as_int n = int n"
  by (simp add: as_int_def signed_of_nat signed_take_bit_int_eq_self)

lemmas y_column_calls = dbrelay_mysql_rowcount_def dbrelay_mysql_numcols_def dbrelay_mysql_colname_def
  dbrelay_mysql_coltype_def dbrelay_mysql_collen_def dbrelay_mysql_colprec_def
  dbrelay_mysql_colscale_def dbrelay_mysql_is_quoted_def y_field_def

lemma y_shows_columns:
  assumes "y_ready a m d" "y_result (Some a) d = Inr r" "y_describes lib r (y_lib d) fs"
  shows "shows_columns (dbrelay_mysql_api lib stale) (Some a) d (map (y_shown_column stale) fs)"
  using assms by (simp add: shows_columns_def dbrelay_mysql_api_def y_column_calls y_describes_def
      y_shown_column_def as_int_small)

lemma y_next_set:
  assumes "y_holds lib stale a m d (s # ss)"
  shows "\<exists>d1. dbrelay_mysql_has_results lib (Some a) d = Inr (True, d1) \<and>
    shows_columns (dbrelay_mysql_api lib stale) (Some a) d1 (columns s) \<and> y_in_set lib stale a m d1 s ss"
proof -
  from assms obtain q qs l where q: "y_ready a m d" "y_lib_sets lib m (y_lib d) (q # qs) l"
    "s = y_shown_set stale q" "ss = map (y_shown_set stale) qs"
    by (auto simp: y_holds_def Cons_eq_map_conv)
  from q(2) obtain r l1 l2 where l: "lib_store_result lib m (y_lib d) = (Some r, l1)"
    "y_describes lib r l1 (y_fields q)" "y_lib_rows lib r (y_fields q) l1 (y_rows q) l2"
    "lib_affected_rows lib m l2 = y_count q" "y_lib_sets lib m l2 qs l" by auto
  from q(1) obtain t where t: "mysql t = m" "y_deref (Some a) d = Inr t"
    by (rule y_readyE)
  let ?d = "y_put (Some a) (t\<lparr>result := Some r\<rparr>) (d\<lparr>y_lib := l1\<rparr>)"
  have "dbrelay_mysql_has_results lib (Some a) d = Inr (True, ?d)"
    using t l(1) by (simp add: dbrelay_mysql_has_results_def)
  moreover have "shows_columns (dbrelay_mysql_api lib stale) (Some a) ?d (columns s)"
    using y_shows_columns[of a m ?d r lib "y_fields q" stale] t l(2) q(3) by (simp add: y_shown_set_def)
  moreover have "y_in_set lib stale a m ?d s ss"
    using t l q by (intro y_in_setI[of a m ?d s stale q ss qs r lib l2 l]) simp_all
  ultimately show ?thesis by blast
qed

lemma y_last_set:
  assumes "y_holds lib stale a m d []"
  shows "\<exists>d1. dbrelay_mysql_has_results lib (Some a) d = Inr (False, d1) \<and> y_ready a m d1"
proof -
  from assms obtain l where q: "y_ready a m d" "lib_store_result lib m (y_lib d) = (None, l)"
    by (auto simp: y_holds_def)
  from q(1) obtain t where t: "mysql t = m" "y_deref (Some a) d = Inr t"
    by (rule y_readyE)
  with q(2) show ?thesis by (simp add: dbrelay_mysql_has_results_def)
qed

lemma y_next_row:
  assumes "y_in_set lib stale a m d s ss" "rows s = vs # vss"
  shows "\<exists>d1. dbrelay_mysql_fetch_row lib (Some a) d = Inr (True, d1) \<and>
    shows_row (dbrelay_mysql_api lib stale) (Some a) d1 (columns s) vs \<and>
    y_in_set lib stale a m d1 (s\<lparr>rows := vss\<rparr>) ss"
proof -
  from assms(1) obtain q qs r l1 l2 where q: "y_ready a m d" "s = y_shown_set stale q"
    "ss = map (y_shown_set stale) qs" "y_result (Some a) d = Inr r"
    "y_lib_rows lib r (y_fields q) (y_lib d) (y_rows q) l1" "lib_affected_rows lib m l1 = y_count q"
    "y_lib_sets lib m l1 qs l2" by (rule y_in_setE)
  have qr: "y_rows q = vs # vss" using assms(2) q(2) by (simp add: y_shown_set_def)
  with q(5) obtain l where l: "length vs = length (y_fields q)" "lib_fetch_row lib r (y_lib d) = (Some vs, l)"
    "y_describes lib r l (y_fields q)" "y_lib_rows lib r (y_fields q) l vss l1" by auto
  from q(1) obtain t where t: "mysql t = m" "y_deref (Some a) d = Inr t"
    by (rule y_readyE)
  with q(4) have res: "result t = Some r" by (auto simp: y_result_def split: option.splits)
  let ?d = "y_put (Some a) (t\<lparr>cur_row := Some vs\<rparr>) (d\<lparr>y_lib := l\<rparr>)"
  have "dbrelay_mysql_fetch_row lib (Some a) d = Inr (True, ?d)"
    using t q(4) l(2) by (simp add: dbrelay_mysql_fetch_row_def)
  moreover have "shows_row (dbrelay_mysql_api lib stale) (Some a) ?d (columns s) vs"
    using l(1,3) res q(2) by (simp add: shows_row_def dbrelay_mysql_api_def y_column_calls y_describes_def
        y_shown_column_def y_shown_set_def dbrelay_mysql_colvalue_def)
  moreover have "y_in_set lib stale a m ?d (s\<lparr>rows := vss\<rparr>) ss"
    using t l(4) q(2,3,6,7) res
    by (intro y_in_setI[of a m ?d _ stale "q\<lparr>y_rows := vss\<rparr>" ss qs r lib l1 l2]) (simp_all add: y_shown_set_def)
  ultimately show ?thesis by blast
qed

lemma y_last_row:
  assumes "y_in_set lib stale a m d s ss" "rows s = []"
  shows "\<exists>d1. dbrelay_mysql_fetch_row lib (Some a) d = Inr (False, d1) \<and>
    api_rowcount (dbrelay_mysql_api lib stale) (Some a) d1 = Inr (row_count s) \<and> y_holds lib stale a m d1 ss"
proof -
  from assms(1) obtain q qs r l1 l2 where q: "y_ready a m d" "s = y_shown_set stale q"
    "ss = map (y_shown_set stale) qs" "y_result (Some a) d = Inr r"
    "y_lib_rows lib r (y_fields q) (y_lib d) (y_rows q) l1" "lib_affected_rows lib m l1 = y_count q"
    "y_lib_sets lib m l1 qs l2" by (rule y_in_setE)
  have "y_rows q = []" using assms(2) q(2) by (simp add: y_shown_set_def)
  with q(5) have l: "lib_fetch_row lib r (y_lib d) = (None, l1)" by simp
  from q(1) obtain t where t: "mysql t = m" "y_deref (Some a) d = Inr t"
    by (rule y_readyE)
  let ?d = "y_put (Some a) (t\<lparr>cur_row := None\<rparr>) (d\<lparr>y_lib := l1\<rparr>)"
  have "dbrelay_mysql_fetch_row lib (Some a) d = Inr (False, ?d)"
    using t q(4) l by (simp add: dbrelay_mysql_fetch_row_def)
  moreover have "api_rowcount (dbrelay_mysql_api lib stale) (Some a) ?d = Inr (row_count s)"
    using t q(2,6) by (simp add: dbrelay_mysql_api_def y_column_calls y_shown_set_def)
  moreover have "y_holds lib stale a m ?d ss" using t q(3,7) by (auto simp: y_holds_def)
  ultimately show ?thesis by blast
qed

lemma y_calls:
  "api_has_results (dbrelay_mysql_api lib stale) = dbrelay_mysql_has_results lib"
  "api_fetch_row (dbrelay_mysql_api lib stale) = dbrelay_mysql_fetch_row lib"
  by (simp_all add: dbrelay_mysql_api_def)

subsection \<open>Queries\<close>

text \<open>
  What the library does for a query on the connection \<open>m\<close>: whether or not it went to the database,
  it executes the text and gives the results, or refuses it and has an error.
\<close>

definition mysql_server_runs ::
    "'l mysqllib \<Rightarrow> string \<Rightarrow> nat \<Rightarrow> string \<Rightarrow> string \<Rightarrow> 'l mysql_state \<Rightarrow> mysql_set list \<Rightarrow> bool" where
  "mysql_server_runs lib stale m database q d qs \<longleftrightarrow>
     (\<exists>rc l1 l2 l3. lib_select_db lib m database (y_lib d) = (rc, l1) \<and>
        lib_real_query lib m q l1 = (0, l2) \<and> y_lib_sets lib m l2 qs l3) \<and>
     list_all set_fits (map (y_shown_set stale) qs)"

definition mysql_server_refuses ::
    "'l mysqllib \<Rightarrow> nat \<Rightarrow> string \<Rightarrow> string \<Rightarrow> 'l mysql_state \<Rightarrow> string \<Rightarrow> bool" where
  "mysql_server_refuses lib m database q d e \<longleftrightarrow>
     (\<exists>rc l1 rc2 l2. lib_select_db lib m database (y_lib d) = (rc, l1) \<and>
        lib_real_query lib m q l1 = (rc2, l2) \<and> rc2 \<noteq> 0 \<and> e = lib_error lib m l2)"

lemma y_ready_lib: "y_ready a m d \<Longrightarrow> y_ready a m (d\<lparr>y_lib := l\<rparr>)"
  by (simp add: y_ready_def)

lemma mysql_sent:
  assumes "y_ready a m d" "lib_select_db lib m database (y_lib d) = (rc, l1)"
    and "lib_real_query lib m q l1 = (rc2, l2)" "\<not> flag_set fl DBRELAY_FLAG_XACT"
  shows "query_sent (dbrelay_mysql_api lib stale) (Some a) database q fl d = Inr (rc2 = 0, d\<lparr>y_lib := l2\<rparr>)"
proof -
  have "\<exists>t. mysql t = m \<and> y_deref (Some a) (d\<lparr>y_lib := l\<rparr>) = Inr t" for l
    using assms(1) by (auto simp: y_ready_def y_deref_def)
  moreover have "d\<lparr>y_lib := y_lib d\<rparr> = d" by simp
  ultimately obtain t t' where "mysql t = m" "y_deref (Some a) d = Inr t" "mysql t' = m"
    "y_deref (Some a) (d\<lparr>y_lib := l1\<rparr>) = Inr t'" by metis
  with assms(2-4) show ?thesis
    by (simp add: query_sent_def before_query_def exec_if_def dbrelay_mysql_api_def
        dbrelay_mysql_change_db_def dbrelay_mysql_exec_def)
qed

lemma mysql_runs:
  assumes "y_ready a m d" "mysql_server_runs lib stale m database q d qs" "\<not> flag_set fl DBRELAY_FLAG_XACT"
  shows "\<exists>d1. query_sent (dbrelay_mysql_api lib stale) (Some a) database q fl d = Inr (True, d1) \<and>
    y_holds lib stale a m d1 (map (y_shown_set stale) qs)"
proof -
  from assms(2) obtain rc l1 l2 l3 where r: "lib_select_db lib m database (y_lib d) = (rc, l1)"
    "lib_real_query lib m q l1 = (0, l2)" "y_lib_sets lib m l2 qs l3" unfolding mysql_server_runs_def by blast
  have "y_holds lib stale a m (d\<lparr>y_lib := l2\<rparr>) (map (y_shown_set stale) qs)"
    using y_ready_lib[OF assms(1)] r(3) by (auto simp: y_holds_def)
  with mysql_sent[OF assms(1) r(1,2) assms(3)] show ?thesis by auto
qed

lemma mysql_refusal:
  assumes "y_ready a m d" "mysql_server_refuses lib m database q d e" "\<not> flag_set fl DBRELAY_FLAG_XACT"
  shows "\<exists>d1. query_sent (dbrelay_mysql_api lib stale) (Some a) database q fl d = Inr (False, d1) \<and>
    y_ready a m d1 \<and> api_error (dbrelay_mysql_api lib stale) (Some a) d1 = Inr e"
proof -
  from assms(2) obtain rc l1 rc2 l2 where r: "lib_select_db lib m database (y_lib d) = (rc, l1)"
    "lib_real_query lib m q l1 = (rc2, l2)" "rc2 \<noteq> 0" "e = lib_error lib m l2"
    unfolding mysql_server_refuses_def by blast
  note d = y_ready_lib[OF assms(1), of l2]
  from d obtain t where "mysql t = m" "y_deref (Some a) (d\<lparr>y_lib := l2\<rparr>) = Inr t" by (rule y_readyE)
  with d mysql_sent[OF assms(1) r(1,2) assms(3)] r(3,4) show ?thesis
    by (simp add: dbrelay_mysql_api_def dbrelay_mysql_error_def)
qed

text \<open>A handle that is let go is closed in the library; its structure is never freed.\<close>

lemma mysql_closes:
  assumes "y_ready a m d"
  shows "\<exists>d1. let_go (dbrelay_mysql_api lib stale) (Some a) d = Inr d1 \<and> (\<exists>l. y_lib d1 = lib_close lib m l)"
proof -
  from assms obtain t where "mysql t = m" "y_deref (Some a) d = Inr t" by (rule y_readyE)
  then show ?thesis
    by (auto simp: let_go_def dbrelay_mysql_api_def dbrelay_mysql_assign_request_def dbrelay_mysql_close_def)
qed

lemma mysql_in_order: "y_ready a m d \<Longrightarrow> api_connected (dbrelay_mysql_api lib stale) (Some a) d = Inr True"
  by (auto simp: dbrelay_mysql_api_def dbrelay_mysql_connected_def elim: y_readyE)

interpretation mysql: serving "dbrelay_mysql_api lib stale" a "y_holds lib stale a m" "y_in_set lib stale a m"
  "y_ready a m" "\<lambda>database q d ss. \<exists>qs. mysql_server_runs lib stale m database q d qs \<and> ss = map (y_shown_set stale) qs"
  "mysql_server_refuses lib m" "\<lambda>d. \<exists>l. y_lib d = lib_close lib m l" for lib stale a m
proof (unfold_locales, unfold y_calls)
  fix database q d ss fl
  assume "y_ready a m d" "\<exists>qs. mysql_server_runs lib stale m database q d qs \<and> ss = map (y_shown_set stale) qs"
    "\<not> flag_set fl DBRELAY_FLAG_XACT"
  then show "\<exists>d1. query_sent (dbrelay_mysql_api lib stale) (Some a) database q fl d = Inr (True, d1) \<and>
      y_holds lib stale a m d1 ss" using mysql_runs by blast
qed (rule y_next_set y_last_set y_next_row y_last_row mysql_refusal mysql_closes mysql_in_order; assumption |
  auto simp: mysql_server_runs_def)+

subsection \<open>Logging in\<close>

text \<open>A login that the server accepts gives a structure with a connection of its own.\<close>

lemma mysql_connects:
  assumes "lib_init lib (y_lib d) = (True, l1)"
    and "lib_real_connect lib (y_next d) (sql_server r) (sql_user r)
      (if sql_password r \<noteq> [] then Some (sql_password r) else None) l1 = (True, l2)"
  shows "\<exists>d1. api_connect (dbrelay_mysql_api lib stale) r d = Inr (Some (y_next d), d1) \<and>
    y_ready (y_next d) (y_next d) d1 \<and> y_lib d1 = l2"
  using assms by (simp add: dbrelay_mysql_api_def dbrelay_mysql_connect_def Let_def y_put_def y_ready_def)

text \<open>A login that it refuses leaves a null handle, of which nothing can be asked.\<close>

lemma mysql_refuses_login:
  assumes "lib_init lib (y_lib d) = (True, l1)"
    and "lib_real_connect lib (y_next d) (sql_server r) (sql_user r)
      (if sql_password r \<noteq> [] then Some (sql_password r) else None) l1 = (False, l2)"
  shows "\<exists>d1. api_connect (dbrelay_mysql_api lib stale) r d = Inr (None, d1)"
    and "api_connected (dbrelay_mysql_api lib stale) None d1 = Inr False"
    and "api_error (dbrelay_mysql_api lib stale) None d1 = Inl Null_Deref"
  using assms by (simp_all add: dbrelay_mysql_api_def dbrelay_mysql_connect_def Let_def
      dbrelay_mysql_connected_def dbrelay_mysql_error_def y_deref_def)

subsection \<open>Properties\<close>

text \<open>When a client leaves a connector whose MySQL server answers the ping, the connector takes its
  connection for lost, and the next query opens another one without closing it; when the server
  does not answer, it goes on with the connection it has.
\<close>

theorem mysql_alive_reconnects:
  assumes "y_ready a m (dbstate st)" "conn_db st = Some a" "conn_connected st"
  shows "\<exists>st1. end_client (dbrelay_mysql_api lib stale) st = Inr st1 \<and>
    (if lib_ping lib m (y_lib (dbstate st)) = 0
     then connect_once (dbrelay_mysql_api lib stale) st1 =
       (let (h, d) = dbrelay_mysql_connect lib (c_request st) (dbstate st)
        in Inr (st\<lparr>receive_sql := False, conn_db := h, conn_connected := True, dbstate := d\<rparr>))
     else connect_once (dbrelay_mysql_api lib stale) st1 = Inr (st\<lparr>receive_sql := False\<rparr>))"
proof -
  from assms(1) obtain t where "mysql t = m" "y_deref (Some a) (dbstate st) = Inr t" by (rule y_readyE)
  then have "api_isalive (dbrelay_mysql_api lib stale) (Some a) (dbstate st) =
      Inr (lib_ping lib m (y_lib (dbstate st)) \<noteq> 0)"
    by (simp add: dbrelay_mysql_api_def dbrelay_mysql_isalive_def)
  moreover have "api_connect (dbrelay_mysql_api lib stale) = (\<lambda>r d. Inr (dbrelay_mysql_connect lib r d))"
    by (simp add: dbrelay_mysql_api_def)
  ultimately show ?thesis using assms(2,3)
    by (cases "dbrelay_mysql_connect lib (c_request st) (dbstate st)") (simp add: end_client_def connect_once_def)
qed

subsection \<open>Samples\<close>

type_synonym mysql_tape = "mysql_set list \<times> mysql_set"

definition mysql_tape_lib :: "int \<Rightarrow> mysql_tape mysqllib" where
  "mysql_tape_lib ping = \<lparr>
     lib_init = (\<lambda>l. (True, l)),
     lib_real_connect = (\<lambda>m s u pw l. (True, l)),
     lib_close = (\<lambda>m l. l),
     lib_select_db = (\<lambda>m n l. (0, l)),
     lib_real_query = (\<lambda>m q l. (0, l)),
     lib_affected_rows = (\<lambda>m l. y_count (snd l)),
     lib_store_result = (\<lambda>m l. case l of ([], s) \<Rightarrow> (None, l) | (s # ss, s0) \<Rightarrow> (Some 1, (ss, s))),
     lib_num_fields = (\<lambda>r l. length (y_fields (snd l))),
     lib_fetch_field_direct = (\<lambda>r i l. y_fields (snd l) ! i),
     lib_fetch_row = (\<lambda>r (ss, s). case y_rows s of [] \<Rightarrow> (None, (ss, s))
        | vs # vss \<Rightarrow> (Some vs, (ss, s\<lparr>y_rows := vss\<rparr>))),
     lib_error = (\<lambda>m l. []),
     lib_ping = (\<lambda>m l. ping)\<rparr>"

definition sample_mysql_set :: mysql_set where
  "sample_mysql_set = \<lparr>y_fields = [\<lparr>f_name = ''id'', f_type = MYSQL_TYPE_LONG, f_length = 11,
       f_max_length = 2, f_decimals = 0\<rparr>, \<lparr>f_name = ''t'', f_type = MYSQL_TYPE_STRING, f_length = 20,
       f_max_length = 1, f_decimals = 0\<rparr>],
     y_rows = [[Some ''10'', Some ''x''], [Some ''11'', None]], y_count = 2\<rparr>"

definition sample_mysql :: "mysql_tape mysql_state" where
  "sample_mysql = \<lparr>y_lib = ([sample_mysql_set], \<lparr>y_fields = [], y_rows = [], y_count = 0\<rparr>),
     y_structs = [0 \<mapsto> \<lparr>mysql = 5, result = None, cur_row = None\<rparr>], y_next = 1\<rparr>"

lemma sample_mysql_ready: "y_ready 0 5 sample_mysql"
  by (simp add: y_ready_def sample_mysql_def)

lemma sample_mysql_sets:
  "y_lib_sets (mysql_tape_lib p) m ([sample_mysql_set], s) [sample_mysql_set] ([], sample_mysql_set\<lparr>y_rows := []\<rparr>)"
  by (simp add: mysql_tape_lib_def sample_mysql_set_def y_describes_def less_Suc_eq)

lemma sample_mysql_fits: "set_fits (y_shown_set stale sample_mysql_set)"
  by (simp add: set_fits_def y_shown_set_def sample_mysql_set_def y_shown_column_def number_column_def
      dbrelay_is_unnamed_column_def value_fits_def as_int_small Let_def)

lemma mysql_tape_runs:
  assumes "y_lib d = ([sample_mysql_set], s)"
  shows "mysql_server_runs (mysql_tape_lib p) [] m database q d [sample_mysql_set]"
proof -
  have "y_lib_sets (mysql_tape_lib p) m (y_lib d) [sample_mysql_set] ([], sample_mysql_set\<lparr>y_rows := []\<rparr>)"
    unfolding assms by (rule sample_mysql_sets)
  moreover have "lib_select_db (mysql_tape_lib p) m database l = (0, l)"
    "lib_real_query (mysql_tape_lib p) m q l = (0, l)" for l by (simp_all add: mysql_tape_lib_def)
  ultimately show ?thesis using sample_mysql_fits[of "[]"]
    by (auto simp: mysql_server_runs_def simp del: y_lib_sets.simps)
qed

definition sample_mysql_connector :: "mysql_tape mysql_state connector" where
  "sample_mysql_connector = \<lparr>c_request = zero_request, timeout_str = [], receive_sql = False, sb_sql = None,
     conn_db = Some 0, conn_connected = True, dbstate = sample_mysql\<rparr>"

theorem mysql_alive_reconnects_witness:
  "\<exists>st1 st2. end_client (dbrelay_mysql_api (mysql_tape_lib 0) []) sample_mysql_connector = Inr st1 \<and>
     connect_once (dbrelay_mysql_api (mysql_tape_lib 0) []) st1 = Inr st2 \<and> conn_db st2 = Some 1"
proof -
  have ping: "lib_ping (mysql_tape_lib 0) 5 l = 0" for l by (simp add: mysql_tape_lib_def)
  have con: "fst (dbrelay_mysql_connect (mysql_tape_lib 0) r (dbstate sample_mysql_connector)) = Some 1" for r
    by (simp add: dbrelay_mysql_connect_def mysql_tape_lib_def sample_mysql_connector_def sample_mysql_def)
  have 1: "y_ready 0 5 (dbstate sample_mysql_connector)" "conn_db sample_mysql_connector = Some 0"
    "conn_connected sample_mysql_connector"
    using sample_mysql_ready by (simp_all add: sample_mysql_connector_def)
  from mysql_alive_reconnects[OF 1, of "mysql_tape_lib 0" "[]"] con show ?thesis
    by (auto simp: ping case_prod_beta)
qed

end
