(* ===== verification/Odbc.thy ===== *)
theory Odbc
  imports Serving
begin

section \<open>The ODBC driver (src/odbc.c)\<close>

text \<open>
  The driver over an ODBC driver manager, a record \<open>'l odbclib\<close> of its functions on a state
  \<open>'l\<close>. A handle is a structure with the environment, the connection and the statement; the
  member that tells that a query was just executed is why the first result set needs no call.
  The structure comes from \<^verbatim>\<open>malloc\<close>, so its statement and that member are whatever the
  memory held until the first query.
\<close>

datatype odbc_type =
    SQL_CHAR | SQL_VARCHAR | SQL_LONGVARCHAR | SQL_WCHAR | SQL_WVARCHAR | SQL_WLONGVARCHAR | SQL_DATE
  | SQL_TIME | SQL_TIMESTAMP | SQL_DECIMAL | SQL_NUMERIC | SQL_SMALLINT | SQL_INTEGER | SQL_REAL
  | SQL_FLOAT | SQL_DOUBLE | SQL_BIT | SQL_TINYINT | SQL_BIGINT | SQL_BINARY | SQL_VARBINARY
  | SQL_LONGVARBINARY | Other_Sql_Type int

definition is_quoted_odbc_type :: "odbc_type \<Rightarrow> bool" where
  "is_quoted_odbc_type c \<longleftrightarrow> c \<in> {SQL_CHAR, SQL_VARCHAR, SQL_LONGVARCHAR, SQL_WCHAR, SQL_WVARCHAR,
     SQL_WLONGVARCHAR, SQL_DATE, SQL_TIME, SQL_TIMESTAMP}"

fun dbrelay_odbc_get_sqltype_string :: "odbc_type \<Rightarrow> string" where
  "dbrelay_odbc_get_sqltype_string SQL_CHAR = ''char''"
| "dbrelay_odbc_get_sqltype_string SQL_VARCHAR = ''varchar''"
| "dbrelay_odbc_get_sqltype_string SQL_LONGVARCHAR = ''varchar''"
| "dbrelay_odbc_get_sqltype_string SQL_WCHAR = ''wchar''"
| "dbrelay_odbc_get_sqltype_string SQL_WVARCHAR = ''wvarchar''"
| "dbrelay_odbc_get_sqltype_string SQL_WLONGVARCHAR = ''wvarchar''"
| "dbrelay_odbc_get_sqltype_string SQL_DATE = ''date''"
| "dbrelay_odbc_get_sqltype_string SQL_TIME = ''time''"
| "dbrelay_odbc_get_sqltype_string SQL_TIMESTAMP = ''timestamp''"
| "dbrelay_odbc_get_sqltype_string SQL_DECIMAL = ''decimal''"
| "dbrelay_odbc_get_sqltype_string SQL_NUMERIC = ''numeric''"
| "dbrelay_odbc_get_sqltype_string SQL_SMALLINT = ''smallint''"
| "dbrelay_odbc_get_sqltype_string SQL_INTEGER = ''integer''"
| "dbrelay_odbc_get_sqltype_string SQL_REAL = ''real''"
| "dbrelay_odbc_get_sqltype_string SQL_FLOAT = ''float''"
| "dbrelay_odbc_get_sqltype_string SQL_DOUBLE = ''double''"
| "dbrelay_odbc_get_sqltype_string SQL_BIT = ''bit''"
| "dbrelay_odbc_get_sqltype_string SQL_TINYINT = ''tinyint''"
| "dbrelay_odbc_get_sqltype_string SQL_BIGINT = ''bigint''"
| "dbrelay_odbc_get_sqltype_string SQL_BINARY = ''binary''"
| "dbrelay_odbc_get_sqltype_string SQL_VARBINARY = ''varbinary''"
| "dbrelay_odbc_get_sqltype_string SQL_LONGVARBINARY = ''varbinary''"
| "dbrelay_odbc_get_sqltype_string (Other_Sql_Type c) = ''unknown''"

text \<open>Nothing calls the first of these.\<close>

definition dbrelay_odbc_has_length :: "odbc_type \<Rightarrow> bool" where
  "dbrelay_odbc_has_length c \<longleftrightarrow> c \<in> {SQL_CHAR, SQL_VARCHAR, SQL_LONGVARCHAR, SQL_WCHAR, SQL_WVARCHAR,
     SQL_WLONGVARCHAR}"

definition dbrelay_odbc_has_prec :: "odbc_type \<Rightarrow> bool" where
  "dbrelay_odbc_has_prec c \<longleftrightarrow> c = SQL_DECIMAL \<or> c = SQL_NUMERIC"

subsection \<open>The library and the structures\<close>

datatype sql_return = SQL_SUCCESS | SQL_NO_DATA | SQL_ERROR

record odbc_column =
  o_name :: string
  o_type :: odbc_type
  o_size :: nat
  o_digits :: int

record 'l odbclib =
  SQLConnect :: "nat \<Rightarrow> string \<Rightarrow> string \<Rightarrow> string \<Rightarrow> 'l \<Rightarrow> bool \<times> 'l"
  SQLAllocStmt :: "nat option \<Rightarrow> 'l \<Rightarrow> nat option \<times> 'l"
  SQLExecDirect :: "nat option \<Rightarrow> string option \<Rightarrow> 'l \<Rightarrow> bool \<times> 'l"
  SQLMoreResults :: "nat option \<Rightarrow> 'l \<Rightarrow> sql_return \<times> 'l"
  SQLFetch :: "nat option \<Rightarrow> 'l \<Rightarrow> bool \<times> 'l"
  SQLNumResultCols :: "nat option \<Rightarrow> 'l \<Rightarrow> nat"
  SQLDescribeCol :: "nat option \<Rightarrow> nat \<Rightarrow> 'l \<Rightarrow> odbc_column"
  SQLGetData :: "nat option \<Rightarrow> nat \<Rightarrow> 'l \<Rightarrow> string option"
  SQLRowCount :: "nat option \<Rightarrow> 'l \<Rightarrow> int"
  SQLGetDiagRec :: "nat option \<Rightarrow> 'l \<Rightarrow> string"
  SQLFreeStmt :: "nat \<Rightarrow> 'l \<Rightarrow> 'l"
  SQLDisconnect :: "nat \<Rightarrow> 'l \<Rightarrow> 'l"

text \<open>The environment is only allocated and freed, with the connection.\<close>

record odbc_db =
  dbc :: "nat option"
  stmt :: "nat option"
  querying :: bool
  o_error_message :: string

record 'l odbc_state =
  o_lib :: 'l
  o_structs :: "nat \<Rightarrow> odbc_db option"
  o_next :: nat

definition o_deref :: "handle \<Rightarrow> 'l odbc_state \<Rightarrow> odbc_db result" where
  "o_deref h d =
     (case h of
        None \<Rightarrow> Inl Null_Deref
      | Some a \<Rightarrow> (case o_structs d a of None \<Rightarrow> Inl Out_Of_Bounds | Some s \<Rightarrow> Inr s))"

definition o_put :: "handle \<Rightarrow> odbc_db \<Rightarrow> 'l odbc_state \<Rightarrow> 'l odbc_state" where
  "o_put h s d = d\<lparr>o_structs := (o_structs d)(the h \<mapsto> s)\<rparr>"

text \<open>An integer of the library returned as an \<^verbatim>\<open>int\<close>.\<close>

definition to_int :: "int \<Rightarrow> int" where
  "to_int n = sint (word_of_int n :: 32 word)"

definition ODBC_BUF_SZ :: nat where "ODBC_BUF_SZ = 256"

subsection \<open>The functions of the driver\<close>

text \<open>\<open>garb\<close> is the content of the fresh structure.\<close>

definition dbrelay_odbc_connect ::
    "'l odbclib \<Rightarrow> odbc_db \<Rightarrow> dbrelay_request \<Rightarrow> 'l odbc_state \<Rightarrow> handle \<times> 'l odbc_state" where
  "dbrelay_odbc_connect lib garb r d =
     (let a = o_next d;
          (ok, l) = SQLConnect lib a (sql_server r) (sql_user r) (sql_password r) (o_lib d);
          d = d\<lparr>o_next := a + 1, o_lib := l\<rparr>
      in if \<not> ok then (None, d) else (Some a, o_put (Some a) (garb\<lparr>dbc := Some a\<rparr>) d))"

definition dbrelay_odbc_close ::
    "'l odbclib \<Rightarrow> handle \<Rightarrow> 'l odbc_state \<Rightarrow> 'l odbc_state result" where
  "dbrelay_odbc_close lib h d =
     rbind (o_deref h d) (\<lambda>s.
       let l = (case stmt s of None \<Rightarrow> o_lib d | Some st \<Rightarrow> SQLFreeStmt lib st (o_lib d));
           l = (case dbc s of None \<Rightarrow> l | Some c \<Rightarrow> SQLDisconnect lib c l)
       in Inr (o_put h (s\<lparr>stmt := None, dbc := None\<rparr>) (d\<lparr>o_lib := l\<rparr>)))"

definition dbrelay_odbc_assign_request ::
    "handle \<Rightarrow> dbrelay_request option \<Rightarrow> 'l odbc_state \<Rightarrow> 'l odbc_state result" where
  "dbrelay_odbc_assign_request h r d = Inr d"

definition dbrelay_odbc_change_db ::
    "handle \<Rightarrow> string \<Rightarrow> 'l odbc_state \<Rightarrow> (bool \<times> 'l odbc_state) result" where
  "dbrelay_odbc_change_db h database d = Inr (True, d)"

definition dbrelay_odbc_connected :: "handle \<Rightarrow> 'l odbc_state \<Rightarrow> bool result" where
  "dbrelay_odbc_connected h d =
     (case h of None \<Rightarrow> Inr False | Some a \<Rightarrow> rbind (o_deref h d) (\<lambda>s. Inr (dbc s \<noteq> None)))"

text \<open>The error of a refused statement is kept in an array of 256 bytes.\<close>

definition dbrelay_odbc_get_error :: "'l odbclib \<Rightarrow> 'l \<Rightarrow> odbc_db \<Rightarrow> odbc_db" where
  "dbrelay_odbc_get_error lib l s =
     s\<lparr>o_error_message := take (ODBC_BUF_SZ - 1 - 1) (SQLGetDiagRec lib (stmt s) l)\<rparr>"

definition dbrelay_odbc_exec ::
    "'l odbclib \<Rightarrow> handle \<Rightarrow> string option \<Rightarrow> 'l odbc_state \<Rightarrow> (bool \<times> 'l odbc_state) result" where
  "dbrelay_odbc_exec lib h q d =
     rbind (o_deref h d) (\<lambda>s.
       let (st, l) = SQLAllocStmt lib (dbc s) (o_lib d);
           (ok, l) = SQLExecDirect lib st q l;
           s = s\<lparr>stmt := st, querying := True\<rparr>;
           s = (if ok then s else dbrelay_odbc_get_error lib l s)
       in Inr (ok, o_put h s (d\<lparr>o_lib := l\<rparr>)))"

definition dbrelay_odbc_rowcount :: "'l odbclib \<Rightarrow> handle \<Rightarrow> 'l odbc_state \<Rightarrow> int result" where
  "dbrelay_odbc_rowcount lib h d = rbind (o_deref h d) (\<lambda>s. Inr (to_int (SQLRowCount lib (stmt s) (o_lib d))))"

text \<open>Only \<^verbatim>\<open>SQL_NO_DATA\<close> ends the results; an error does not.\<close>

definition dbrelay_odbc_has_results ::
    "'l odbclib \<Rightarrow> handle \<Rightarrow> 'l odbc_state \<Rightarrow> (bool \<times> 'l odbc_state) result" where
  "dbrelay_odbc_has_results lib h d =
     rbind (o_deref h d) (\<lambda>s.
       if querying s then Inr (True, o_put h (s\<lparr>querying := False\<rparr>) d)
       else
         let (ret, l) = SQLMoreResults lib (stmt s) (o_lib d)
         in Inr (ret \<noteq> SQL_NO_DATA, d\<lparr>o_lib := l\<rparr>))"

definition dbrelay_odbc_numcols :: "'l odbclib \<Rightarrow> handle \<Rightarrow> 'l odbc_state \<Rightarrow> int result" where
  "dbrelay_odbc_numcols lib h d = rbind (o_deref h d) (\<lambda>s. Inr (int (SQLNumResultCols lib (stmt s) (o_lib d))))"

definition o_column :: "'l odbclib \<Rightarrow> handle \<Rightarrow> nat \<Rightarrow> 'l odbc_state \<Rightarrow> odbc_column result" where
  "o_column lib h n d = rbind (o_deref h d) (\<lambda>s. Inr (SQLDescribeCol lib (stmt s) n (o_lib d)))"

text \<open>The name is cut to fit the array, but the terminator goes behind the whole name in another one.\<close>

definition dbrelay_odbc_colname :: "'l odbclib \<Rightarrow> handle \<Rightarrow> nat \<Rightarrow> 'l odbc_state \<Rightarrow> string option result" where
  "dbrelay_odbc_colname lib h n d =
     rbind (o_column lib h n d) (\<lambda>c.
       if length (o_name c) < ODBC_BUF_SZ then Inr (Some (take (ODBC_BUF_SZ - 1) (o_name c)))
       else Inl Buffer_Overflow)"

definition dbrelay_odbc_coltype :: "'l odbclib \<Rightarrow> handle \<Rightarrow> nat \<Rightarrow> 'l odbc_state \<Rightarrow> string result" where
  "dbrelay_odbc_coltype lib h n d =
     rbind (o_column lib h n d) (\<lambda>c. Inr (dbrelay_odbc_get_sqltype_string (o_type c)))"

definition dbrelay_odbc_collen :: "'l odbclib \<Rightarrow> handle \<Rightarrow> nat \<Rightarrow> 'l odbc_state \<Rightarrow> int result" where
  "dbrelay_odbc_collen lib h n d = rbind (o_column lib h n d) (\<lambda>c. Inr (to_int (int (o_size c))))"

definition dbrelay_odbc_colprec :: "'l odbclib \<Rightarrow> handle \<Rightarrow> nat \<Rightarrow> 'l odbc_state \<Rightarrow> int result" where
  "dbrelay_odbc_colprec lib h n d =
     rbind (o_column lib h n d) (\<lambda>c.
       Inr (if dbrelay_odbc_has_prec (o_type c) then to_int (int (o_size c)) else 0))"

definition dbrelay_odbc_colscale :: "'l odbclib \<Rightarrow> handle \<Rightarrow> nat \<Rightarrow> 'l odbc_state \<Rightarrow> int result" where
  "dbrelay_odbc_colscale lib h n d = rbind (o_column lib h n d) (\<lambda>c. Inr (o_digits c))"

definition dbrelay_odbc_is_quoted :: "'l odbclib \<Rightarrow> handle \<Rightarrow> nat \<Rightarrow> 'l odbc_state \<Rightarrow> bool result" where
  "dbrelay_odbc_is_quoted lib h n d = rbind (o_column lib h n d) (\<lambda>c. Inr (is_quoted_odbc_type (o_type c)))"

definition dbrelay_odbc_fetch_row ::
    "'l odbclib \<Rightarrow> handle \<Rightarrow> 'l odbc_state \<Rightarrow> (bool \<times> 'l odbc_state) result" where
  "dbrelay_odbc_fetch_row lib h d =
     rbind (o_deref h d) (\<lambda>s.
       let (ok, l) = SQLFetch lib (stmt s) (o_lib d) in Inr (ok, d\<lparr>o_lib := l\<rparr>))"

text \<open>\<^verbatim>\<open>SQLGetData\<close> is told that the destination has 256 bytes, whatever its size is.\<close>

definition dbrelay_odbc_colvalue :: "'l odbclib \<Rightarrow> handle \<Rightarrow> nat \<Rightarrow> 'l odbc_state \<Rightarrow> string option result" where
  "dbrelay_odbc_colvalue lib h n d =
     rbind (o_deref h d) (\<lambda>s.
       Inr (map_option (take (ODBC_BUF_SZ - 1)) (SQLGetData lib (stmt s) n (o_lib d))))"

definition dbrelay_odbc_error :: "handle \<Rightarrow> 'l odbc_state \<Rightarrow> string result" where
  "dbrelay_odbc_error h d = rbind (o_deref h d) (\<lambda>s. Inr (o_error_message s))"

definition dbrelay_odbc_catalogsql :: "nat \<Rightarrow> string option list \<Rightarrow> string option result" where
  "dbrelay_odbc_catalogsql c ps = Inr None"

definition dbrelay_odbc_isalive :: "handle \<Rightarrow> 'l odbc_state \<Rightarrow> bool result" where
  "dbrelay_odbc_isalive h d = Inr True"

definition dbrelay_odbc_api :: "'l odbclib \<Rightarrow> odbc_db \<Rightarrow> 'l odbc_state dbapi" where
  "dbrelay_odbc_api lib garb = \<lparr>
     api_connected = dbrelay_odbc_connected,
     api_change_db = dbrelay_odbc_change_db,
     api_exec = dbrelay_odbc_exec lib,
     api_rowcount = dbrelay_odbc_rowcount lib,
     api_has_results = dbrelay_odbc_has_results lib,
     api_numcols = dbrelay_odbc_numcols lib,
     api_colname = dbrelay_odbc_colname lib,
     api_coltype = dbrelay_odbc_coltype lib,
     api_collen = dbrelay_odbc_collen lib,
     api_colprec = dbrelay_odbc_colprec lib,
     api_colscale = dbrelay_odbc_colscale lib,
     api_fetch_row = dbrelay_odbc_fetch_row lib,
     api_colvalue = dbrelay_odbc_colvalue lib,
     api_is_quoted = dbrelay_odbc_is_quoted lib,
     api_error = dbrelay_odbc_error,
     api_catalogsql = dbrelay_odbc_catalogsql,
     api_isalive = dbrelay_odbc_isalive,
     api_connect = (\<lambda>r d. Inr (dbrelay_odbc_connect lib garb r d)),
     api_assign_request = dbrelay_odbc_assign_request,
     api_close = dbrelay_odbc_close lib\<rparr>"

subsection \<open>What the library promises\<close>

text \<open>
  A result set as ODBC describes it, for the statement \<open>st\<close>. The first set is there when the
  statement was executed, each of the others after \<^verbatim>\<open>SQLMoreResults\<close>. Names fit the array
  of the driver.
\<close>

record odbc_set =
  o_columns :: "odbc_column list"
  o_rows :: "string option list list"
  o_count :: int

definition o_describes :: "'l odbclib \<Rightarrow> nat option \<Rightarrow> 'l \<Rightarrow> odbc_column list \<Rightarrow> bool" where
  "o_describes lib st l cs \<longleftrightarrow> SQLNumResultCols lib st l = length cs \<and>
     (\<forall>i<length cs. SQLDescribeCol lib st (Suc i) l = cs ! i \<and> length (o_name (cs ! i)) < ODBC_BUF_SZ)"

fun o_lib_rows ::
    "'l odbclib \<Rightarrow> nat option \<Rightarrow> odbc_column list \<Rightarrow> 'l \<Rightarrow> string option list list \<Rightarrow> 'l \<Rightarrow> bool" where
  "o_lib_rows lib st cs l [] l' \<longleftrightarrow> SQLFetch lib st l = (False, l')"
| "o_lib_rows lib st cs l (vs # vss) l' \<longleftrightarrow> length vs = length cs \<and>
     (\<exists>l1. SQLFetch lib st l = (True, l1) \<and> o_describes lib st l1 cs \<and>
        (\<forall>i<length cs. SQLGetData lib st (Suc i) l1 = vs ! i) \<and> o_lib_rows lib st cs l1 vss l')"

definition o_lib_set :: "'l odbclib \<Rightarrow> nat option \<Rightarrow> 'l \<Rightarrow> odbc_set \<Rightarrow> 'l \<Rightarrow> bool" where
  "o_lib_set lib st l s l' \<longleftrightarrow> o_describes lib st l (o_columns s) \<and>
     o_lib_rows lib st (o_columns s) l (o_rows s) l' \<and> SQLRowCount lib st l' = o_count s"

fun o_lib_sets :: "'l odbclib \<Rightarrow> nat option \<Rightarrow> 'l \<Rightarrow> odbc_set list \<Rightarrow> 'l \<Rightarrow> bool" where
  "o_lib_sets lib st l [] l' \<longleftrightarrow> SQLMoreResults lib st l = (SQL_NO_DATA, l')"
| "o_lib_sets lib st l (s # ss) l' \<longleftrightarrow>
     (\<exists>l1 l2. SQLMoreResults lib st l = (SQL_SUCCESS, l1) \<and> o_lib_set lib st l1 s l2 \<and>
        o_lib_sets lib st l2 ss l')"

text \<open>A value is cut at the 255 bytes the driver asks for.\<close>

definition o_shown_column :: "odbc_column \<Rightarrow> column" where
  "o_shown_column c =
     \<lparr>col_name = Some (o_name c), col_type = dbrelay_odbc_get_sqltype_string (o_type c),
      col_len = to_int (int (o_size c)),
      col_prec = (if dbrelay_odbc_has_prec (o_type c) then to_int (int (o_size c)) else 0),
      col_scale = o_digits c, col_quoted = is_quoted_odbc_type (o_type c)\<rparr>"

definition o_shown_row :: "string option list \<Rightarrow> string option list" where
  "o_shown_row vs = map (map_option (take (ODBC_BUF_SZ - 1))) vs"

definition o_shown_set :: "odbc_set \<Rightarrow> result_set" where
  "o_shown_set s = \<lparr>columns = map o_shown_column (o_columns s), rows = map o_shown_row (o_rows s),
     row_count = to_int (o_count s)\<rparr>"

subsection \<open>The driver keeps its contract\<close>

text \<open>The connection is open; the statement \<open>st\<close> was executed, and its first set was asked for or not.\<close>

definition o_open :: "nat \<Rightarrow> 'l odbc_state \<Rightarrow> bool" where
  "o_open a d \<longleftrightarrow> (\<exists>s. o_structs d a = Some s \<and> dbc s = Some a)"

definition o_ready :: "nat \<Rightarrow> nat option \<Rightarrow> bool \<Rightarrow> 'l odbc_state \<Rightarrow> bool" where
  "o_ready a st qr d \<longleftrightarrow> (\<exists>s. o_structs d a = Some s \<and> dbc s = Some a \<and> stmt s = st \<and> querying s = qr)"

definition o_holds :: "'l odbclib \<Rightarrow> nat \<Rightarrow> 'l odbc_state \<Rightarrow> result_set list \<Rightarrow> bool" where
  "o_holds lib a d ss \<longleftrightarrow>
     (\<exists>st qs l. ss = map o_shown_set qs \<and> o_ready a st False d \<and> o_lib_sets lib st (o_lib d) qs l) \<or>
     (\<exists>st q qs l1 l2. ss = map o_shown_set (q # qs) \<and> o_ready a st True d \<and>
        o_lib_set lib st (o_lib d) q l1 \<and> o_lib_sets lib st l1 qs l2)"

definition o_in_set ::
    "'l odbclib \<Rightarrow> nat \<Rightarrow> 'l odbc_state \<Rightarrow> result_set \<Rightarrow> result_set list \<Rightarrow> bool" where
  "o_in_set lib a d s ss \<longleftrightarrow>
     (\<exists>st q qs l1 l2. o_ready a st False d \<and> s = o_shown_set q \<and> ss = map o_shown_set qs \<and>
        o_lib_rows lib st (o_columns q) (o_lib d) (o_rows q) l1 \<and> SQLRowCount lib st l1 = o_count q \<and>
        o_lib_sets lib st l1 qs l2)"

lemma o_readyE:
  assumes "o_ready a st qr d"
  obtains s where "o_structs d a = Some s" "dbc s = Some a" "stmt s = st" "querying s = qr"
    "o_deref (Some a) d = Inr s"
  using assms by (auto simp: o_ready_def o_deref_def)

lemma o_ready_open: "o_ready a st qr d \<Longrightarrow> o_open a d"
  by (auto simp: o_ready_def o_open_def)

lemma o_ready_lib [simp]: "o_ready a st qr (d\<lparr>o_lib := l\<rparr>) = o_ready a st qr d"
  by (simp add: o_ready_def)

lemma o_put_simps [simp]:
  "o_lib (o_put h s d) = o_lib d"
  "o_ready a st qr (o_put (Some a) s d) \<longleftrightarrow> dbc s = Some a \<and> stmt s = st \<and> querying s = qr"
  by (auto simp: o_put_def o_ready_def)

lemmas o_column_calls = dbrelay_odbc_rowcount_def dbrelay_odbc_numcols_def dbrelay_odbc_colname_def
  dbrelay_odbc_coltype_def dbrelay_odbc_collen_def dbrelay_odbc_colprec_def
  dbrelay_odbc_colscale_def dbrelay_odbc_is_quoted_def dbrelay_odbc_colvalue_def o_column_def

lemma name_whole: "length n < ODBC_BUF_SZ \<Longrightarrow> length n \<le> ODBC_BUF_SZ - Suc 0"
  by simp

lemma o_shows_columns:
  assumes "o_ready a st qr d" "o_describes lib st (o_lib d) cs"
  shows "shows_columns (dbrelay_odbc_api lib garb) (Some a) d (map o_shown_column cs)"
proof -
  from assms(1) obtain s where "stmt s = st" "o_deref (Some a) d = Inr s" by (rule o_readyE)
  with assms(2) show ?thesis by (simp add: shows_columns_def dbrelay_odbc_api_def o_column_calls
      o_describes_def o_shown_column_def name_whole)
qed

lemma o_set_begins:
  assumes "o_ready a st False d" "o_lib_set lib st (o_lib d) q l1" "o_lib_sets lib st l1 qs l2"
  shows "shows_columns (dbrelay_odbc_api lib garb) (Some a) d (columns (o_shown_set q)) \<and>
    o_in_set lib a d (o_shown_set q) (map o_shown_set qs)"
proof -
  from assms(2) have l: "o_describes lib st (o_lib d) (o_columns q)"
    "o_lib_rows lib st (o_columns q) (o_lib d) (o_rows q) l1" "SQLRowCount lib st l1 = o_count q"
    by (simp_all add: o_lib_set_def)
  have "o_in_set lib a d (o_shown_set q) (map o_shown_set qs)"
    unfolding o_in_set_def using assms(1,3) l(2,3) by blast
  with o_shows_columns[OF assms(1) l(1)] show ?thesis by (simp add: o_shown_set_def)
qed

lemma o_next_set:
  assumes "o_holds lib a d (s # ss)"
  shows "\<exists>d1. dbrelay_odbc_has_results lib (Some a) d = Inr (True, d1) \<and>
    shows_columns (dbrelay_odbc_api lib garb) (Some a) d1 (columns s) \<and> o_in_set lib a d1 s ss"
  using assms unfolding o_holds_def
proof (elim disjE exE conjE)
  fix st qs l
  assume ss: "s # ss = map o_shown_set qs" and r: "o_ready a st False d" and l: "o_lib_sets lib st (o_lib d) qs l"
  from ss obtain q qs' where qs: "qs = q # qs'" "s = o_shown_set q" "ss = map o_shown_set qs'"
    by (auto simp: Cons_eq_map_conv)
  from l qs(1) obtain l1 l2 where l1: "SQLMoreResults lib st (o_lib d) = (SQL_SUCCESS, l1)"
    "o_lib_set lib st l1 q l2" "o_lib_sets lib st l2 qs' l" by auto
  from r obtain t where "stmt t = st" "\<not> querying t" "o_deref (Some a) d = Inr t"
    by (auto elim: o_readyE)
  with l1(1) have "dbrelay_odbc_has_results lib (Some a) d = Inr (True, d\<lparr>o_lib := l1\<rparr>)"
    by (simp add: dbrelay_odbc_has_results_def)
  with o_set_begins[of a st "d\<lparr>o_lib := l1\<rparr>" lib q l2 qs' l garb] r l1(2,3) qs(2,3) show ?thesis by simp
next
  fix st q qs l1 l2
  assume ss: "s # ss = map o_shown_set (q # qs)" and r: "o_ready a st True d"
    and l: "o_lib_set lib st (o_lib d) q l1" "o_lib_sets lib st l1 qs l2"
  from r obtain t where t: "dbc t = Some a" "stmt t = st" "querying t" "o_deref (Some a) d = Inr t"
    by (auto elim: o_readyE)
  let ?d = "o_put (Some a) (t\<lparr>querying := False\<rparr>) d"
  have "dbrelay_odbc_has_results lib (Some a) d = Inr (True, ?d)"
    using t by (simp add: dbrelay_odbc_has_results_def)
  with o_set_begins[of a st ?d lib q l1 qs l2 garb] t l ss show ?thesis by simp
qed

lemma o_last_set:
  assumes "o_holds lib a d []"
  shows "\<exists>d1. dbrelay_odbc_has_results lib (Some a) d = Inr (False, d1) \<and> o_open a d1"
proof -
  from assms obtain st l where r: "o_ready a st False d" and l: "SQLMoreResults lib st (o_lib d) = (SQL_NO_DATA, l)"
    by (auto simp: o_holds_def)
  from r obtain t where "stmt t = st" "\<not> querying t" "o_deref (Some a) d = Inr t"
    by (auto elim: o_readyE)
  moreover have "o_open a (d\<lparr>o_lib := l\<rparr>)" using r by (auto intro: o_ready_open)
  ultimately show ?thesis using l by (simp add: dbrelay_odbc_has_results_def)
qed

lemma o_next_row:
  assumes "o_in_set lib a d s ss" "rows s = vs # vss"
  shows "\<exists>d1. dbrelay_odbc_fetch_row lib (Some a) d = Inr (True, d1) \<and>
    shows_row (dbrelay_odbc_api lib garb) (Some a) d1 (columns s) vs \<and>
    o_in_set lib a d1 (s\<lparr>rows := vss\<rparr>) ss"
proof -
  from assms(1) obtain st q qs l1 l2 where q: "o_ready a st False d" "s = o_shown_set q"
    "ss = map o_shown_set qs" "o_lib_rows lib st (o_columns q) (o_lib d) (o_rows q) l1"
    "SQLRowCount lib st l1 = o_count q" "o_lib_sets lib st l1 qs l2" unfolding o_in_set_def by blast
  from assms(2) q(2) obtain ws wss where ws: "o_rows q = ws # wss" "vs = o_shown_row ws" "vss = map o_shown_row wss"
    by (auto simp: o_shown_set_def Cons_eq_map_conv)
  with q(4) obtain l where l: "length ws = length (o_columns q)" "SQLFetch lib st (o_lib d) = (True, l)"
    "o_describes lib st l (o_columns q)" "\<forall>i<length (o_columns q). SQLGetData lib st (Suc i) l = ws ! i"
    "o_lib_rows lib st (o_columns q) l wss l1" by auto
  let ?d = "d\<lparr>o_lib := l\<rparr>"
  from q(1) obtain t where t: "stmt t = st" "o_deref (Some a) d = Inr t" "o_deref (Some a) ?d = Inr t"
    by (auto elim!: o_readyE simp: o_deref_def)
  have "dbrelay_odbc_fetch_row lib (Some a) d = Inr (True, ?d)"
    using t l(2) by (simp add: dbrelay_odbc_fetch_row_def)
  moreover have "shows_row (dbrelay_odbc_api lib garb) (Some a) ?d (columns s) vs"
    using t l(1,3,4) q(2) ws(2) by (simp add: shows_row_def dbrelay_odbc_api_def o_column_calls o_describes_def
        o_shown_column_def o_shown_set_def o_shown_row_def name_whole)
  moreover have "s\<lparr>rows := vss\<rparr> = o_shown_set (q\<lparr>o_rows := wss\<rparr>)"
    using q(2) ws(3) by (simp add: o_shown_set_def)
  then have "o_in_set lib a ?d (s\<lparr>rows := vss\<rparr>) ss"
    unfolding o_in_set_def using q(1,3,5,6) l(5)
    by (intro exI[of _ st] conjI exI[of _ "q\<lparr>o_rows := wss\<rparr>"] exI[of _ qs] exI[of _ l1] exI[of _ l2]) simp_all
  ultimately show ?thesis by blast
qed

lemma o_last_row:
  assumes "o_in_set lib a d s ss" "rows s = []"
  shows "\<exists>d1. dbrelay_odbc_fetch_row lib (Some a) d = Inr (False, d1) \<and>
    api_rowcount (dbrelay_odbc_api lib garb) (Some a) d1 = Inr (row_count s) \<and> o_holds lib a d1 ss"
proof -
  from assms(1) obtain st q qs l1 l2 where q: "o_ready a st False d" "s = o_shown_set q"
    "ss = map o_shown_set qs" "o_lib_rows lib st (o_columns q) (o_lib d) (o_rows q) l1"
    "SQLRowCount lib st l1 = o_count q" "o_lib_sets lib st l1 qs l2" unfolding o_in_set_def by blast
  have "o_rows q = []" using assms(2) q(2) by (simp add: o_shown_set_def)
  with q(4) have l: "SQLFetch lib st (o_lib d) = (False, l1)" by simp
  let ?d = "d\<lparr>o_lib := l1\<rparr>"
  from q(1) obtain t where t: "stmt t = st" "o_deref (Some a) d = Inr t" "o_deref (Some a) ?d = Inr t"
    by (auto elim!: o_readyE simp: o_deref_def)
  have "dbrelay_odbc_fetch_row lib (Some a) d = Inr (False, ?d)"
    using t l by (simp add: dbrelay_odbc_fetch_row_def)
  moreover have "api_rowcount (dbrelay_odbc_api lib garb) (Some a) ?d = Inr (row_count s)"
    using t q(2,5) by (simp add: dbrelay_odbc_api_def o_column_calls o_shown_set_def)
  moreover have "o_holds lib a ?d ss" unfolding o_holds_def using q(1,3,6) by auto
  ultimately show ?thesis by blast
qed

lemma o_calls:
  "api_has_results (dbrelay_odbc_api lib garb) = dbrelay_odbc_has_results lib"
  "api_fetch_row (dbrelay_odbc_api lib garb) = dbrelay_odbc_fetch_row lib"
  by (simp_all add: dbrelay_odbc_api_def)

subsection \<open>Queries\<close>

text \<open>
  What ODBC does for a query on the connection \<open>a\<close>: a new statement is executed, and gives its
  results, the first without a call for more, or is refused with a diagnostic.
\<close>

definition odbc_server_runs ::
    "'l odbclib \<Rightarrow> nat \<Rightarrow> string \<Rightarrow> 'l odbc_state \<Rightarrow> odbc_set list \<Rightarrow> bool" where
  "odbc_server_runs lib a q d sets \<longleftrightarrow>
     (\<exists>st l1 l2 qset qs l3 l4. SQLAllocStmt lib (Some a) (o_lib d) = (st, l1) \<and>
        SQLExecDirect lib st (Some q) l1 = (True, l2) \<and> sets = qset # qs \<and>
        o_lib_set lib st l2 qset l3 \<and> o_lib_sets lib st l3 qs l4) \<and>
     list_all set_fits (map o_shown_set sets)"

definition odbc_server_refuses ::
    "'l odbclib \<Rightarrow> nat \<Rightarrow> string \<Rightarrow> 'l odbc_state \<Rightarrow> string \<Rightarrow> bool" where
  "odbc_server_refuses lib a q d e \<longleftrightarrow>
     (\<exists>st l1 l2. SQLAllocStmt lib (Some a) (o_lib d) = (st, l1) \<and>
        SQLExecDirect lib st (Some q) l1 = (False, l2) \<and> e = SQLGetDiagRec lib st l2)"

lemma odbc_sent:
  assumes "o_open a d" "SQLAllocStmt lib (Some a) (o_lib d) = (st, l1)" "SQLExecDirect lib st (Some q) l1 = (ok, l2)"
    and "\<not> flag_set fl DBRELAY_FLAG_XACT"
  shows "\<exists>s. query_sent (dbrelay_odbc_api lib garb) (Some a) database q fl d =
      Inr (ok, o_put (Some a) s (d\<lparr>o_lib := l2\<rparr>)) \<and> dbc s = Some a \<and> stmt s = st \<and> querying s \<and>
    (\<not> ok \<longrightarrow> o_error_message s = take 254 (SQLGetDiagRec lib st l2))"
proof -
  from assms(1) obtain t where "o_structs d a = Some t" "dbc t = Some a" by (auto simp: o_open_def)
  with assms(2-4) show ?thesis
    by (cases ok) (auto simp: query_sent_def before_query_def exec_if_def dbrelay_odbc_api_def
        dbrelay_odbc_change_db_def dbrelay_odbc_exec_def o_deref_def dbrelay_odbc_get_error_def ODBC_BUF_SZ_def
        Let_def intro: exI[of _ "t\<lparr>stmt := st, querying := True\<rparr>"]
        exI[of _ "t\<lparr>stmt := st, querying := True, o_error_message := take 254 (SQLGetDiagRec lib st l2)\<rparr>"])
qed

lemma odbc_runs:
  assumes "o_open a d" "odbc_server_runs lib a q d sets" "\<not> flag_set fl DBRELAY_FLAG_XACT"
  shows "\<exists>d1. query_sent (dbrelay_odbc_api lib garb) (Some a) database q fl d = Inr (True, d1) \<and>
    o_holds lib a d1 (map o_shown_set sets)"
proof -
  from assms(2) obtain st l1 l2 qset qs l3 l4 where r: "SQLAllocStmt lib (Some a) (o_lib d) = (st, l1)"
    "SQLExecDirect lib st (Some q) l1 = (True, l2)" "sets = qset # qs"
    "o_lib_set lib st l2 qset l3" "o_lib_sets lib st l3 qs l4" unfolding odbc_server_runs_def by blast
  from odbc_sent[OF assms(1) r(1,2) assms(3)] obtain s where
    "query_sent (dbrelay_odbc_api lib garb) (Some a) database q fl d = Inr (True, o_put (Some a) s (d\<lparr>o_lib := l2\<rparr>))"
    "dbc s = Some a" "stmt s = st" "querying s" by metis
  moreover from this(2-4) have "o_holds lib a (o_put (Some a) s (d\<lparr>o_lib := l2\<rparr>)) (map o_shown_set sets)"
    unfolding o_holds_def using r(3-5) by (intro disjI2 exI[of _ st] exI conjI refl) simp_all
  ultimately show ?thesis by blast
qed

text \<open>The error of a refused query is the diagnostic, cut at the 254 bytes the driver asks for.\<close>

lemma odbc_refusal:
  assumes "o_open a d" "odbc_server_refuses lib a q d e" "\<not> flag_set fl DBRELAY_FLAG_XACT"
  shows "\<exists>d1. query_sent (dbrelay_odbc_api lib garb) (Some a) database q fl d = Inr (False, d1) \<and>
    o_open a d1 \<and> api_error (dbrelay_odbc_api lib garb) (Some a) d1 = Inr (take 254 e)"
proof -
  from assms(2) obtain st l1 l2 where r: "SQLAllocStmt lib (Some a) (o_lib d) = (st, l1)"
    "SQLExecDirect lib st (Some q) l1 = (False, l2)" "e = SQLGetDiagRec lib st l2"
    unfolding odbc_server_refuses_def by blast
  from odbc_sent[OF assms(1) r(1,2) assms(3)] obtain s where
    "query_sent (dbrelay_odbc_api lib garb) (Some a) database q fl d = Inr (False, o_put (Some a) s (d\<lparr>o_lib := l2\<rparr>))"
    "dbc s = Some a" "o_error_message s = take 254 e" unfolding r(3) by metis
  then show ?thesis
    by (auto simp: o_open_def o_put_def dbrelay_odbc_api_def dbrelay_odbc_error_def o_deref_def)
qed

text \<open>A handle that is let go has neither a statement nor a connection; its structure is never freed.\<close>

definition o_closed :: "nat \<Rightarrow> 'l odbc_state \<Rightarrow> bool" where
  "o_closed a d \<longleftrightarrow> (\<exists>s. o_structs d a = Some s \<and> dbc s = None \<and> stmt s = None)"

lemma odbc_closes:
  assumes "o_open a d"
  shows "\<exists>d1. let_go (dbrelay_odbc_api lib garb) (Some a) d = Inr d1 \<and> o_closed a d1"
proof -
  from assms obtain s where "o_structs d a = Some s" by (auto simp: o_open_def)
  then show ?thesis
    by (simp add: let_go_def dbrelay_odbc_api_def dbrelay_odbc_assign_request_def dbrelay_odbc_close_def
        o_deref_def o_closed_def o_put_def Let_def)
qed

lemma odbc_in_order: "o_open a d \<Longrightarrow> api_connected (dbrelay_odbc_api lib garb) (Some a) d = Inr True"
  by (auto simp: dbrelay_odbc_api_def dbrelay_odbc_connected_def o_open_def o_deref_def)

interpretation odbc: serving "dbrelay_odbc_api lib garb" a "o_holds lib a" "o_in_set lib a" "o_open a"
  "\<lambda>database q d ss. \<exists>sets. odbc_server_runs lib a q d sets \<and> ss = map o_shown_set sets"
  "\<lambda>database q d e. \<exists>m. odbc_server_refuses lib a q d m \<and> e = take 254 m" "o_closed a" for lib garb a
proof (unfold_locales, unfold o_calls)
  fix database q d ss fl
  assume "o_open a d" "\<exists>sets. odbc_server_runs lib a q d sets \<and> ss = map o_shown_set sets"
    "\<not> flag_set fl DBRELAY_FLAG_XACT"
  then show "\<exists>d1. query_sent (dbrelay_odbc_api lib garb) (Some a) database q fl d = Inr (True, d1) \<and>
      o_holds lib a d1 ss" using odbc_runs by blast
next
  fix database q d e fl
  assume "o_open a d" "\<exists>m. odbc_server_refuses lib a q d m \<and> e = take 254 m" "\<not> flag_set fl DBRELAY_FLAG_XACT"
  then show "\<exists>d1. query_sent (dbrelay_odbc_api lib garb) (Some a) database q fl d = Inr (False, d1) \<and>
      o_open a d1 \<and> api_error (dbrelay_odbc_api lib garb) (Some a) d1 = Inr e" using odbc_refusal by blast
qed (rule o_next_set o_last_set o_next_row o_last_row odbc_closes odbc_in_order; assumption |
  auto simp: odbc_server_runs_def)+

subsection \<open>Logging in\<close>

lemma odbc_connects:
  assumes "SQLConnect lib (o_next d) (sql_server r) (sql_user r) (sql_password r) (o_lib d) = (True, l)"
  shows "\<exists>d1. api_connect (dbrelay_odbc_api lib garb) r d = Inr (Some (o_next d), d1) \<and>
    o_open (o_next d) d1 \<and> o_lib d1 = l"
  using assms by (simp add: dbrelay_odbc_api_def dbrelay_odbc_connect_def Let_def o_put_def o_open_def)

text \<open>The diagnostic of a login that is refused is thrown away, and the null handle has no error.\<close>

lemma odbc_refuses_login:
  assumes "SQLConnect lib (o_next d) (sql_server r) (sql_user r) (sql_password r) (o_lib d) = (False, l)"
  shows "\<exists>d1. api_connect (dbrelay_odbc_api lib garb) r d = Inr (None, d1)"
    and "api_connected (dbrelay_odbc_api lib garb) None d1 = Inr False"
    and "api_error (dbrelay_odbc_api lib garb) None d1 = Inl Null_Deref"
  using assms by (simp_all add: dbrelay_odbc_api_def dbrelay_odbc_connect_def Let_def
      dbrelay_odbc_connected_def dbrelay_odbc_error_def o_deref_def)

subsection \<open>Properties\<close>

text \<open>C33.
  Only the end of the results ends the loop over them: when a query was executed, and every call
  for more results fails from then on, the query is never answered.
\<close>

theorem odbc_error_never_ends:
  assumes "o_structs d a = Some s" "\<not> flag_set fl DBRELAY_FLAG_EMBEDCSV" "\<not> flag_set fl DBRELAY_FLAG_XACT"
    and "SQLAllocStmt lib (dbc s) (o_lib d) = (st, l1)" "SQLExecDirect lib st (Some q) l1 = (True, l2)"
    and "\<And>l. fst (SQLMoreResults lib st l) = SQL_ERROR" "\<And>l. fst (SQLFetch lib st l) = False"
    and "\<And>l. \<exists>cs. o_describes lib st l cs"
  shows "dbrelay_exec_query (dbrelay_odbc_api lib garb) (Some a) database (Some q) fl d = None"
proof -
  let ?api = "dbrelay_odbc_api lib garb"
  let ?endless = "\<lambda>d. \<exists>s. o_structs d a = Some s \<and> stmt s = st"
  have "\<exists>d1 d2 cs n. api_has_results ?api (Some a) d = Inr (True, d1) \<and> shows_columns ?api (Some a) d1 cs \<and>
      api_fetch_row ?api (Some a) d1 = Inr (False, d2) \<and> api_rowcount ?api (Some a) d2 = Inr n \<and> ?endless d2"
    if "?endless d" for d
  proof -
    from that obtain t where t: "o_structs d a = Some t" "stmt t = st" by blast
    define d1 where "d1 = (if querying t then o_put (Some a) (t\<lparr>querying := False\<rparr>) d
      else d\<lparr>o_lib := snd (SQLMoreResults lib st (o_lib d))\<rparr>)"
    have "dbrelay_odbc_has_results lib (Some a) d = Inr (True, d1)"
      using t assms(6)[of "o_lib d"] by (cases "SQLMoreResults lib st (o_lib d)")
        (simp add: dbrelay_odbc_has_results_def o_deref_def d1_def)
    moreover obtain t1 where t1: "o_structs d1 a = Some t1" "stmt t1 = st"
      using t by (cases "querying t") (auto simp: d1_def o_put_def)
    then have "dbrelay_odbc_fetch_row lib (Some a) d1 = Inr (False, d1\<lparr>o_lib := snd (SQLFetch lib st (o_lib d1))\<rparr>)"
      using assms(7)[of "o_lib d1"] by (cases "SQLFetch lib st (o_lib d1)")
        (simp add: dbrelay_odbc_fetch_row_def o_deref_def)
    moreover obtain cs where "o_describes lib st (o_lib d1) cs" using assms(8) by blast
    then have "shows_columns ?api (Some a) d1 (map o_shown_column cs)"
      using t1 by (simp add: shows_columns_def dbrelay_odbc_api_def o_column_calls o_describes_def
          o_shown_column_def name_whole o_deref_def)
    moreover have "\<exists>n. dbrelay_odbc_rowcount lib (Some a) (d1\<lparr>o_lib := l\<rparr>) = Inr n" for l
      using t1 by (simp add: dbrelay_odbc_rowcount_def o_deref_def)
    moreover have "?endless (d1\<lparr>o_lib := l\<rparr>)" for l using t1 by simp
    ultimately show ?thesis unfolding o_calls by (simp add: dbrelay_odbc_api_def) blast
  qed
  then have never: "set_loop ?api (Some a) j d = None" if "?endless d" for j d
    using that by (rule set_loop_never)
  let ?d = "o_put (Some a) (s\<lparr>stmt := st, querying := True\<rparr>) (d\<lparr>o_lib := l2\<rparr>)"
  have "api_change_db ?api (Some a) database d = Inr (True, d)"
    by (simp add: dbrelay_odbc_api_def dbrelay_odbc_change_db_def)
  moreover have "api_exec ?api (Some a) (Some q) d = Inr (True, ?d)"
    using assms(1,4,5) by (simp add: dbrelay_odbc_api_def dbrelay_odbc_exec_def o_deref_def)
  moreover have "?endless ?d" by (simp add: o_put_def)
  ultimately show ?thesis using assms(2,3) never[of ?d]
    by (simp add: dbrelay_exec_query_def query_sent_def before_query_def exec_if_def dbrelay_db_fill_data_def Let_def)
qed

subsection \<open>Samples\<close>

type_synonym odbc_tape = "odbc_set list \<times> odbc_set \<times> string option list"

definition odbc_tape_lib :: "sql_return \<Rightarrow> odbc_tape odbclib" where
  "odbc_tape_lib fin = \<lparr>
     SQLConnect = (\<lambda>c s u pw l. (True, l)),
     SQLAllocStmt = (\<lambda>c l. (Some 9, l)),
     SQLExecDirect = (\<lambda>st q l. (True, l)),
     SQLMoreResults = (\<lambda>st l. case l of ([], cur) \<Rightarrow> (fin, l) | (s # ss, cur) \<Rightarrow> (SQL_SUCCESS, (ss, s, []))),
     SQLFetch = (\<lambda>st (ss, s, v). case o_rows s of [] \<Rightarrow> (False, (ss, s, v))
        | vs # vss \<Rightarrow> (True, (ss, s\<lparr>o_rows := vss\<rparr>, vs))),
     SQLNumResultCols = (\<lambda>st l. length (o_columns (fst (snd l)))),
     SQLDescribeCol = (\<lambda>st i l. o_columns (fst (snd l)) ! (i - 1)),
     SQLGetData = (\<lambda>st i l. snd (snd l) ! (i - 1)),
     SQLRowCount = (\<lambda>st l. o_count (fst (snd l))),
     SQLGetDiagRec = (\<lambda>st l. []),
     SQLFreeStmt = (\<lambda>st l. l),
     SQLDisconnect = (\<lambda>c l. l)\<rparr>"

definition sample_odbc_set :: odbc_set where
  "sample_odbc_set = \<lparr>o_columns = [\<lparr>o_name = ''t'', o_type = SQL_LONGVARCHAR, o_size = 1000, o_digits = 0\<rparr>],
     o_rows = [[Some (replicate 300 CHR ''x'')], [None]], o_count = 2\<rparr>"

definition sample_update :: odbc_set where
  "sample_update = \<lparr>o_columns = [], o_rows = [], o_count = 7\<rparr>"

definition fresh_odbc :: odbc_db where
  "fresh_odbc = \<lparr>dbc = Some 0, stmt = Some 77, querying = False, o_error_message = []\<rparr>"

definition sample_odbc :: "odbc_tape odbc_state" where
  "sample_odbc = \<lparr>o_lib = ([sample_odbc_set], sample_update, []), o_structs = [0 \<mapsto> fresh_odbc], o_next = 1\<rparr>"

lemma to_int_small: "- (2 ^ 31) \<le> n \<Longrightarrow> n < 2 ^ 31 \<Longrightarrow> to_int n = n"
  by (simp add: to_int_def signed_of_int signed_take_bit_int_eq_self)

lemma sample_odbc_fits: "set_fits (o_shown_set sample_odbc_set)" "set_fits (o_shown_set sample_update)"
  by (simp_all add: set_fits_def o_shown_set_def sample_odbc_set_def sample_update_def o_shown_column_def
      number_column_def dbrelay_is_unnamed_column_def value_fits_def to_int_small o_shown_row_def
      ODBC_BUF_SZ_def Let_def)

lemma odbc_tape_runs:
  assumes "o_lib d = ([sample_odbc_set], sample_update, [])"
  shows "odbc_server_runs (odbc_tape_lib SQL_NO_DATA) a q d [sample_update, sample_odbc_set]"
proof -
  let ?lib = "odbc_tape_lib SQL_NO_DATA"
  have 1: "SQLAllocStmt ?lib (Some a) (o_lib d) = (Some 9, o_lib d)"
    "SQLExecDirect ?lib (Some 9) (Some q) (o_lib d) = (True, o_lib d)"
    by (simp_all add: odbc_tape_lib_def)
  have 2: "o_lib_set ?lib (Some 9) (o_lib d) sample_update (o_lib d)"
    by (simp add: o_lib_set_def odbc_tape_lib_def assms sample_update_def o_describes_def)
  have 3: "o_lib_sets ?lib (Some 9) (o_lib d) [sample_odbc_set] ([], sample_odbc_set\<lparr>o_rows := []\<rparr>, [None])"
    by (simp add: o_lib_set_def odbc_tape_lib_def assms sample_odbc_set_def o_describes_def ODBC_BUF_SZ_def)
  have "list_all set_fits (map o_shown_set [sample_update, sample_odbc_set])" using sample_odbc_fits by simp
  with 1 2 3 show ?thesis unfolding odbc_server_runs_def by blast
qed

theorem odbc_error_never_ends_witness:
  "dbrelay_exec_query (dbrelay_odbc_api (odbc_tape_lib SQL_NO_DATA\<lparr>SQLMoreResults := \<lambda>st l. (SQL_ERROR, l),
      SQLFetch := \<lambda>st l. (False, l), SQLNumResultCols := \<lambda>st l. 0\<rparr>) fresh_odbc) (Some 0) ''db'' (Some ''go'') 0
      sample_odbc = None"
  using odbc_error_never_ends[of sample_odbc 0 fresh_odbc 0 "odbc_tape_lib SQL_NO_DATA\<lparr>SQLMoreResults := \<lambda>st l. (SQL_ERROR, l),
      SQLFetch := \<lambda>st l. (False, l), SQLNumResultCols := \<lambda>st l. 0\<rparr>" "Some 9" "o_lib sample_odbc" "''go''" "o_lib sample_odbc"]
  by (simp add: sample_odbc_def odbc_tape_lib_def flag_set_def o_describes_def)

end
