(* ===== verification/Stack.thy ===== *)
theory Stack
  imports Http_Module Mssql Mysql Odbc
begin

section \<open>From the HTTP request to the database and back\<close>

text \<open>
  The whole way of a query in a worker of its own: the query string or the body of a request, the request
  it is parsed into, the login, the slot in the table, the driver over its client library, the
  document, the response, and the end of the connection. The parts are the definitions of the
  theories before; nothing is modelled anew. What holds of every driver is proved once in the
  locale \<open>serving\<close>, and the properties are its facts for the three drivers.
\<close>

text \<open>Neither a command nor the status page, and none of the flags that change the document.\<close>

definition plain_query :: "dbrelay_request \<Rightarrow> bool" where
  "plain_query q \<longleftrightarrow> cmd q = [] \<and> status q = 0 \<and> \<not> flag_set (flags q) DBRELAY_FLAG_EMBEDCSV \<and>
     \<not> flag_set (flags q) DBRELAY_FLAG_PP \<and> \<not> flag_set (flags q) DBRELAY_FLAG_XACT"

lemma send_stored:
  assumes "carries env r kvs" "plain_query (stored env r kvs)"
    and "dbrelay_db_run_query (a_query (h_admin env)) (stored env r kvs) w = Some (Inr (reply, w'))"
    and "h_alloc env (length reply + 1)" "get_header_value (h_slack env) r ''Accept'' = Inr v"
  shows "ngx_http_dbrelay_send_response env r w = Some (Inr (Some \<lparr>content = reply,
      content_type = (if \<exists>h. v = Some h \<and> ''application/json'' \<in> set (strtok_all '','' h)
        then ''application/json'' else ''text/plain''),
      drop_keepalive = (http_keepalive (stored env r kvs) = 0)\<rparr>, w'))"
proof -
  have "dispatch env (stored env r kvs) w = Some (Inr (reply, w'))"
    using assms(2,3) by (simp add: dispatch_def plain_query_def)
  from send_carried[OF assms(1) this assms(4,5)] show ?thesis .
qed

text \<open>
  A request \<open>r\<close> that carries the pairs of a query \<open>q\<close>: its text \<open>qtext\<close> with the parameters \<open>ps\<close>, and
  \<open>newsql\<close> with the parameters substituted. There is memory for the reply.
\<close>

definition http_query ::
    "('d, 'w) http_env \<Rightarrow> ngx_request \<Rightarrow> dbrelay_request \<Rightarrow> string \<Rightarrow> string list \<Rightarrow> string \<Rightarrow> bool" where
  "http_query env r q qtext ps newsql \<longleftrightarrow>
     (\<exists>kvs v. carries env r kvs \<and> q = stored env r kvs \<and> get_header_value (h_slack env) r ''Accept'' = Inr v) \<and>
     plain_query q \<and> ready_to_run (a_query (h_admin env)) q qtext ps newsql \<and> (\<forall>n. h_alloc env n)"

lemma http_replied:
  assumes "http_query env r q qtext ps newsql"
    and "dbrelay_db_run_query (a_query (h_admin env)) q w = Some (Inr (reply, w'))"
  shows "\<exists>resp. ngx_http_dbrelay_send_response env r w = Some (Inr (Some resp, w')) \<and> content resp = reply"
proof -
  from assms(1) obtain kvs v where "carries env r kvs" "q = stored env r kvs" "plain_query q"
    "get_header_value (h_slack env) r ''Accept'' = Inr v" "\<forall>n. h_alloc env n" by (auto simp: http_query_def)
  with send_stored[of env r kvs w reply w' v] assms(2) show ?thesis by auto
qed

lemma http_crashed:
  assumes "http_query env r q qtext ps newsql" "dbrelay_db_run_query (a_query (h_admin env)) q w = Some (Inl e)"
  shows "ngx_http_dbrelay_send_response env r w = Some (Inl e)"
proof -
  from assms(1) obtain kvs where q: "carries env r kvs" "q = stored env r kvs" "plain_query q"
    by (auto simp: http_query_def)
  then have "dispatch env q w = Some (Inl e)" using assms(2) by (simp add: dispatch_def plain_query_def)
  with parse_carried[OF q(1)] q(2) show ?thesis
    by (simp add: ngx_http_dbrelay_send_response_def stored_def Let_def)
qed

lemma http_query_ready:
  assumes "http_query env r q qtext ps newsql"
  shows "ready_to_run (a_query (h_admin env)) q qtext ps newsql" "\<not> flag_set (flags q) DBRELAY_FLAG_EMBEDCSV"
    "\<not> flag_set (flags q) DBRELAY_FLAG_PP" "\<not> flag_set (flags q) DBRELAY_FLAG_XACT"
  using assms by (simp_all add: http_query_def plain_query_def)

subsection \<open>A worker with a connection of its own, for every driver\<close>

context serving
begin

lemma http_answered:
  assumes "http_query env r q qtext ps newsql" "own_connection (a_query (h_admin env)) q w pass i (Some a) d"
    and "q_api (a_query (h_admin env)) = api" "ready d" "runs (sql_database q) newsql d ss"
  shows "\<exists>resp w'. ngx_http_dbrelay_send_response env r w = Some (Inr (Some resp, w')) \<and>
    content resp = reply_text False q [(''data'', JArr (map set_tree ss)), (''log'', log_tree q qtext ps [])] \<and>
    own_query_done w pass i (Some a) (w_db w') w' \<and> closed (w_db w')"
proof -
  note q = http_query_ready[OF assms(1)]
  from own_answered[OF q(1) assms(2-5) q(2-4)] obtain w' where w':
    "dbrelay_db_run_query (a_query (h_admin env)) q w = Some (Inr (reply_text False q
      [(''data'', JArr (map set_tree ss)), (''log'', log_tree q qtext ps [])], w'))"
    "own_query_done w pass i (Some a) (w_db w') w'" "closed (w_db w')" by blast
  from http_replied[OF assms(1) w'(1)] w'(2,3) show ?thesis by blast
qed

lemma http_refused:
  assumes "http_query env r q qtext ps newsql" "own_connection (a_query (h_admin env)) q w pass i (Some a) d"
    and "q_api (a_query (h_admin env)) = api" "ready d" "refuses (sql_database q) newsql d e" "length e < 500"
  shows "\<exists>resp w'. ngx_http_dbrelay_send_response env r w = Some (Inr (Some resp, w')) \<and>
    content resp = reply_text True q [(''log'', log_tree q qtext ps e)] \<and>
    own_query_done w pass i (Some a) (w_db w') w' \<and> closed (w_db w')"
proof -
  note q = http_query_ready[OF assms(1)]
  from own_refused[OF q(1) assms(2-6) q(4)] obtain w' where w':
    "dbrelay_db_run_query (a_query (h_admin env)) q w = Some (Inr (reply_text True q
      [(''log'', log_tree q qtext ps e)], w'))"
    "own_query_done w pass i (Some a) (w_db w') w'" "closed (w_db w')" by blast
  from http_replied[OF assms(1) w'(1)] w'(2,3) show ?thesis by blast
qed

end

subsection \<open>Logins\<close>

text \<open>
  The first free slot \<open>i\<close> for a request of its own, whose sweep closes no handle; and the login
  that the client library accepts, with the handle it gives and the state of the driver then.
\<close>

definition quiet_slot :: "('d, 'w) http_env \<Rightarrow> dbrelay_request \<Rightarrow> ('d, 'w) world \<Rightarrow> pass \<Rightarrow> nat \<Rightarrow> bool" where
  "quiet_slot env q w pass i \<longleftrightarrow>
     own_slot (a_query (h_admin env)) q w pass i \<and> swept_events pass (w_table w) = []"

definition sql_server_accepts ::
    "'l dblib \<Rightarrow> dbrelay_request \<Rightarrow> 'l mssql_state \<Rightarrow> nat \<Rightarrow> nat \<Rightarrow> 'l mssql_state \<Rightarrow> bool" where
  "sql_server_accepts lib r d p a d1 \<longleftrightarrow> dbrelay_mssql_connect lib r d = Inr (Some a, d1) \<and>
     (\<exists>ms l d'. dbopen lib (login_of r) (sql_server r) (m_lib d) = (Some p, ms, l) \<and>
        handle_messages ms (d\<lparr>m_lib := l\<rparr>) = Inr d')"

definition mysql_accepts ::
    "'l mysqllib \<Rightarrow> dbrelay_request \<Rightarrow> 'l mysql_state \<Rightarrow> nat \<Rightarrow> 'l mysql_state \<Rightarrow> bool" where
  "mysql_accepts lib r d a d1 \<longleftrightarrow> dbrelay_mysql_connect lib r d = (Some a, d1)"

definition odbc_accepts ::
    "'l odbclib \<Rightarrow> odbc_db \<Rightarrow> dbrelay_request \<Rightarrow> 'l odbc_state \<Rightarrow> nat \<Rightarrow> 'l odbc_state \<Rightarrow> bool" where
  "odbc_accepts lib garb r d a d1 \<longleftrightarrow> dbrelay_odbc_connect lib garb r d = (Some a, d1)"

lemma quiet_own:
  assumes "quiet_slot env q w pass i" "api_connect (q_api (a_query (h_admin env))) q (w_db w) = Inr (h, d)"
  shows "own_connection (a_query (h_admin env)) q w pass i h d"
  using assms by (intro own_connectionI) (auto simp: quiet_slot_def)

lemma sql_server_login:
  assumes "sql_server_accepts lib r d p a d1"
  shows "m_ready a p d1" "api_connect (dbrelay_mssql_api lib stale) r d = Inr (Some a, d1)"
proof -
  from assms obtain ms l d' where c: "dbrelay_mssql_connect lib r d = Inr (Some a, d1)"
    "dbopen lib (login_of r) (sql_server r) (m_lib d) = (Some p, ms, l)"
    "handle_messages ms (d\<lparr>m_lib := l\<rparr>) = Inr d'" by (auto simp: sql_server_accepts_def)
  from mssql_connects[OF c(2,3)] obtain d2 where "dbrelay_mssql_connect lib r d = Inr (Some (m_next d), d2)"
    "m_ready (m_next d) p d2" by blast
  with c(1) show "m_ready a p d1" by simp
  show "api_connect (dbrelay_mssql_api lib stale) r d = Inr (Some a, d1)"
    using c(1) by (simp add: dbrelay_mssql_api_def)
qed

lemma mysql_login:
  assumes "mysql_accepts lib r d a d1"
  shows "y_ready a a d1" "api_connect (dbrelay_mysql_api lib stale) r d = Inr (Some a, d1)"
  using assms by (auto simp: mysql_accepts_def dbrelay_mysql_api_def dbrelay_mysql_connect_def Let_def
      y_put_def y_ready_def split: prod.splits if_splits)

lemma odbc_login:
  assumes "odbc_accepts lib garb r d a d1"
  shows "o_open a d1" "api_connect (dbrelay_odbc_api lib garb) r d = Inr (Some a, d1)"
  using assms by (auto simp: odbc_accepts_def dbrelay_odbc_api_def dbrelay_odbc_connect_def Let_def
      o_put_def o_open_def split: prod.splits if_splits)

subsection \<open>Properties\<close>


text \<open>C26.
  When SQL Server refuses the query, the request is answered with a document without results,
  in the error callback of the client, whose log holds every message of the server in its order,
  each on a line of its own; the connection ends as it does after an answer.
\<close>

theorem http_refused_query_over_sql_server:
  assumes "http_query env r q qtext ps newsql" "quiet_slot env q w pass i"
    and "q_api (a_query (h_admin env)) = dbrelay_mssql_api lib stale"
    and "sql_server_accepts lib q (w_db w) p a d"
    and "sql_server_refuses lib p (sql_database q) newsql d ms e" "length e < 500"
  shows "\<exists>resp w'. ngx_http_dbrelay_send_response env r w = Some (Inr (Some resp, w')) \<and>
    content resp = reply_text True q [(''log'', log_tree q qtext ps e)] \<and>
    own_query_done w pass i (Some a) (w_db w') w' \<and>
    m_structs (w_db w') a = None \<and> (\<exists>l. m_lib (w_db w') = dbclose lib p l)"
proof -
  note login = sql_server_login[OF assms(4)]
  from mssql.http_refused[OF assms(1) quiet_own[OF assms(2), unfolded assms(3), OF login(2)] assms(3) login(1)
      exI assms(6)] assms(5) show ?thesis by blast
qed

text \<open>C27.
  When SQL Server refuses the login, nothing is sent to it: the log holds what the driver kept of
  its messages, behind a hint when the request has no password, and cut to the array of the error;
  the slot is free again.
\<close>

theorem http_refused_login_over_sql_server:
  assumes "http_query env r q qtext ps newsql" "quiet_slot env q w pass i"
    and "q_api (a_query (h_admin env)) = dbrelay_mssql_api lib stale"
    and "dbopen lib (login_of q) (sql_server q) (m_lib (w_db w)) = (None, ms, l)"
    and "handle_messages ms ((w_db w)\<lparr>m_lib := l\<rparr>) = Inr d" "e = m_login_error d"
  shows "\<exists>resp w'. ngx_http_dbrelay_send_response env r w = Some (Inr (Some resp, w')) \<and>
    content resp = reply_text True q [(''log'', log_tree q qtext ps
      (if sql_password q = [] then no_password_error @ take (499 - length no_password_error) e
       else if e = [] then ''Connection failed.'' @ [NL] else take 499 e))] \<and>
    own_query_done w pass i None d w'"
proof -
  note login = mssql_refuses_login[OF assms(4,5)]
  have con: "api_connect (dbrelay_mssql_api lib stale) q (w_db w) = Inr (None, d)"
    "api_connected (dbrelay_mssql_api lib stale) None d = Inr False"
    using login(1) by (simp_all add: dbrelay_mssql_api_def dbrelay_mssql_connected_def)
  from login_refused[OF http_query_ready(1)[OF assms(1)] quiet_own[OF assms(2), unfolded assms(3), OF con(1)],
      unfolded assms(3), OF con(2) login(2)]
  obtain w' where w': "dbrelay_db_run_query (a_query (h_admin env)) q w = Some (Inr (reply_text True q
      [(''log'', log_tree q qtext ps
        (if sql_password q = [] then no_password_error @ take (499 - length no_password_error) e
         else if e = [] then ''Connection failed.'' @ [NL] else take 499 e))], w'))"
    "own_query_done w pass i None d w'" unfolding assms(6) by blast
  from http_replied[OF assms(1) w'(1)] w'(2) show ?thesis by blast
qed

text \<open>C29.
  The same query in a worker with the MySQL driver: the results are those the client library stores,
  one after the other, with the types by name and lengths as the 32 bits of an int; at the end the
  connection is closed, and the slot is free again.
\<close>

theorem http_query_over_mysql:
  assumes "http_query env r q qtext ps newsql" "quiet_slot env q w pass i"
    and "q_api (a_query (h_admin env)) = dbrelay_mysql_api lib stale"
    and "mysql_accepts lib q (w_db w) a d" "mysql_server_runs lib stale a (sql_database q) newsql d qs"
  shows "\<exists>resp w'. ngx_http_dbrelay_send_response env r w = Some (Inr (Some resp, w')) \<and>
    content resp = reply_text False q
      [(''data'', JArr (map (\<lambda>s. set_tree (y_shown_set stale s)) qs)), (''log'', log_tree q qtext ps [])] \<and>
    own_query_done w pass i (Some a) (w_db w') w' \<and> (\<exists>l. y_lib (w_db w') = lib_close lib a l)"
proof -
  note login = mysql_login[OF assms(4)]
  from mysql.http_answered[OF assms(1) quiet_own[OF assms(2), unfolded assms(3), OF login(2)] assms(3) login(1)]
    assms(5) show ?thesis by (fastforce simp: comp_def)
qed

text \<open>C30.
  And in a worker with the ODBC driver: the first result set is there without a call for more, a
  statement without columns is a set of its own, and values are cut at 255 bytes; at the end neither
  the statement nor the connection is left, and the slot is free again.
\<close>

theorem http_query_over_odbc:
  assumes "http_query env r q qtext ps newsql" "quiet_slot env q w pass i"
    and "q_api (a_query (h_admin env)) = dbrelay_odbc_api lib garb"
    and "odbc_accepts lib garb q (w_db w) a d" "odbc_server_runs lib a newsql d sets"
  shows "\<exists>resp w'. ngx_http_dbrelay_send_response env r w = Some (Inr (Some resp, w')) \<and>
    content resp = reply_text False q
      [(''data'', JArr (map (\<lambda>s. set_tree (o_shown_set s)) sets)), (''log'', log_tree q qtext ps [])] \<and>
    own_query_done w pass i (Some a) (w_db w') w' \<and> o_closed a (w_db w')"
proof -
  note login = odbc_login[OF assms(4)]
  from odbc.http_answered[OF assms(1) quiet_own[OF assms(2), unfolded assms(3), OF login(2)] assms(3) login(1)]
    assms(5) show ?thesis by (fastforce simp: comp_def)
qed

text \<open>C28.
  A request whose login the MySQL server refuses, say for a wrong password, kills the worker that
  serves it: to report the failure, the query code asks the driver for the error of the null handle
  that the login gave, and the driver reads through it.
\<close>

theorem http_failed_login_kills_mysql_worker:
  assumes "http_query env r q qtext ps newsql" "quiet_slot env q w pass i"
    and "q_api (a_query (h_admin env)) = dbrelay_mysql_api lib stale"
    and "lib_init lib (y_lib (w_db w)) = (True, l1)"
    and "lib_real_connect lib (y_next (w_db w)) (sql_server q) (sql_user q)
      (if sql_password q \<noteq> [] then Some (sql_password q) else None) l1 = (False, l2)"
  shows "ngx_http_dbrelay_send_response env r w = Some (Inl Null_Deref)"
proof -
  from mysql_refuses_login(1)[OF assms(4,5)] obtain d where
    con: "api_connect (dbrelay_mysql_api lib stale) q (w_db w) = Inr (None, d)" by blast
  from login_crash[OF http_query_ready(1)[OF assms(1)] quiet_own[OF assms(2), unfolded assms(3), OF con],
      unfolded assms(3), OF mysql_refuses_login(2,3)[OF assms(4,5)]]
  show ?thesis by (rule http_crashed[OF assms(1)])
qed

text \<open>The ODBC driver does the same with every login that is refused.\<close>

lemma http_failed_login_kills_odbc_worker:
  assumes "http_query env r q qtext ps newsql" "quiet_slot env q w pass i"
    and "q_api (a_query (h_admin env)) = dbrelay_odbc_api lib garb"
    and "SQLConnect lib (o_next (w_db w)) (sql_server q) (sql_user q) (sql_password q) (o_lib (w_db w)) = (False, l)"
  shows "ngx_http_dbrelay_send_response env r w = Some (Inl Null_Deref)"
proof -
  from odbc_refuses_login(1)[OF assms(4)] obtain d where
    con: "api_connect (dbrelay_odbc_api lib garb) q (w_db w) = Inr (None, d)" by blast
  from login_crash[OF http_query_ready(1)[OF assms(1)] quiet_own[OF assms(2), unfolded assms(3), OF con],
      unfolded assms(3), OF odbc_refuses_login(2,3)[OF assms(4)]]
  show ?thesis by (rule http_crashed[OF assms(1)])
qed

subsection \<open>Samples\<close>

text \<open>A worker with some driver, in the state \<open>d\<close> of its client library.\<close>

definition worker_env :: "'d dbapi \<Rightarrow> ('d, unit) http_env" where
  "worker_env api = \<lparr>
     h_admin = \<lparr>a_query = \<lparr>q_magic = [], q_passes = [sample_pass], q_api = api,
         q_channel = (\<lambda>s. broken_channel), q_garbage = [], q_end = sample_env 300\<rparr>,
       a_calls = sample_calls, a_dead = (\<lambda>p. False)\<rparr>,
     h_unescape = percent_decode, h_stack = replicate 4000 CHR ''x'', h_heap = (\<lambda>n. replicate n CHR ''x''),
     h_slack = (\<lambda>n. 8), h_time = (\<lambda>n. ''now''), h_build = ''1'', h_key = 7, h_alloc = (\<lambda>n. True)\<rparr>"

definition worker_world :: "'d \<Rightarrow> ('d, unit) world" where
  "worker_world d = \<lparr>w_table = empty_table, w_db = d, w_wire = (), w_events = []\<rparr>"

definition query_pairs :: "(string \<times> string) list" where
  "query_pairs = [(''sql_server'', ''db1''), (''sql_user'', ''me''), (''sql'', ''select+1'')]"

text \<open>The query in the address, and in a body that is cut in the middle of a value.\<close>

definition sample_get :: ngx_request where
  "sample_get = sample_page\<lparr>args := query_text query_pairs\<rparr>"

definition sample_post :: ngx_request where
  "sample_post = sample_page\<lparr>r_method := POST,
     body := In_Memory [take 25 (query_text query_pairs), drop 25 (query_text query_pairs)]\<rparr>"

lemma worker_env_simps:
  "h_unescape (worker_env api) = percent_decode" "h_stack (worker_env api) = replicate 4000 CHR ''x''"
  "h_slack (worker_env api) = (\<lambda>n. 8)" "h_alloc (worker_env api) n"
  "h_heap (worker_env api) = (\<lambda>n. replicate n CHR ''x'')"
  "q_api (a_query (h_admin (worker_env api))) = api"
  "q_passes (a_query (h_admin (worker_env api))) = [sample_pass]"
  "q_magic (a_query (h_admin (worker_env api))) = []"
  by (simp_all add: worker_env_def)

lemma query_carried:
  "carries (worker_env api) sample_get query_pairs" "carries (worker_env api) sample_post query_pairs"
  using percent_decode_shrinking
  by (simp_all add: carries_def sample_get_def sample_post_def sample_page_def worker_env_simps query_pairs_def
      pair_ok_def plain_def KEY_SZ_def GET_VALUE_SZ_def decode_value_def unplus_def is_eol_def no_eol_end_def)

definition stored_sample :: dbrelay_request where
  "stored_sample = dbrelay_alloc_request
     \<lparr>sql_server := ''db1'', sql_user := ''me'', sql := Some ''select 1'', remote_addr := ''10.0.0.1''\<rparr>"

lemma sample_stored:
  "stored (worker_env api) sample_get query_pairs = stored_sample"
  "stored (worker_env api) sample_post query_pairs = stored_sample"
  by (simp_all add: stored_sample_def stored_def sample_get_def sample_post_def sample_page_def worker_env_simps
      query_pairs_def store_all_def write_value_def decode_value_def unplus_def store_value_def
      dbrelay_copy_string_def DBRELAY_OBJ_SZ_def DBRELAY_NAME_SZ_def cstr_def)

lemma sample_accepts:
  "r = sample_get \<or> r = sample_post \<Longrightarrow>
    get_header_value (h_slack (worker_env api)) r ''Accept'' = Inr (Some ''text/html,application/json'')"
  by (elim disjE) (simp_all add: worker_env_simps sample_get_def sample_post_def sample_page_simps cstr_def)

lemma sample_http_query:
  assumes "r = sample_get \<or> r = sample_post"
  shows "http_query (worker_env api) r stored_sample ''select 1'' [] ''select 1''"
proof -
  note req = dbrelay_alloc_request_def zero_request_def
  have none: "replicate DBRELAY_MAX_PARAMS (None :: string option) = None # replicate 99 None"
    by (simp add: DBRELAY_MAX_PARAMS_def numeral_eq_Suc)
  have "ready_to_run (a_query (h_admin (worker_env api))) stored_sample ''select 1'' [] ''select 1''"
    by (simp add: ready_to_run_def stored_sample_def worker_env_simps req dbrelay_check_request_def
        dbrelay_resolve_params_def none flag_set_def cstr_def Let_def)
  moreover have "plain_query stored_sample" by (simp add: plain_query_def stored_sample_def req flag_set_def)
  moreover have "carries (worker_env api) r query_pairs \<and> stored_sample = stored (worker_env api) r query_pairs"
    using assms query_carried sample_stored by metis
  ultimately show ?thesis using sample_accepts[OF assms] worker_env_simps(4) unfolding http_query_def by blast
qed

lemma worker_slot: "connection_name q = [] \<Longrightarrow> quiet_slot (worker_env api) q (worker_world d) sample_pass 0"
  unfolding quiet_slot_def
  by (simp add: worker_world_def empty_swept)
    (simp add: own_slot_def worker_env_simps sample_pass_def env_ok_def
      sample_env_def fits_def size_defs DBRELAY_HARD_TIMEOUT_def)

lemma sample_slot_quiet: "quiet_slot (worker_env api) stored_sample (worker_world d) sample_pass 0"
  by (rule worker_slot) (simp add: stored_sample_def dbrelay_alloc_request_def zero_request_def)

lemma worker_world_simps [simp]: "w_db (worker_world d) = d" "w_table (worker_world d) = empty_table"
  by (simp_all add: worker_world_def)

definition own_mssql :: "tape mssql_state" where
  "own_mssql = sample_mssql\<lparr>m_structs := (\<lambda>a. None), m_user := (\<lambda>p. None)\<rparr>"

text \<open>The state of the driver after the login.\<close>

definition logged_mssql :: "dbrelay_request \<Rightarrow> tape mssql_state" where
  "logged_mssql r = own_mssql\<lparr>m_structs := [1 \<mapsto> \<lparr>login = login_of r, dbproc = Some 3,
       colval = replicate MSSQL_MAX_COLUMNS None, colnull = replicate MSSQL_MAX_COLUMNS 0\<rparr>],
     m_next := 2, m_user := [3 \<mapsto> error_message r]\<rparr>"

lemma tape_accepts:
  "sql_server_accepts (tape_lib ok ms) r (w_db (worker_world own_mssql)) 3 1 (logged_mssql r)"
  by (simp add: sql_server_accepts_def tape_calls mssql_connect_login own_mssql_def logged_mssql_def
      sample_mssql_def m_put_def)

lemma logged_tape: "m_lib (logged_mssql r) = ([sample_sql_set], \<lparr>q_columns = [], q_rows = [], q_count = 0\<rparr>)"
  by (simp add: logged_mssql_def own_mssql_def sample_mssql_def)


theorem http_refused_query_over_sql_server_witness:
  "\<exists>resp w'. ngx_http_dbrelay_send_response (worker_env (dbrelay_mssql_api (tape_lib False [(Some 3, 102, ''syntax'')]) []))
      sample_post (worker_world own_mssql) = Some (Inr (Some resp, w')) \<and>
    content resp = reply_text True stored_sample [(''log'', log_tree stored_sample ''select 1'' [] (NL # ''syntax''))]"
proof -
  let ?ms = "[(Some 3, 102, ''syntax'')]"
  have r: "sample_post = sample_get \<or> sample_post = sample_post" by simp
  have refuses: "sql_server_refuses (tape_lib False ?ms) 3 (sql_database stored_sample) ''select 1''
      (logged_mssql stored_sample) ?ms (NL # ''syntax'')"
    unfolding sql_server_refuses_def tape_calls
    by (auto simp: ERROR_MESSAGE_SZ_def logged_mssql_def stored_sample_def dbrelay_alloc_request_def zero_request_def)
  from http_refused_query_over_sql_server[OF sample_http_query[OF r] sample_slot_quiet worker_env_simps(6)
      tape_accepts refuses, where stale = "[]"]
  show ?thesis by (fastforce simp del: render.simps)
qed

definition closed_lib :: "tape dblib" where
  "closed_lib = (tape_lib True [])\<lparr>dbopen := (\<lambda>lg s l. (None, [(Some 5, 18456, ''denied'')], l))\<rparr>"

theorem http_refused_login_over_sql_server_witness:
  "\<exists>resp w'. ngx_http_dbrelay_send_response (worker_env (dbrelay_mssql_api closed_lib [])) sample_get
      (worker_world own_mssql) = Some (Inr (Some resp, w')) \<and>
    content resp = reply_text True stored_sample [(''log'', log_tree stored_sample ''select 1'' []
      (no_password_error @ ''denied''))]"
proof -
  have r: "sample_get = sample_get \<or> sample_get = sample_post" by simp
  have 1: "dbopen closed_lib lg s l = (None, [(Some 5, 18456, ''denied'')], l)" for lg s l by (simp add: closed_lib_def)
  have 2: "handle_messages [(Some 5, 18456, ''denied'')] ((w_db (worker_world own_mssql))\<lparr>m_lib := l\<rparr>) =
      Inr (own_mssql\<lparr>m_lib := l, m_login_error := ''denied'', m_login_msgno := 18456\<rparr>)" for l
    by (simp add: own_mssql_def sample_mssql_def into_array_def LOGIN_ERROR_SZ_def)
  have pw: "sql_password stored_sample = []"
    by (simp add: stored_sample_def dbrelay_alloc_request_def zero_request_def)
  have e: "no_password_error @ take (499 - length no_password_error) ''denied'' = no_password_error @ ''denied''"
    by (simp add: no_password_error_def)
  from http_refused_login_over_sql_server[OF sample_http_query[OF r] sample_slot_quiet worker_env_simps(6) 1 2 refl,
      where stale = "[]"]
  have "\<exists>resp w'. ngx_http_dbrelay_send_response (worker_env (dbrelay_mssql_api closed_lib [])) sample_get
      (worker_world own_mssql) = Some (Inr (Some resp, w')) \<and>
    content resp = reply_text True stored_sample [(''log'', log_tree stored_sample ''select 1'' []
      (no_password_error @ take (499 - length no_password_error) ''denied''))]"
    by (simp add: pw) blast
  then show ?thesis unfolding e .
qed

definition own_mysql :: "mysql_tape mysql_state" where
  "own_mysql = sample_mysql\<lparr>y_structs := (\<lambda>a. None)\<rparr>"

theorem http_query_over_mysql_witness:
  "\<exists>resp w'. ngx_http_dbrelay_send_response (worker_env (dbrelay_mysql_api (mysql_tape_lib 0) [])) sample_get
      (worker_world own_mysql) = Some (Inr (Some resp, w')) \<and>
    content resp = reply_text False stored_sample
      [(''data'', JArr [set_tree (y_shown_set [] sample_mysql_set)]),
       (''log'', log_tree stored_sample ''select 1'' [] [])]"
proof -
  have r: "sample_get = sample_get \<or> sample_get = sample_post" by simp
  let ?d = "own_mysql\<lparr>y_structs := [1 \<mapsto> \<lparr>mysql = 1, result = None, cur_row = None\<rparr>], y_next := 2\<rparr>"
  have 1: "mysql_accepts (mysql_tape_lib 0) stored_sample (w_db (worker_world own_mysql)) 1 ?d"
    by (simp add: mysql_accepts_def dbrelay_mysql_connect_def mysql_tape_lib_def own_mysql_def sample_mysql_def y_put_def)
  have "y_lib ?d = ([sample_mysql_set], \<lparr>y_fields = [], y_rows = [], y_count = 0\<rparr>)"
    by (simp add: own_mysql_def sample_mysql_def)
  from http_query_over_mysql[OF sample_http_query[OF r] sample_slot_quiet worker_env_simps(6) 1 mysql_tape_runs[OF this]]
  show ?thesis by (auto simp del: render.simps)
qed

definition own_odbc :: "odbc_tape odbc_state" where
  "own_odbc = sample_odbc\<lparr>o_structs := (\<lambda>a. None)\<rparr>"

theorem http_query_over_odbc_witness:
  "\<exists>resp w'. ngx_http_dbrelay_send_response (worker_env (dbrelay_odbc_api (odbc_tape_lib SQL_NO_DATA) fresh_odbc)) sample_post
      (worker_world own_odbc) = Some (Inr (Some resp, w')) \<and>
    content resp = reply_text False stored_sample
      [(''data'', JArr [set_tree (o_shown_set sample_update), set_tree (o_shown_set sample_odbc_set)]),
       (''log'', log_tree stored_sample ''select 1'' [] [])]"
proof -
  have r: "sample_post = sample_get \<or> sample_post = sample_post" by simp
  let ?d = "own_odbc\<lparr>o_structs := [1 \<mapsto> fresh_odbc\<lparr>dbc := Some 1\<rparr>], o_next := 2\<rparr>"
  have 1: "odbc_accepts (odbc_tape_lib SQL_NO_DATA) fresh_odbc stored_sample (w_db (worker_world own_odbc)) 1 ?d"
    by (simp add: odbc_accepts_def dbrelay_odbc_connect_def odbc_tape_lib_def own_odbc_def sample_odbc_def o_put_def)
  have "o_lib ?d = ([sample_odbc_set], sample_update, [])" by (simp add: own_odbc_def sample_odbc_def)
  from http_query_over_odbc[OF sample_http_query[OF r] sample_slot_quiet worker_env_simps(6) 1 odbc_tape_runs[OF this]]
  show ?thesis by (auto simp del: render.simps)
qed

definition closed_mysql :: "mysql_tape mysqllib" where
  "closed_mysql = (mysql_tape_lib 0)\<lparr>lib_real_connect := (\<lambda>m s u pw l. (False, l))\<rparr>"

theorem http_failed_login_kills_mysql_worker_witness:
  "ngx_http_dbrelay_send_response (worker_env (dbrelay_mysql_api closed_mysql [])) sample_get
      (worker_world own_mysql) = Some (Inl Null_Deref)"
proof -
  have r: "sample_get = sample_get \<or> sample_get = sample_post" by simp
  have lib: "lib_init closed_mysql l = (True, l)" "lib_real_connect closed_mysql m s u pw l = (False, l)" for l m s u pw
    by (simp_all add: closed_mysql_def mysql_tape_lib_def)
  show ?thesis
    by (rule http_failed_login_kills_mysql_worker[OF sample_http_query[OF r] sample_slot_quiet worker_env_simps(6) lib])
qed

end
