(* ===== verification/Shared_Stack.thy ===== *)
theory Shared_Stack
  imports System Stack
begin

section \<open>From the HTTP request through a connector to the database\<close>

text \<open>
  The other way of a query: a request with a connection name, the slot in the shared table, the
  socket, the connector process with its driver, and back. As in \<open>Stack\<close>, the parts are the
  definitions of the theories before, and what holds of every driver is proved in its locale.
\<close>

subsection \<open>A connector, for every driver\<close>

context serving
begin

lemma connector_answers:
  assumes "peer_api p = api" "conn_db k = Some a" "ready (dbstate k)" "runs (sql_database r) q (dbstate k) ss"
    and "\<not> flag_set (flags r) DBRELAY_FLAG_XACT"
  shows "answers p r q k ss"
proof -
  from run_sent[OF assms(3-5)] obtain d1 where d1:
    "query_sent api (Some a) (sql_database r) q (flags r) (dbstate k) = Inr (True, d1)" "holds d1 ss" by blast
  from all_delivered[OF d1(2)] obtain d2 where "delivers api (Some a) d1 ss d2" by blast
  with d1(1) run_fits[OF assms(4)] assms(1,2,5) show ?thesis by (auto simp: answers_def exec_if_def)
qed

lemma connector_rejects:
  assumes "peer_api p = api" "conn_db k = Some a" "ready (dbstate k)" "refuses (sql_database r) q (dbstate k) e"
    and "\<not> flag_set (flags r) DBRELAY_FLAG_XACT"
  shows "rejects p r q k e"
proof -
  from refusal_sent[OF assms(3-5)] obtain d1 where
    "query_sent api (Some a) (sql_database r) q (flags r) (dbstate k) = Inr (False, d1)"
    "api_error api (Some a) d1 = Inr e" by blast
  with assms(1,2,5) show ?thesis by (auto simp: rejects_def exec_if_def)
qed

lemma http_shared_answered:
  assumes "http_query env r q qtext ps newsql" "shared_connection (a_query (h_admin env)) q w c s t ev d"
    and "served_by (a_query (h_admin env)) w s p k" "sendable q" "sql_lines_ok (qtext @ [NL])"
    and "peer_api p = api" "relayed p q qtext k = Inr k1" "conn_db k1 = Some a" "ready (dbstate k1)"
    and "runs (sql_database q) (qtext @ [NL]) (dbstate k1) ss"
    and "NL \<notin> set (results_text ss)" "carried (results_text ss)"
  shows "\<exists>resp w'. ngx_http_dbrelay_send_response env r w = Some (Inr (Some resp, w')) \<and>
    content resp = reply_text False q [(''data'', JArr (map set_tree ss)), (''log'', log_tree q qtext ps [])] \<and>
    shared_query_done (a_query (h_admin env)) w p c t ev d w'"
proof -
  note q = http_query_ready[OF assms(1)]
  note answer = connector_answers[OF assms(6,8-10) q(4)]
  from query_shared_results[OF q(1) assms(2-5) q(2,3) assms(7) answer assms(11,12)] obtain w' where
    w': "dbrelay_db_run_query (a_query (h_admin env)) q w = Some (Inr (reply_text False q
      [(''data'', JArr (map set_tree ss)), (''log'', log_tree q qtext ps [])], w'))"
    "shared_query_done (a_query (h_admin env)) w p c t ev d w'" by blast
  from http_replied[OF assms(1) w'(1)] w'(2) show ?thesis by blast
qed

lemma http_shared_refused:
  assumes "http_query env r q qtext ps newsql" "shared_connection (a_query (h_admin env)) q w c s t ev d"
    and "served_by (a_query (h_admin env)) w s p k" "sendable q" "sql_lines_ok (qtext @ [NL])"
    and "peer_api p = api" "relayed p q qtext k = Inr k1" "conn_db k1 = Some a" "ready (dbstate k1)"
    and "refuses (sql_database q) (qtext @ [NL]) (dbstate k1) e" "carried e"
  shows "\<exists>resp w'. ngx_http_dbrelay_send_response env r w = Some (Inr (Some resp, w')) \<and>
    content resp = reply_text True q [(''log'', log_tree q qtext ps (dbrelay_copy_string (joined e) ERROR_STRING_SZ))] \<and>
    shared_query_done (a_query (h_admin env)) w p c t ev d w'"
proof -
  note q = http_query_ready[OF assms(1)]
  note reject = connector_rejects[OF assms(6,8-10) q(4)]
  from query_shared_error[OF q(1) assms(2-5,7) reject assms(11)] obtain w' where
    w': "dbrelay_db_run_query (a_query (h_admin env)) q w = Some (Inr (reply_text True q
      [(''log'', log_tree q qtext ps (dbrelay_copy_string (joined e) ERROR_STRING_SZ))], w'))"
    "shared_query_done (a_query (h_admin env)) w p c t ev d w'" by blast
  from http_replied[OF assms(1) w'(1)] w'(2) show ?thesis by blast
qed

end

subsection \<open>Properties\<close>

text \<open>
  The connector behind the descriptor has the SQL Server driver, and is in order, with the process
  \<open>pr\<close>, once it has taken the request and logged in, if it had not before: then it is \<open>k1\<close>.
\<close>

definition sql_server_peer ::
    "'l dblib \<Rightarrow> string \<Rightarrow> nat \<Rightarrow> 'l mssql_state peer \<Rightarrow> dbrelay_request \<Rightarrow> string \<Rightarrow>
     'l mssql_state connector \<Rightarrow> 'l mssql_state connector \<Rightarrow> bool" where
  "sql_server_peer lib stale pr p r qtext k k1 \<longleftrightarrow> peer_api p = dbrelay_mssql_api lib stale \<and>
     relayed p r qtext k = Inr k1 \<and> (\<exists>a. conn_db k1 = Some a \<and> m_ready a pr (dbstate k1))"



subsection \<open>A sample\<close>

definition sql_peer :: "bool \<Rightarrow> dbmessage list \<Rightarrow> tape mssql_state peer" where
  "sql_peer ok ms = \<lparr>peer_api = dbrelay_mssql_api (tape_lib ok ms) [], peer_pid = 4711, peer_arg = [], peer_flag = []\<rparr>"

definition sql_connector :: "tape mssql_state connector" where
  "sql_connector = \<lparr>c_request = zero_request, timeout_str = [], receive_sql = False,
     sb_sql = None, conn_db = Some 0, conn_connected = True, dbstate = sample_mssql\<rparr>"

definition shared_env :: "bool \<Rightarrow> dbmessage list \<Rightarrow> (memory_db, tape mssql_state session) http_env" where
  "shared_env ok ms = \<lparr>
     h_admin = \<lparr>a_query = \<lparr>q_magic = [], q_passes = [sample_pass], q_api = memory_api,
         q_channel = (\<lambda>s. session_channel (sql_peer ok ms) byte_by_byte), q_garbage = [], q_end = sample_env 300\<rparr>,
       a_calls = sample_calls, a_dead = (\<lambda>p. False)\<rparr>,
     h_unescape = percent_decode, h_stack = replicate 4000 CHR ''x'', h_heap = (\<lambda>n. replicate n CHR ''x''),
     h_slack = (\<lambda>n. 8), h_time = (\<lambda>n. ''now''), h_build = ''1'', h_key = 7, h_alloc = (\<lambda>n. True)\<rparr>"

definition shared_world :: "(memory_db, tape mssql_state session) world" where
  "shared_world = \<lparr>w_table = empty_table, w_db = ([], no_set, []), w_wire = idle sql_connector, w_events = []\<rparr>"

definition shared_pairs :: "(string \<times> string) list" where
  "shared_pairs = (''connection_name'', ''shared'') # query_pairs"

definition shared_get :: ngx_request where
  "shared_get = sample_page\<lparr>args := query_text shared_pairs\<rparr>"

lemma shared_env_simps:
  "h_unescape (shared_env ok ms) = percent_decode" "h_stack (shared_env ok ms) = replicate 4000 CHR ''x''"
  "h_slack (shared_env ok ms) = (\<lambda>n. 8)" "h_alloc (shared_env ok ms) n" "q_passes (a_query (h_admin (shared_env ok ms))) = [sample_pass]"
  "q_magic (a_query (h_admin (shared_env ok ms))) = []"
  by (simp_all add: shared_env_def)

lemma shared_get_request: "carries (shared_env ok ms) shared_get shared_pairs"
  using percent_decode_shrinking
  by (simp add: carries_def shared_get_def sample_page_def shared_env_simps shared_pairs_def query_pairs_def
      pair_ok_def plain_def KEY_SZ_def GET_VALUE_SZ_def decode_value_def unplus_def is_eol_def)

lemma shared_stored:
  "stored (shared_env ok ms) shared_get shared_pairs = dbrelay_alloc_request
     \<lparr>connection_name := ''shared'', sql_server := ''db1'', sql_user := ''me'', sql := Some ''select 1'',
      remote_addr := ''10.0.0.1''\<rparr>"
  by (simp add: stored_def shared_get_def sample_page_def shared_env_simps shared_pairs_def query_pairs_def
      store_all_def write_value_def decode_value_def unplus_def store_value_def dbrelay_copy_string_def
      DBRELAY_OBJ_SZ_def DBRELAY_NAME_SZ_def cstr_def)

lemma sql_text:
  "list_all (\<lambda>c. c \<noteq> NL \<and> c \<noteq> NUL) (results_text [shown_set [] sample_sql_set])"
  "length (results_text [shown_set [] sample_sql_set]) < 1000" "take 1 (results_text [shown_set [] sample_sql_set]) = [DQ]"
  by code_simp+

lemma one_line_ok:
  assumes "list_all (\<lambda>c. c \<noteq> NL \<and> c \<noteq> NUL) s" "length s < 1000" "take 1 s = [DQ]"
  shows "NL \<notin> set s" "c_string s" "reply_lines_ok (s @ [NL])"
proof -
  have all: "\<forall>c\<in>set s. c \<noteq> NL \<and> c \<noteq> NUL" using assms(1) by (simp only: list_all_iff)
  then show n: "NL \<notin> set s" by blast
  from all show "c_string s" unfolding c_string_def by blast
  have "line_ok s" using n assms(2) by (simp add: line_ok_def size_defs)
  moreover have "\<not> control_line s" using assms(3)
    unfolding control_line_def by (cases s) simp_all
  ultimately show "reply_lines_ok (s @ [NL])" by (rule reply_line_ok)
qed

lemma sql_relayed:
  obtains k1 where "relayed (sql_peer ok ms) r q sql_connector = Inr k1" "conn_db k1 = Some 0" "dbstate k1 = sample_mssql"
  by (simp add: relayed_def ready_def connect_once_def relay_sql_def relay_options_def sql_connector_def)

definition shared_request :: dbrelay_request where
  "shared_request = dbrelay_alloc_request
     \<lparr>connection_name := ''shared'', sql_server := ''db1'', sql_user := ''me'', sql := Some ''select 1'',
      remote_addr := ''10.0.0.1''\<rparr>"

lemmas shared_request_defs = shared_request_def dbrelay_alloc_request_def zero_request_def

lemma shared_http_query: "http_query (shared_env ok ms) shared_get shared_request ''select 1'' [] ''select 1''"
proof -
  have none: "replicate DBRELAY_MAX_PARAMS (None :: string option) = None # replicate 99 None"
    by (simp add: DBRELAY_MAX_PARAMS_def numeral_eq_Suc)
  have "ready_to_run (a_query (h_admin (shared_env ok ms))) shared_request ''select 1'' [] ''select 1''"
    by (simp add: ready_to_run_def shared_env_simps shared_request_defs dbrelay_check_request_def
        dbrelay_resolve_params_def none flag_set_def cstr_def Let_def)
  moreover have "plain_query shared_request" by (simp add: plain_query_def shared_request_defs flag_set_def)
  moreover have "shared_request = stored (shared_env ok ms) shared_get shared_pairs"
    by (simp add: shared_stored shared_request_def)
  moreover have "get_header_value (h_slack (shared_env ok ms)) shared_get ''Accept'' = Inr (Some ''text/html,application/json'')"
    by (simp add: shared_env_simps shared_get_def sample_page_simps cstr_def)
  ultimately show ?thesis using shared_get_request shared_env_simps(4) unfolding http_query_def by blast
qed

lemma shared_facts:
  "served_by (a_query (h_admin (shared_env ok ms))) shared_world 5 (sql_peer ok ms) sql_connector"
  "sendable shared_request" "sql_lines_ok (''select 1'' @ [NL])"
  "\<exists>k1. sql_server_peer (tape_lib ok ms) [] 3 (sql_peer ok ms) shared_request ''select 1'' sql_connector k1 \<and>
     dbstate k1 = sample_mssql"
proof -
  show "served_by (a_query (h_admin (shared_env ok ms))) shared_world 5 (sql_peer ok ms) sql_connector"
    using byte_by_byte_ok by (auto simp: served_by_def shared_env_def shared_world_def sql_connector_def sql_peer_def)
  have "request_wf shared_request"
    by (simp add: request_wf_def shared_request_defs fits_def size_defs list_all_iff)
  then show "sendable shared_request" by (simp add: sendable_def shared_request_defs)
  show "sql_lines_ok (''select 1'' @ [NL])"
    by (intro sql_line_ok) (simp_all add: line_ok_def size_defs ends_sql_def strncmp_eq_def)
  obtain k1 where "relayed (sql_peer ok ms) shared_request ''select 1'' sql_connector = Inr k1"
    "conn_db k1 = Some 0" "dbstate k1 = sample_mssql" by (rule sql_relayed)
  then show "\<exists>k1. sql_server_peer (tape_lib ok ms) [] 3 (sql_peer ok ms) shared_request ''select 1'' sql_connector k1 \<and>
     dbstate k1 = sample_mssql"
    using sample_mssql_ready by (auto simp: sql_server_peer_def sql_peer_def)
qed

lemma shared_slot:
  obtains c t ev where "shared_connection (a_query (h_admin (shared_env ok ms))) shared_request shared_world c 5 t ev
    (w_db shared_world)"
proof (rule sample_shared)
  show "q_passes (a_query (h_admin (shared_env ok ms))) = [sample_pass]" by (simp add: shared_env_simps)
  show "w_table shared_world = empty_table" by (simp add: shared_world_def)
  show "connection_name shared_request \<noteq> []" "connection_timeout shared_request \<noteq> 0" "sock_path shared_request = []"
    by (simp_all add: shared_request_defs)
  show "request_wf shared_request"
    by (simp add: request_wf_def shared_request_defs fits_def size_defs list_all_iff)
qed (rule that)



end
