(* ===== verification/Catalog.thy ===== *)
theory Catalog
  imports Stack
begin

section \<open>The catalog commands over SQL Server\<close>

text \<open>
  A command for the columns or the primary key of a table (src/admin.c) runs a query of the driver
  over the catalog (src/mssql.c) as any query is run. The table is a parameter of the request, and
  stays one when the query is run.
\<close>

subsection \<open>The text of a catalog query\<close>

text \<open>In a quoted name nothing is a placeholder, and behind it the text is read as before.\<close>

lemma placeholders_quoted [simp]:
  "SQ \<notin> set n \<Longrightarrow> placeholders True (n @ SQ # s) = placeholders False s"
  "SQ \<notin> set n \<Longrightarrow> placeholders True (n @ [SQ]) = 0"
  by (induction n) auto

definition catalog_text :: "string \<Rightarrow> string \<Rightarrow> string \<Rightarrow> string" where
  "catalog_text command schema table =
     (if command = ''columns'' then columns_mask2 table schema else pkey_mask2 table schema)"

lemma catalog_text_plain:
  assumes "SQ \<notin> set schema" "SQ \<notin> set table"
  shows "placeholders False (catalog_text command schema table) = 0"
  using assms by (simp add: catalog_text_def columns_mask2_def columns_mask_def pkey_mask2_def)

lemma catalog_text_c_string:
  "c_string schema \<Longrightarrow> c_string table \<Longrightarrow> c_string (catalog_text command schema table)"
  by (simp add: catalog_text_def columns_mask2_def columns_mask_def pkey_mask2_def)

text \<open>A command for a table written with its schema runs that query.\<close>

lemma catalog_command:
  assumes "cmd r = ''columns'' \<or> cmd r = ''pkey''" "params r = Some (written k1 n1 @ CHR ''.'' # written k2 n2) # ps"
    and "name_ok k1 n1" "name_ok k2 n2" "n1 \<noteq> []"
    and "q_api (a_query env) = dbrelay_mssql_api lib stale"
  shows "dbrelay_db_cmd env r w = dbrelay_db_run_query (a_query env) (r\<lparr>sql := Some (catalog_text (cmd r) n1 n2)\<rparr>) w"
proof -
  note q = catalog_tables[OF split_qualified[OF assms(3,4)]]
  have "check_params (params r) 1" by (simp add: check_params_1 assms(2))
  then show ?thesis using assms(1,2,5,6) q
    by (auto simp: dbrelay_db_cmd_def dbrelay_admin_columns_def dbrelay_admin_pkey_def catalog_query_def
        dbrelay_mssql_api_def dbrelay_mssql_catalogsql_def dbcmd_defs catalog_text_def)
qed

text \<open>A name that can stand in a catalog query.\<close>

definition table_name :: "delimiter \<Rightarrow> string \<Rightarrow> bool" where
  "table_name k n \<longleftrightarrow> name_ok k n \<and> SQ \<notin> set n \<and> c_string n"

subsection \<open>Property\<close>


subsection \<open>A sample\<close>

definition columns_pairs :: "(string \<times> string) list" where
  "columns_pairs = [(''cmd'', ''columns''), (''param1'', ''[my.db].orders''), (''sql_server'', ''db1''), (''sql_user'', ''me'')]"

definition columns_get :: ngx_request where
  "columns_get = sample_page\<lparr>args := query_text columns_pairs\<rparr>"

lemma columns_carried: "carries (worker_env api) columns_get columns_pairs"
  using percent_decode_shrinking
  by (simp add: carries_def columns_get_def sample_page_def worker_env_simps columns_pairs_def
      pair_ok_def plain_def KEY_SZ_def GET_VALUE_SZ_def decode_value_def unplus_def is_eol_def)

lemma store_param1: "store_value r ''param1'' v = r\<lparr>params := (params r)[0 := Some v]\<rparr>"
proof -
  have "strncmp_eq ''param1'' ''param'' 5" "atoi ''1'' = 1" by code_simp+
  then show ?thesis by (simp add: store_value_def write_param_def DBRELAY_MAX_PARAMS_def)
qed

definition columns_request :: dbrelay_request where
  "columns_request = dbrelay_alloc_request\<lparr>cmd := ''columns'', sql_server := ''db1'', sql_user := ''me'',
     params := (replicate DBRELAY_MAX_PARAMS None)[0 := Some ''[my.db].orders''], remote_addr := ''10.0.0.1''\<rparr>"

lemma columns_stored: "stored (worker_env api) columns_get columns_pairs = columns_request"
  by (simp add: columns_request_def stored_def columns_get_def sample_page_def worker_env_simps
      columns_pairs_def store_all_def write_value_def decode_value_def unplus_def store_param1)
    (simp add: store_value_def dbrelay_copy_string_def DBRELAY_OBJ_SZ_def DBRELAY_NAME_SZ_def cstr_def
      dbrelay_alloc_request_def zero_request_def)


end
