(* ===== verification/Process.thy ===== *)
theory Process
  imports Session
begin

section \<open>The main loop of the connector process (src/connector.c)\<close>

text \<open>
  A connector waits for a worker, serves it, and waits for the next one, under a timer whose
  signal ends it. What happens to the process is a step relation: a signal, the return of
  \<^verbatim>\<open>dbrelay_socket_accept\<close>, a line that is received at one time and handled at another, and
  the end of a client. Times are whole seconds and never go back. The process is the one that
  goes on after \<^verbatim>\<open>fork\<close>; the log file is left out.
\<close>

datatype ending = Timed_Out | Gave_Up | Manual_Timeout | By_Command | Crashed c_fault

datatype phase = Waiting nat | Serving "32 word" | Ended ending

record 'd process =
  p_conn :: "'d connector"
  p_phase :: phase
  p_last :: int
  p_alarm :: "int option"
  p_clock :: int

text \<open>
  \<open>p_last\<close> is \<^verbatim>\<open>last_accessed\<close>, \<open>p_alarm\<close> the time for which the kernel holds an alarm.
  A negative time is refused by \<^verbatim>\<open>setitimer\<close>, zero disarms the timer.
\<close>

definition set_timer :: "int \<Rightarrow> int \<Rightarrow> 'd process \<Rightarrow> 'd process" where
  "set_timer t secs P = P\<lparr>p_last := t,
     p_alarm := (if secs < 0 then p_alarm P else if secs = 0 then None else Some (t + secs))\<rparr>"

fun set_timers :: "int \<Rightarrow> conn_event list \<Rightarrow> 'd process \<Rightarrow> 'd process" where
  "set_timers t [] P = P"
| "set_timers t (Set_Timer n # evs) P = set_timers t evs (set_timer t n P)"
| "set_timers t (ev # evs) P = set_timers t evs P"

text \<open>
  The start, at a time \<open>t\<close>: the globals are zero, the connection on the stack of
  \<^verbatim>\<open>main\<close> holds anything, and the timer is set in case nobody attaches.
\<close>

definition main_start :: "handle \<Rightarrow> int \<Rightarrow> 'd \<Rightarrow> 'd process" where
  "main_start garb t d = set_timer t 60
     \<lparr>p_conn = \<lparr>c_request = zero_request, timeout_str = [], receive_sql = False, sb_sql = None,
        conn_db = garb, conn_connected = False, dbstate = d\<rparr>,
      p_phase = Waiting 0, p_last = t, p_alarm = None, p_clock = t\<rparr>"

definition live :: "'d process \<Rightarrow> bool" where
  "live P \<longleftrightarrow> (\<forall>e. p_phase P \<noteq> Ended e)"

definition due :: "'d process \<Rightarrow> int \<Rightarrow> bool" where
  "due P t \<longleftrightarrow> (case p_alarm P of None \<Rightarrow> False | Some a \<Rightarrow> a \<le> t)"

text \<open>A turn of the inner loop around \<^verbatim>\<open>accept\<close>, which returned \<open>s\<close> after \<open>n\<close> failures.\<close>

definition accept_turn :: "32 word \<Rightarrow> int \<Rightarrow> nat \<Rightarrow> 'd process \<Rightarrow> 'd process" where
  "accept_turn s t n P =
     (let P = P\<lparr>p_clock := t\<rparr>;
          tries = (if s = - 1 then n + 1 else n);
          limit = connection_timeout (c_request (p_conn P))
      in if s = - 1 \<and> tries > 3 then P\<lparr>p_phase := Ended Gave_Up\<rparr>
         else if limit \<noteq> 0 \<and> t - p_last P > limit then P\<lparr>p_phase := Ended Manual_Timeout\<rparr>
         else if s = 0 then P\<lparr>p_phase := Waiting tries\<rparr>
         else P\<lparr>p_phase := Serving s\<rparr>)"

text \<open>The end of a client, and the way back to the top of the loop, or the end in the driver.\<close>

definition client_gone :: "'d dbapi \<Rightarrow> 'd process \<Rightarrow> 'd process" where
  "client_gone api P = (case end_client api (p_conn P) of
       Inl e \<Rightarrow> P\<lparr>p_phase := Ended (Crashed e)\<rparr>
     | Inr st \<Rightarrow> P\<lparr>p_conn := st, p_phase := Waiting 0\<rparr>)"

text \<open>
  A line received at \<open>t\<close> and handled at \<open>t'\<close>. When it is a query, the first thing is to set
  the timer to the hard limit; a timer after the reply is set at the end.
\<close>

definition while_handling :: "int \<Rightarrow> conn_event list \<Rightarrow> 'd process \<Rightarrow> 'd process" where
  "while_handling t evs P = (case evs of Set_Timer n # _ \<Rightarrow> set_timer t n P | _ \<Rightarrow> P)"

definition after_handling :: "int \<Rightarrow> int \<Rightarrow> conn_event list \<Rightarrow> 'd process \<Rightarrow> 'd process" where
  "after_handling t t' evs P =
     (case evs of Set_Timer n # rest \<Rightarrow> set_timers t' rest (set_timer t n P) | _ \<Rightarrow> set_timers t' evs P)"

definition line_turn ::
    "'d peer \<Rightarrow> string \<Rightarrow> int \<Rightarrow> int \<Rightarrow> 'd process \<Rightarrow> ('d process \<times> conn_event list) result option" where
  "line_turn p line t t' P =
     loop_bind (peer_line p line (p_conn P)) (\<lambda>(nxt, st, evs).
       let Q = (after_handling t t' evs P)\<lparr>p_conn := st, p_clock := t'\<rparr>
       in Some (Inr (case nxt of
            Next_Line \<Rightarrow> Q
          | Next_Client \<Rightarrow> client_gone (peer_api p) Q
          | Exit_Process \<Rightarrow> Q\<lparr>p_phase := Ended By_Command\<rparr>, evs)))"

datatype happening =
    Alarm int
  | Accepted "32 word" int
  | Got_Line string int int
  | Lost int

fun happens_at :: "happening \<Rightarrow> int" where
  "happens_at (Alarm t) = t"
| "happens_at (Accepted s t) = t"
| "happens_at (Got_Line l t t') = t"
| "happens_at (Lost t) = t"

text \<open>
  The signal comes at the time it was asked for or later, but before anything else that happens
  then. During a query it is the timer of the query that counts, and no reply goes out. A fault
  ends the process at some time before the signal; what it had sent by then does not count.
\<close>

inductive main_step :: "'d peer \<Rightarrow> 'd process \<Rightarrow> happening \<Rightarrow> conn_event list \<Rightarrow> 'd process \<Rightarrow> bool"
  for p where
  alarm: "live P \<Longrightarrow> p_clock P \<le> t \<Longrightarrow> due P t \<Longrightarrow>
    main_step p P (Alarm t) [] (P\<lparr>p_phase := Ended Timed_Out, p_clock := t\<rparr>)"
| accept: "p_phase P = Waiting n \<Longrightarrow> p_clock P \<le> t \<Longrightarrow> \<not> due P t \<Longrightarrow>
    main_step p P (Accepted s t) [] (accept_turn s t n P)"
| got: "p_phase P = Serving s \<Longrightarrow> s \<noteq> - 1 \<Longrightarrow> p_clock P \<le> t \<Longrightarrow> \<not> due P t \<Longrightarrow> t \<le> t' \<Longrightarrow>
    line_turn p line t t' P = Some (Inr (Q, evs)) \<Longrightarrow> \<not> due (while_handling t evs P) t' \<Longrightarrow>
    main_step p P (Got_Line line t t') evs Q"
| busy: "p_phase P = Serving s \<Longrightarrow> s \<noteq> - 1 \<Longrightarrow> p_clock P \<le> t \<Longrightarrow> \<not> due P t \<Longrightarrow> t \<le> t' \<Longrightarrow>
    line_turn p line t t' P = Some (Inr (Q, evs)) \<Longrightarrow> due (while_handling t evs P) t' \<Longrightarrow>
    main_step p P (Got_Line line t t') [] (P\<lparr>p_phase := Ended Timed_Out, p_clock := t'\<rparr>)"
| crash: "p_phase P = Serving s \<Longrightarrow> s \<noteq> - 1 \<Longrightarrow> p_clock P \<le> t \<Longrightarrow> \<not> due P t \<Longrightarrow> t \<le> t' \<Longrightarrow>
    line_turn p line t t' P = Some (Inl e) \<Longrightarrow> (connection_timeout (c_request (p_conn P)) = 0 \<longrightarrow> \<not> due P t') \<Longrightarrow>
    main_step p P (Got_Line line t t') [] (P\<lparr>p_phase := Ended (Crashed e), p_clock := t'\<rparr>)"
| too_late: "p_phase P = Serving s \<Longrightarrow> s \<noteq> - 1 \<Longrightarrow> p_clock P \<le> t \<Longrightarrow> \<not> due P t \<Longrightarrow> t \<le> t' \<Longrightarrow>
    line_turn p line t t' P = Some (Inl e) \<Longrightarrow> connection_timeout (c_request (p_conn P)) = 0 \<Longrightarrow> due P t' \<Longrightarrow>
    main_step p P (Got_Line line t t') [] (P\<lparr>p_phase := Ended Timed_Out, p_clock := t'\<rparr>)"
| lost: "p_phase P = Serving s \<Longrightarrow> p_clock P \<le> t \<Longrightarrow> \<not> due P t \<Longrightarrow>
    main_step p P (Lost t) [] (client_gone (peer_api p) (P\<lparr>p_clock := t\<rparr>))"

inductive main_run :: "'d peer \<Rightarrow> 'd process \<Rightarrow> happening list \<Rightarrow> conn_event list \<Rightarrow> 'd process \<Rightarrow> bool"
  for p where
  still: "main_run p P [] [] P"
| further: "main_step p P h evs Q \<Longrightarrow> main_run p Q hs evs' R \<Longrightarrow> main_run p P (h # hs) (evs @ evs') R"

inductive_cases alarmE: "main_step p P (Alarm t) evs Q"
inductive_cases acceptE: "main_step p P (Accepted s t) evs Q"
inductive_cases gotE: "main_step p P (Got_Line l t t') evs Q"
inductive_cases lostE: "main_step p P (Lost t) evs Q"
inductive_cases runE: "main_run p P (h # hs) evs Q"
inductive_cases run_NilE: "main_run p P [] evs Q"

subsection \<open>What a line does to the timer\<close>

definition time_limit :: "'d process \<Rightarrow> int" where
  "time_limit P = connection_timeout (c_request (p_conn P))"

definition timer_free :: "conn_event list \<Rightarrow> bool" where
  "timer_free evs \<longleftrightarrow> (\<forall>n. Set_Timer n \<notin> set evs)"

lemma set_timers_append: "set_timers t (a @ b) P = set_timers t b (set_timers t a P)"
  by (induction t a P rule: set_timers.induct) simp_all

lemma set_timers_free: "timer_free evs \<Longrightarrow> set_timers t evs P = P"
  unfolding timer_free_def by (induction t evs P rule: set_timers.induct) auto

lemma set_timer_keeps [simp]:
  "p_conn (set_timer t n P) = p_conn P" "p_phase (set_timer t n P) = p_phase P"
  "p_clock (set_timer t n P) = p_clock P" "p_last (set_timer t n P) = t"
  by (simp_all add: set_timer_def)

lemma set_timers_keeps [simp]:
  "p_conn (set_timers t evs P) = p_conn P" "p_phase (set_timers t evs P) = p_phase P"
  by (induction t evs P rule: set_timers.induct) simp_all

lemma after_handling_keeps [simp]:
  "p_conn (after_handling t t' evs P) = p_conn P" "p_phase (after_handling t t' evs P) = p_phase P"
  by (simp_all add: after_handling_def split: list.split conn_event.split)

lemma process_line_timeout:
  assumes "process_line ga gf l st = Inr (ret, st')"
    and "ret \<noteq> OK \<or> \<not> check_command (chop_newline l) ''SET TIMEOUT''"
  shows "connection_timeout (c_request st') = connection_timeout (c_request st)"
  using assms unfolding process_line_def Let_def
  by (auto split: if_splits option.splits)

lemma end_client_request: "end_client api st = Inr st' \<Longrightarrow> c_request st' = c_request st"
  by (auto simp: end_client_def rbind_eq_Inr_iff)

lemma connect_once_request: "connect_once api st = Inr st' \<Longrightarrow> c_request st' = c_request st"
  by (auto simp: connect_once_def rbind_eq_Inr_iff split: if_splits)

lemma timer_free_simps [simp]:
  "timer_free []" "timer_free (Reply x # evs) = timer_free evs" "timer_free (Close_Client # evs) = timer_free evs"
  "timer_free (a @ b) = (timer_free a \<and> timer_free b)"
  "timer_free (error_reply x)" "timer_free (results_reply x)"
  by (auto simp: timer_free_def error_reply_def results_reply_def)

definition query_timers :: "'d connector \<Rightarrow> conn_event list \<Rightarrow> bool" where
  "query_timers st evs \<longleftrightarrow> (\<exists>mid. timer_free mid \<and>
     evs = timer_unless0 (c_request st) DBRELAY_HARD_TIMEOUT @ mid @
       timer_unless0 (c_request st) (connection_timeout (c_request st)))"

lemma query_timersI:
  assumes "connection_timeout r = connection_timeout (c_request st)" "timer_free mid"
  shows "query_timers st (timer_unless0 r DBRELAY_HARD_TIMEOUT @ mid @ timer_unless0 r (connection_timeout r))"
  using assms unfolding query_timers_def timer_unless0_def by auto

lemma query_reply_timers: "query_reply api h res d = Inr evs \<Longrightarrow> timer_free evs"
  by (auto simp: query_reply_def rbind_eq_Inr_iff split: option.splits)

lemma run_command_timers:
  assumes "run_command api st = Some (Inr (nxt, st', evs))"
  shows "connection_timeout (c_request st') = connection_timeout (c_request st) \<and>
    (timer_free evs \<or> query_timers st' evs)"
proof -
  let ?st = "st\<lparr>c_request := (c_request st)\<lparr>error_message := []\<rparr>\<rparr>"
  from assms obtain st1 where c: "connect_once api ?st = Inr st1"
    by (auto simp: run_command_def Let_def and_then_eq_Inr_iff)
  let ?r = "c_request st1"
  have r: "connection_timeout ?r = connection_timeout (c_request st)" using connect_once_request[OF c] by simp
  show ?thesis
  proof (cases "\<not> conn_connected st \<and> conn_db st1 = None")
    case True
    with assms c r show ?thesis by (auto simp: run_command_def Let_def and_then_eq_Inr_iff)
  next
    case False
    with assms c obtain res d reply where q: "query_reply api (conn_db st1) res d = Inr reply"
      and st: "st' = st1\<lparr>dbstate := d\<rparr>"
      and e: "evs = timer_unless0 ?r DBRELAY_HARD_TIMEOUT @ (reply @ [Reply ('':OK'' @ [NL])]) @
         timer_unless0 ?r (connection_timeout ?r)"
      by (auto simp: run_command_def Let_def and_then_eq_Inr_iff loop_bind_eq_Inr_iff)
    have "query_timers st' evs" unfolding e
      by (rule query_timersI) (simp_all add: st query_reply_timers[OF q])
    with st r show ?thesis by simp
  qed
qed

lemma handle_line_timers:
  assumes "handle_line api self ga gf l st = Some (Inr (nxt, st', evs))"
  shows "connection_timeout (c_request st') = connection_timeout (c_request st) \<and>
      (timer_free evs \<or> query_timers st' evs) \<or>
    (\<exists>x. evs = Reply x # timer_unless0 (c_request st') (connection_timeout (c_request st')))"
proof -
  from assms obtain ret st1 where p: "process_line ga gf l st = Inr (ret, st1)"
    by (auto simp: handle_line_def and_then_eq_Inr_iff)
  show ?thesis
  proof (cases "ret = OK")
    case True
    with assms p show ?thesis by (auto simp: handle_line_def)
  next
    case False
    note same = process_line_timeout[OF p disjI1[OF False]]
    show ?thesis
    proof (cases "ret = RUN")
      case True
      with assms p have "run_command api st1 = Some (Inr (nxt, st', evs))" by (simp add: handle_line_def)
      from run_command_timers[OF this] same show ?thesis by simp
    next
      case False
      with \<open>ret \<noteq> OK\<close> assms p same show ?thesis by (cases ret) (auto simp: handle_line_def)
    qed
  qed
qed

lemma after_handling_free: "timer_free evs \<Longrightarrow> after_handling t t' evs P = P \<and> while_handling t evs P = P"
  by (auto simp: after_handling_def while_handling_def set_timers_free timer_free_def
      split: list.split conn_event.split)

lemma after_handling_reply:
  "0 < n \<Longrightarrow> after_handling t t' (Reply x # timer_unless0 r n) P = (if connection_timeout r \<noteq> 0 then set_timer t' n P else P)"
  by (simp add: after_handling_def timer_unless0_def)

lemma after_handling_query:
  assumes "query_timers st evs" "connection_timeout (c_request st) \<noteq> 0"
  shows "\<exists>P1. after_handling t t' evs P = set_timer t' (connection_timeout (c_request st)) P1"
proof -
  from assms obtain mid where "timer_free mid"
    "evs = Set_Timer DBRELAY_HARD_TIMEOUT # mid @ [Set_Timer (connection_timeout (c_request st))]"
    by (auto simp: query_timers_def timer_unless0_def)
  then have "after_handling t t' evs P =
      set_timer t' (connection_timeout (c_request st)) (set_timer t DBRELAY_HARD_TIMEOUT P)"
    by (simp add: after_handling_def set_timers_append set_timers_free)
  then show ?thesis by blast
qed

text \<open>A line leaves the timer and the limit as they were, or sets the timer to the limit there is now.\<close>

lemma peer_line_timer:
  assumes "peer_line p l (p_conn P) = Some (Inr (nxt, st, evs))"
  shows "connection_timeout (c_request st) = time_limit P \<and> after_handling t t' evs P = P \<or>
    0 < connection_timeout (c_request st) \<and>
      (\<exists>P1. after_handling t t' evs P = set_timer t' (connection_timeout (c_request st)) P1) \<or>
    connection_timeout (c_request st) \<le> 0"
proof (cases "0 < connection_timeout (c_request st)")
  case True
  from handle_line_timers[OF assms[unfolded peer_line_def]] show ?thesis
  proof (elim disjE conjE exE)
    assume "connection_timeout (c_request st) = connection_timeout (c_request (p_conn P))" "timer_free evs"
    then show ?thesis by (simp add: after_handling_free time_limit_def)
  next
    assume "query_timers st evs"
    from after_handling_query[OF this] True show ?thesis by fastforce
  next
    fix x
    assume "evs = Reply x # timer_unless0 (c_request st) (connection_timeout (c_request st))"
    then have "after_handling t t' evs P = set_timer t' (connection_timeout (c_request st)) P"
      using True by (simp add: after_handling_reply)
    with True show ?thesis by blast
  qed
qed simp

definition timer_ok :: "'d process \<Rightarrow> bool" where
  "timer_ok P \<longleftrightarrow> (0 < time_limit P \<longrightarrow> p_alarm P = Some (p_last P + time_limit P))"

lemma accept_turn_keeps [simp]:
  "p_conn (accept_turn s t n P) = p_conn P" "p_alarm (accept_turn s t n P) = p_alarm P"
  "p_last (accept_turn s t n P) = p_last P" "p_clock (accept_turn s t n P) = t"
  by (simp_all add: accept_turn_def Let_def)

lemma client_gone_keeps [simp]:
  "p_alarm (client_gone api P) = p_alarm P" "p_last (client_gone api P) = p_last P"
  "p_clock (client_gone api P) = p_clock P" "time_limit (client_gone api P) = time_limit P"
  by (auto simp: client_gone_def time_limit_def end_client_request split: sum.split)

definition gone_phase :: "phase \<Rightarrow> bool" where
  "gone_phase ph \<longleftrightarrow> ph = Waiting 0 \<or> (\<exists>e. ph = Ended (Crashed e))"

lemma client_gone_phase: "gone_phase (p_phase (client_gone api P))"
  by (simp add: client_gone_def gone_phase_def split: sum.split)

text \<open>How a turn for a line can leave the process.\<close>

definition turned :: "next_turn \<Rightarrow> phase \<Rightarrow> phase \<Rightarrow> bool" where
  "turned nxt ph ph' \<longleftrightarrow> (case nxt of Next_Line \<Rightarrow> ph' = ph | Next_Client \<Rightarrow> gone_phase ph'
     | Exit_Process \<Rightarrow> ph' = Ended By_Command)"

lemma line_turnE:
  assumes "line_turn p l t t' P = Some (Inr (Q, evs))"
  obtains nxt st where "peer_line p l (p_conn P) = Some (Inr (nxt, st, evs))"
    "p_alarm Q = p_alarm (after_handling t t' evs P)" "p_last Q = p_last (after_handling t t' evs P)"
    "time_limit Q = connection_timeout (c_request st)" "p_clock Q = t'"
    "turned nxt (p_phase P) (p_phase Q)" "nxt = Next_Line \<longrightarrow> p_conn Q = st"
proof -
  from assms obtain nxt st where *: "peer_line p l (p_conn P) = Some (Inr (nxt, st, evs))"
    "Q = (let Q = (after_handling t t' evs P)\<lparr>p_conn := st, p_clock := t'\<rparr>
       in case nxt of Next_Line \<Rightarrow> Q | Next_Client \<Rightarrow> client_gone (peer_api p) Q
          | Exit_Process \<Rightarrow> Q\<lparr>p_phase := Ended By_Command\<rparr>)"
    by (auto simp: line_turn_def loop_bind_eq_Inr_iff Let_def)
  from *(2) show thesis
    by (intro that[OF *(1)]; cases nxt)
      (simp_all add: Let_def turned_def client_gone_phase, simp_all add: time_limit_def)
qed

lemma line_turn_timer:
  assumes "timer_ok P" "line_turn p l t t' P = Some (Inr (Q, evs))"
  shows "timer_ok Q"
proof -
  from assms(2) obtain nxt st where q: "peer_line p l (p_conn P) = Some (Inr (nxt, st, evs))"
    "p_alarm Q = p_alarm (after_handling t t' evs P)" "p_last Q = p_last (after_handling t t' evs P)"
    "time_limit Q = connection_timeout (c_request st)" by (rule line_turnE)
  from peer_line_timer[OF q(1), of t t'] assms(1) q(2-4) show ?thesis
    by (auto simp: timer_ok_def set_timer_def)
qed

text \<open>Failed calls of \<^verbatim>\<open>accept\<close> are never more than one in the count.\<close>

definition phase_ok :: "'d process \<Rightarrow> bool" where
  "phase_ok P \<longleftrightarrow> p_phase P \<noteq> Ended Gave_Up \<and> (\<forall>n. p_phase P = Waiting n \<longrightarrow> n = 0)"

lemma accept_turn_phase: "p_phase P = Waiting n \<Longrightarrow> phase_ok P \<Longrightarrow> phase_ok (accept_turn s t n P)"
  by (simp add: accept_turn_def phase_ok_def Let_def)

lemma line_turn_phase:
  assumes "phase_ok P" "line_turn p l t t' P = Some (Inr (Q, evs))"
  shows "phase_ok Q"
proof -
  from assms(2) obtain nxt where "turned nxt (p_phase P) (p_phase Q)" by (rule line_turnE)
  with assms(1) show ?thesis by (cases nxt) (auto simp: phase_ok_def turned_def gone_phase_def)
qed

lemma main_step_keeps:
  assumes "main_step p P h evs Q" "timer_ok P" "phase_ok P"
  shows "timer_ok Q \<and> phase_ok Q"
  using assms
proof (induction rule: main_step.induct)
  case (accept P n t s)
  then show ?case using accept_turn_phase[of P n s t] by (simp add: timer_ok_def time_limit_def)
next
  case (got P s t t' line Q evs)
  then show ?case by (blast intro: line_turn_timer line_turn_phase)
next
  case (lost P s t)
  then show ?case using client_gone_phase[of "peer_api p" "P\<lparr>p_clock := t\<rparr>"]
    by (auto simp: timer_ok_def phase_ok_def gone_phase_def) (simp_all add: time_limit_def)
qed (auto simp: timer_ok_def phase_ok_def time_limit_def)

lemma main_start_ok: "timer_ok (main_start g t d) \<and> phase_ok (main_start g t d)"
  by (simp add: main_start_def timer_ok_def phase_ok_def time_limit_def set_timer_def zero_request_def)

text \<open>The steps whose happenings are of some kind, and the two systems they make.\<close>

definition moves :: "'d peer \<Rightarrow> (happening \<Rightarrow> bool) \<Rightarrow> 'd process \<Rightarrow> 'd process \<Rightarrow> bool" where
  "moves p C P Q \<longleftrightarrow> (\<exists>h evs. C h \<and> main_step p P h evs Q)"

lemma run_moves: "main_run p P hs evs Q \<Longrightarrow> list_all C hs \<Longrightarrow> (moves p C)\<^sup>*\<^sup>* P Q"
proof (induction rule: main_run.induct)
  case (further P h evs Q hs evs' R)
  have "moves p C P Q" using further.hyps(1) further.prems by (auto simp: moves_def)
  moreover have "(moves p C)\<^sup>*\<^sup>* Q R" using further.IH further.prems by simp
  ultimately show ?case by (rule converse_rtranclp_into_rtranclp)
qed simp

interpretation timed: invariant_system "\<lambda>P. \<exists>g t d. P = main_start g t d" "moves p (\<lambda>h. True)"
    "\<lambda>P. timer_ok P \<and> phase_ok P" for p :: "'d peer"
  by unfold_locales (auto simp: moves_def main_start_ok dest: main_step_keeps)

lemma reached_ok: "main_run p (main_start g t d) hs evs Q \<Longrightarrow> timer_ok Q \<and> phase_ok Q"
  by (rule timed.reachable_inv[OF _ run_moves]) (auto simp: list_all_iff)

lemma run_append:
  "main_run p P hs evs Q \<Longrightarrow> main_step p Q h evs' R \<Longrightarrow> main_run p P (hs @ [h]) (evs @ evs') R"
proof (induction rule: main_run.induct)
  case (still P)
  from main_run.further[OF still main_run.still] show ?case by simp
next
  case (further P h evs Q hs evs' R)
  from main_run.further[OF further.hyps(1) further.IH[OF further.prems]] show ?case by simp
qed

text \<open>Without a command that sets a limit there is none, and the timer stays as it was set at the start.\<close>

definition sets_no_limit :: "happening \<Rightarrow> bool" where
  "sets_no_limit h \<longleftrightarrow>
     (\<forall>l t t'. h = Got_Line l t t' \<longrightarrow> \<not> check_command (chop_newline l) ''SET TIMEOUT'')"

definition first_minute :: "int \<Rightarrow> 'd process \<Rightarrow> bool" where
  "first_minute a P \<longleftrightarrow> time_limit P = 0 \<and> p_alarm P = Some a \<and> (live P \<longrightarrow> p_clock P < a)"

lemma handle_line_no_limit:
  assumes "handle_line api self ga gf l st = Some (Inr (nxt, st', evs))"
    and "\<not> check_command (chop_newline l) ''SET TIMEOUT''"
  shows "connection_timeout (c_request st') = connection_timeout (c_request st)"
proof -
  from assms obtain ret st1 where p: "process_line ga gf l st = Inr (ret, st1)"
    by (auto simp: handle_line_def and_then_eq_Inr_iff)
  note same = process_line_timeout[OF p disjI2[OF assms(2)]]
  show ?thesis
  proof (cases "ret = RUN")
    case True
    with assms p have "run_command api st1 = Some (Inr (nxt, st', evs))" by (simp add: handle_line_def)
    from run_command_timers[OF this] same show ?thesis by simp
  next
    case False
    with assms p same show ?thesis by (cases ret) (auto simp: handle_line_def)
  qed
qed

lemma no_limit_timers:
  assumes "handle_line api self ga gf l st = Some (Inr (nxt, st', evs))" "connection_timeout (c_request st') = 0"
  shows "timer_free evs"
  using handle_line_timers[OF assms(1)] assms(2) by (auto simp: query_timers_def timer_unless0_def)

lemma first_minute_line:
  assumes "first_minute a P" "line_turn p l t t' P = Some (Inr (Q, evs))"
    and "\<not> check_command (chop_newline l) ''SET TIMEOUT''"
  shows "time_limit Q = 0 \<and> p_alarm Q = Some a \<and> p_clock Q = t' \<and> while_handling t evs P = P"
proof -
  from assms(2) obtain nxt st where q: "peer_line p l (p_conn P) = Some (Inr (nxt, st, evs))"
    "p_alarm Q = p_alarm (after_handling t t' evs P)" "time_limit Q = connection_timeout (c_request st)" "p_clock Q = t'"
    by (rule line_turnE)
  from handle_line_no_limit[OF q(1)[unfolded peer_line_def] assms(3)] assms(1)
  have z: "connection_timeout (c_request st) = 0" by (simp add: first_minute_def time_limit_def)
  from no_limit_timers[OF q(1)[unfolded peer_line_def] z] q(2-4) z assms(1) show ?thesis
    by (simp add: after_handling_free first_minute_def)
qed

lemma first_minute_step:
  assumes "main_step p P h evs Q" "first_minute a P" "sets_no_limit h"
  shows "first_minute a Q"
  using assms
proof (induction rule: main_step.induct)
  case (accept P n t s)
  then show ?case by (auto simp: first_minute_def time_limit_def due_def)
next
  case (got P s t t' line Q evs)
  then have "\<not> check_command (chop_newline line) ''SET TIMEOUT''" by (simp add: sets_no_limit_def)
  from first_minute_line[OF got.prems(1) got.hyps(6) this] got show ?case
    by (auto simp: first_minute_def due_def)
next
  case (lost P s t)
  then show ?case by (auto simp: first_minute_def live_def due_def) (simp_all add: time_limit_def)
qed (auto simp: first_minute_def time_limit_def live_def due_def)

lemma main_start_minute: "first_minute (t + 60) (main_start g t d)"
  by (simp add: first_minute_def main_start_def time_limit_def set_timer_def zero_request_def)

interpretation untimed: invariant_system "\<lambda>P. \<exists>g d. P = main_start g t d" "moves p sets_no_limit"
    "first_minute (t + 60)" for p :: "'d peer" and t
  by unfold_locales (auto simp: moves_def main_start_minute dest: first_minute_step)

lemma reached_minute:
  "main_run p (main_start g t d) hs evs Q \<Longrightarrow> list_all sets_no_limit hs \<Longrightarrow> first_minute (t + 60) Q"
  by (rule untimed.reachable_inv[OF _ run_moves]) auto

subsection \<open>Properties\<close>


text \<open>C39.
  A connector whose clients never set a limit does not live longer than a minute, not even in the
  middle of a query: whatever happened, while it is alive less than a minute has passed since its
  start, and a query that takes until then ends without an answer.
\<close>

theorem unlimited_connector_dies:
  assumes "main_run p (main_start g t0 d) hs evs P" "main_step p P (Got_Line l t t') evs' Q"
    and "list_all sets_no_limit (hs @ [Got_Line l t t'])"
  shows "p_clock P < t0 + 60 \<and> (t0 + 60 \<le> t' \<longrightarrow> p_phase Q = Ended Timed_Out \<and> evs' = [])"
proof -
  from assms(3) have l: "\<not> check_command (chop_newline l) ''SET TIMEOUT''" and hs: "list_all sets_no_limit hs"
    by (simp_all add: sets_no_limit_def)
  note m = reached_minute[OF assms(1) hs]
  from assms(2) obtain s where s: "p_phase P = Serving s" by (auto elim: gotE)
  with m have "p_clock P < t0 + 60" by (simp add: first_minute_def live_def)
  moreover have "p_phase Q = Ended Timed_Out \<and> evs' = []" if late: "t0 + 60 \<le> t'" using assms(2)
  proof (rule gotE)
    fix s
    assume "line_turn p l t t' P = Some (Inr (Q, evs'))" "\<not> due (while_handling t evs' P) t'"
    with first_minute_line[OF m _ l] late m show ?thesis by (auto simp: due_def first_minute_def)
  next
    fix e
    assume "connection_timeout (c_request (p_conn P)) = 0 \<longrightarrow> \<not> due P t'"
    with late m show ?thesis by (auto simp: due_def first_minute_def time_limit_def)
  qed simp_all
  ultimately show ?thesis by blast
qed


text \<open>
  A call of \<^verbatim>\<open>accept\<close> that fails leads to a turn with the descriptor \<open>-1\<close>, which is lost
  at once, and the count starts again: as long as there is no limit this can go on until the signal.
\<close>

lemma failed_accept_turn:
  assumes "p_phase P = Waiting 0" "p_clock P \<le> t" "\<not> due P t" "time_limit P = 0"
  shows "main_run p P [Accepted (- 1) t, Lost t] [] (client_gone (peer_api p) (P\<lparr>p_clock := t\<rparr>))"
proof -
  have a: "accept_turn (- 1) t 0 P = P\<lparr>p_clock := t, p_phase := Serving (- 1)\<rparr>"
    using assms(4) by (simp add: accept_turn_def time_limit_def Let_def)
  have "main_step p P (Accepted (- 1) t) [] (accept_turn (- 1) t 0 P)"
    by (rule main_step.accept[OF assms(1-3)])
  moreover have "main_step p (accept_turn (- 1) t 0 P) (Lost t) []
      (client_gone (peer_api p) ((accept_turn (- 1) t 0 P)\<lparr>p_clock := t\<rparr>))"
    by (rule main_step.lost) (use assms(3) in \<open>simp_all add: a due_def\<close>)
  ultimately have "main_run p P [Accepted (- 1) t, Lost t] ([] @ [] @ [])
      (client_gone (peer_api p) ((accept_turn (- 1) t 0 P)\<lparr>p_clock := t\<rparr>))"
    by (blast intro: main_run.further main_run.still)
  then show ?thesis by (simp add: a client_gone_def split: sum.splits)
qed

subsection \<open>Samples\<close>

definition sample_process :: "memory_db process" where
  "sample_process = main_start None 0 ([], no_set, [])"

definition greeted :: "memory_db process" where
  "greeted = accept_turn 5 1 0 sample_process"

lemma greeted_simps:
  "p_phase greeted = Serving 5" "p_clock greeted = 1" "p_alarm greeted = Some 60"
  "time_limit greeted = 0" "receive_sql (p_conn greeted) = False" "p_last greeted = 0"
  by (simp_all add: greeted_def sample_process_def main_start_def set_timer_def accept_turn_def
      time_limit_def zero_request_def Let_def)

lemma sample_accepted: "main_run sample_peer sample_process [Accepted 5 1] [] greeted"
proof -
  have "main_step sample_peer sample_process (Accepted 5 1) [] greeted"
    unfolding greeted_def
    by (rule main_step.accept) (simp_all add: sample_process_def main_start_def set_timer_def due_def)
  from main_run.further[OF this main_run.still] show ?thesis by simp
qed

lemma sample_helo:
  "\<exists>Q x. main_step sample_peer greeted (Got_Line ('':HELO'' @ [NL]) 2 3) [Reply x] Q \<and> p_phase Q = Serving 5"
proof -
  let ?x = "'':PID '' @ show_nat (peer_pid sample_peer) @ [NL]"
  let ?Q = "greeted\<lparr>p_clock := 3\<rparr>"
  have "peer_line sample_peer ('':HELO'' @ [NL]) (p_conn greeted) = Some (Inr (Next_Line, p_conn greeted, [Reply ?x]))"
    using process_helo[of "p_conn greeted" "peer_arg sample_peer" "peer_flag sample_peer"]
    by (simp add: peer_line_def handle_line_def greeted_simps)
  then have "line_turn sample_peer ('':HELO'' @ [NL]) 2 3 greeted = Some (Inr (?Q, [Reply ?x]))"
    by (simp add: line_turn_def after_handling_def)
  then have "main_step sample_peer greeted (Got_Line ('':HELO'' @ [NL]) 2 3) [Reply ?x] ?Q"
    by (rule main_step.got[OF greeted_simps(1), rotated 4])
      (simp_all add: greeted_simps due_def while_handling_def)
  then show ?thesis using greeted_simps(1) by (intro exI[of _ ?Q] exI[of _ ?x]) simp
qed

lemma sample_limit:
  "\<exists>Q. main_step sample_peer greeted (Got_Line ('':SET TIMEOUT 10'' @ [NL]) 2 2)
     [Reply ('':OK'' @ [NL]), Set_Timer 10] Q \<and> time_limit Q = 10 \<and> p_last Q = 2 \<and> p_clock Q = 2 \<and>
     p_alarm Q = Some 12 \<and> live Q"
proof -
  let ?st = "(p_conn greeted)\<lparr>timeout_str := ''10'', c_request := (c_request (p_conn greeted))\<lparr>connection_timeout := 10\<rparr>\<rparr>"
  let ?evs = "[Reply ('':OK'' @ [NL]), Set_Timer 10]"
  let ?Q = "(set_timer 2 10 greeted)\<lparr>p_conn := ?st, p_clock := 2\<rparr>"
  have c: "dbrelay_copy_string ''10'' 10 = ''10''" "atol ''10'' = 10" by code_simp+
  have "peer_line sample_peer ('':SET TIMEOUT 10'' @ [NL]) (p_conn greeted) = Some (Inr (Next_Line, ?st, ?evs))"
    using process_set_timeout[of "p_conn greeted" "peer_arg sample_peer" "peer_flag sample_peer" "''10''"]
    by (simp add: peer_line_def handle_line_def greeted_simps c timer_unless0_def)
  then have "line_turn sample_peer ('':SET TIMEOUT 10'' @ [NL]) 2 2 greeted = Some (Inr (?Q, ?evs))"
    by (simp add: line_turn_def after_handling_def)
  then have "main_step sample_peer greeted (Got_Line ('':SET TIMEOUT 10'' @ [NL]) 2 2) ?evs ?Q"
    by (rule main_step.got[OF greeted_simps(1), rotated 4])
      (simp_all add: greeted_simps due_def while_handling_def)
  then show ?thesis
    by (intro exI[of _ ?Q] conjI) (simp_all add: time_limit_def set_timer_def live_def greeted_simps)
qed


theorem unlimited_connector_dies_witness: "p_clock greeted < 60"
proof -
  from sample_helo obtain Q x where "main_step sample_peer greeted (Got_Line ('':HELO'' @ [NL]) 2 3) [Reply x] Q"
    by blast
  from unlimited_connector_dies[OF sample_accepted[unfolded sample_process_def] this] show ?thesis
    by (simp add: sets_no_limit_def command_defs chop_newline_def)
qed


end
