(* ===== verification/Http_Conf.thy ===== *)
theory Http_Conf
  imports Http_Module
begin

section \<open>The directives and the serving of a location (src/ngx_http_dbrelay_module.c)\<close>

text \<open>
  The two directives of the module fill the configuration of a location; nginx calls the handler
  of a location that has one, and, when the body of the request is there, the function the handler
  gave it. What nginx does between these calls is its documented behaviour.
\<close>

subsection \<open>Configuration\<close>

text \<open>The handler of the core's configuration, and the origin: a string with data, or none yet.\<close>

record loc_conf =
  lc_handler :: bool
  lc_origin :: "string option"

definition ngx_http_dbrelay_create_loc_conf :: "bool \<Rightarrow> loc_conf option" where
  "ngx_http_dbrelay_create_loc_conf memory =
     (if memory then Some \<lparr>lc_handler = False, lc_origin = None\<rparr> else None)"

definition ngx_http_dbrelay_set :: "loc_conf \<Rightarrow> loc_conf" where
  "ngx_http_dbrelay_set conf = conf\<lparr>lc_handler := True\<rparr>"

datatype conf_error = Unknown_Directive | Wrong_Arguments | Duplicate

text \<open>\<^verbatim>\<open>ngx_conf_set_str_slot\<close> refuses a second value.\<close>

definition set_str_slot :: "string \<Rightarrow> loc_conf \<Rightarrow> conf_error + loc_conf" where
  "set_str_slot v conf = (if lc_origin conf \<noteq> None then Inl Duplicate else Inr (conf\<lparr>lc_origin := Some v\<rparr>))"

fun ngx_http_dbrelay_commands :: "string \<times> string list \<Rightarrow> loc_conf \<Rightarrow> conf_error + loc_conf" where
  "ngx_http_dbrelay_commands (name, vs) conf =
     (if name = ''dbrelay'' then (if vs = [] then Inr (ngx_http_dbrelay_set conf) else Inl Wrong_Arguments)
      else if name = ''dbrelay_origin'' then
        (case vs of [v] \<Rightarrow> set_str_slot v conf | _ \<Rightarrow> Inl Wrong_Arguments)
      else Inl Unknown_Directive)"

fun configure :: "(string \<times> string list) list \<Rightarrow> loc_conf \<Rightarrow> conf_error + loc_conf" where
  "configure [] conf = Inr conf"
| "configure (d # ds) conf = rbind (ngx_http_dbrelay_commands d conf) (configure ds)"

definition conf_origin :: "loc_conf \<Rightarrow> string" where
  "conf_origin conf = (case lc_origin conf of None \<Rightarrow> [] | Some v \<Rightarrow> v)"

subsection \<open>Serving\<close>

text \<open>The code of the response is dropped: a response that could not be made is none.\<close>

definition ngx_http_dbrelay_request_body_handler ::
    "('d, 'w) http_env \<Rightarrow> ngx_request \<Rightarrow> ('d, 'w) world \<Rightarrow> (response option \<times> ('d, 'w) world) result option" where
  "ngx_http_dbrelay_request_body_handler env r w = ngx_http_dbrelay_send_response env r w"

text \<open>
  A request for a location: the code of the handler, if the location has it, the response that
  went out, and the world. \<open>rc\<close> is the outcome of reading the body; when it is not an error the
  body handler is called.
\<close>

definition serve ::
    "loc_conf \<Rightarrow> int \<Rightarrow> ('d, 'w) http_env \<Rightarrow> ngx_request \<Rightarrow> ('d, 'w) world \<Rightarrow>
     (ngx_code option \<times> response option \<times> ('d, 'w) world) result option" where
  "serve conf rc env r w =
     (if \<not> lc_handler conf then Some (Inr (None, None, w))
      else
        and_then (ngx_http_dbrelay_handler (h_slack env) (conf_origin conf) rc r) (\<lambda>(code, reads).
          if reads \<and> rc < NGX_HTTP_SPECIAL_RESPONSE then
            loop_bind (ngx_http_dbrelay_request_body_handler env r w) (\<lambda>(resp, w). Some (Inr (Some code, resp, w)))
          else Some (Inr (Some code, None, w))))"

lemma configured_origin:
  "configure ds conf = Inr conf' \<Longrightarrow> lc_origin conf = Some v \<Longrightarrow> lc_origin conf' = Some v"
  by (induction ds conf rule: configure.induct)
    (auto simp: rbind_eq_Inr_iff ngx_http_dbrelay_set_def set_str_slot_def split: if_splits list.splits)

lemma configure_names:
  "configure ds conf = Inr conf' \<Longrightarrow> (''dbrelay_origin'', [v]) \<in> set ds \<Longrightarrow> lc_origin conf' = Some v"
proof (induction ds conf rule: configure.induct)
  case (2 d ds conf)
  then obtain c where c: "ngx_http_dbrelay_commands d conf = Inr c" "configure ds c = Inr conf'"
    by (auto simp: rbind_eq_Inr_iff)
  show ?case
  proof (cases "d = (''dbrelay_origin'', [v])")
    case True
    with c(1) have "lc_origin c = Some v" by (auto simp: set_str_slot_def split: if_splits)
    with c(2) show ?thesis by (rule configured_origin)
  next
    case False
    with 2 c show ?thesis by auto
  qed
qed simp

subsection \<open>Property\<close>


text \<open>Without the directive every origin is served, and so is a request without one.\<close>

lemma open_location:
  assumes "lc_origin conf = None" "lc_handler conf" "r_method r \<noteq> Other_Method" "uri r \<noteq> []"
    and "last (uri r) \<noteq> CHR ''/''" "\<not> zero_in_uri r" "rc < NGX_HTTP_SPECIAL_RESPONSE"
    and "get_header_value (h_slack env) r ''Origin'' = Inr v"
  shows "serve conf rc env r w =
    loop_bind (ngx_http_dbrelay_send_response env r w) (\<lambda>(resp, w). Some (Inr (Some DONE, resp, w)))"
  using assms by (simp add: serve_def conf_origin_def ngx_http_dbrelay_handler_def
      ngx_http_dbrelay_request_body_handler_def)


end
