(* ===== verification/Cmdline.thy ===== *)
theory Cmdline
  imports Status Admin
begin

section \<open>The command line tool (src/main.c)\<close>

text \<open>
  The tool reads options into a request, then either runs the query of a file or reads lines,
  collects them in a buffer that grows, and runs what the buffer holds at a line \<open>go\<close>. The
  standard input is a list of bytes, the files a function from names to contents, and memory can
  always be had. Only the reader that does without \<^verbatim>\<open>readline\<close> is modelled.
\<close>

subsection \<open>Options\<close>

text \<open>
  \<^verbatim>\<open>getopt\<close> of glibc with the option letters of the tool, which all have an argument.
  The first string holds the letters left of the word that is being read; words that are no
  options are skipped, and an unknown letter gives a question mark.
\<close>

definition option_letters :: string where
  "option_letters = ''hpuwctdvfFTSCE''"

fun getopt_loop :: "string \<Rightarrow> string list \<Rightarrow> (char \<times> string) list" where
  "getopt_loop [] [] = []"
| "getopt_loop [] (w # ws) =
     (if w = ''--'' then []
      else if length w > 1 \<and> hd w = CHR ''-'' then getopt_loop (tl w) ws
      else getopt_loop [] ws)"
| "getopt_loop (c # cs) ws =
     (if c \<notin> set option_letters then (CHR ''?'', []) # getopt_loop cs ws
      else if cs \<noteq> [] then (c, cs) # getopt_loop [] ws
      else case ws of [] \<Rightarrow> [(CHR ''?'', [])] | w # ws \<Rightarrow> (c, w) # getopt_loop [] ws)"

definition getopt :: "string list \<Rightarrow> (char \<times> string) list" where
  "getopt argv = getopt_loop [] argv"

record options =
  o_request :: dbrelay_request
  o_required :: nat
  o_input_file :: "string option"

text \<open>The tool has its own reading of the flags, a loop over the items of the list.\<close>

fun tool_flags_loop :: "string list \<Rightarrow> dbrelay_request \<Rightarrow> dbrelay_request" where
  "tool_flags_loop [] r = r"
| "tool_flags_loop (tok # toks) r = tool_flags_loop toks
     (if tok = ''echosql'' then r\<lparr>flags := flags r OR DBRELAY_FLAG_ECHOSQL\<rparr>
      else if tok = ''pp'' then r\<lparr>flags := flags r OR DBRELAY_FLAG_PP\<rparr>
      else if tok = ''xact'' then r\<lparr>flags := flags r OR DBRELAY_FLAG_XACT\<rparr>
      else if tok = ''embedcsv'' then r\<lparr>flags := flags r OR DBRELAY_FLAG_EMBEDCSV\<rparr>
      else if tok = ''nomagic'' then r\<lparr>flags := flags r OR DBRELAY_FLAG_NOMAGIC\<rparr>
      else r)"

definition tool_flag_values :: "dbrelay_request \<Rightarrow> string \<Rightarrow> dbrelay_request" where
  "tool_flag_values r value = tool_flags_loop (strsep_all CHR '','' value) r"

text \<open>It reads a list of flags as the parameter of a request in the server is read.\<close>

lemma tool_flags_as_server: "tool_flag_values r value = write_flag_values r value"
proof -
  have "tool_flags_loop toks r =
      foldl (\<lambda>r tok. r\<lparr>flags := flags r OR flag_token tok\<rparr>) r toks" for toks
    by (induction toks arbitrary: r) (simp_all add: flag_token_def)
  then show ?thesis by (simp add: tool_flag_values_def write_flag_values_def)
qed

text \<open>The fields are filled with \<^verbatim>\<open>strcpy\<close>.\<close>

definition store_option :: "char \<times> string \<Rightarrow> options \<Rightarrow> options result" where
  "store_option opt st =
     (let (c, v) = opt;
          r = o_request st;
          copy = (\<lambda>sz f. rbind (into_array sz v) (\<lambda>v. Inr (st\<lparr>o_request := f v\<rparr>)))
      in if c = CHR ''c'' then copy DBRELAY_NAME_SZ (\<lambda>v. r\<lparr>connection_name := v\<rparr>)
         else if c = CHR ''C'' then copy DBRELAY_NAME_SZ (\<lambda>v. r\<lparr>js_callback := v\<rparr>)
         else if c = CHR ''d'' then copy DBRELAY_OBJ_SZ (\<lambda>v. r\<lparr>sql_database := v\<rparr>)
         else if c = CHR ''E'' then copy DBRELAY_NAME_SZ (\<lambda>v. r\<lparr>js_error := v\<rparr>)
         else if c = CHR ''f'' then Inr (st\<lparr>o_input_file := Some v\<rparr>)
         else if c = CHR ''F'' then Inr (st\<lparr>o_request := tool_flag_values r v\<rparr>)
         else if c = CHR ''h'' then
           rbind (copy DBRELAY_NAME_SZ (\<lambda>v. r\<lparr>sql_server := v\<rparr>)) (\<lambda>st. Inr (st\<lparr>o_required := o_required st + 1\<rparr>))
         else if c = CHR ''l'' then Inr (st\<lparr>o_request := r\<lparr>log_level := atoi v\<rparr>\<rparr>)
         else if c = CHR ''p'' then copy 6 (\<lambda>v. r\<lparr>sql_port := v\<rparr>)
         else if c = CHR ''S'' then copy 256 (\<lambda>v. r\<lparr>sock_path := v\<rparr>)
         else if c = CHR ''T'' then Inr (st\<lparr>o_request := r\<lparr>connection_timeout := atoi v\<rparr>\<rparr>)
         else if c = CHR ''t'' then copy DBRELAY_NAME_SZ (\<lambda>v. r\<lparr>query_tag := v\<rparr>)
         else if c = CHR ''u'' then
           rbind (copy DBRELAY_OBJ_SZ (\<lambda>v. r\<lparr>sql_user := v\<rparr>)) (\<lambda>st. Inr (st\<lparr>o_required := o_required st + 1\<rparr>))
         else if c = CHR ''w'' then copy DBRELAY_OBJ_SZ (\<lambda>v. r\<lparr>sql_password := v\<rparr>)
         else Inr st)"

fun store_options :: "(char \<times> string) list \<Rightarrow> options \<Rightarrow> options result" where
  "store_options [] st = Inr st"
| "store_options (opt # opts) st = rbind (store_option opt st) (store_options opts)"

text \<open>Whether the required options were there, the request, and the input file.\<close>

definition populate_request :: "string list \<Rightarrow> dbrelay_request \<Rightarrow> (bool \<times> options) result" where
  "populate_request argv r =
     rbind (store_options (getopt argv) \<lparr>o_request = r, o_required = 0, o_input_file = None\<rparr>)
       (\<lambda>st. Inr (\<not> o_required st < 2, st))"

subsection \<open>Reading\<close>

text \<open>\<^verbatim>\<open>fgets\<close> into \<open>n\<close> bytes: the chunk it stores and what is left, or null at the end.\<close>

definition fgets :: "nat \<Rightarrow> string \<Rightarrow> (string \<times> string) option" where
  "fgets n input =
     (if input = [] then None
      else
        let m = take (n - 1) input;
            chunk = takeWhile (\<lambda>c. c \<noteq> NL) m @ (if NL \<in> set m then [NL] else [])
        in Some (chunk, drop (length chunk) input))"

text \<open>
  The loop of \<^verbatim>\<open>dbrelay_readline\<close>: \<open>acc\<close> is what the line holds up to \<open>pos\<close>. A line is
  looked for in the chunk as a C string. The result is the line, or null at the end of the input.
\<close>

partial_function (option) readline_loop :: "nat \<Rightarrow> string \<Rightarrow> string \<Rightarrow> (string option \<times> string) option" where
  "readline_loop sz acc input =
     (case fgets (sz - length acc) input of
        None \<Rightarrow> Some (if acc = [] then None else Some acc, [])
      | Some (chunk, input) \<Rightarrow>
          let s = cstr chunk
          in if NL \<in> set s then Some (Some (acc @ takeWhile (\<lambda>c. c \<noteq> NL) s), input)
             else
               let acc = acc @ s
               in readline_loop (if length acc + 1024 \<ge> sz then sz + 1024 else sz) acc input)"

definition dbrelay_readline :: "string \<Rightarrow> (string option \<times> string) option" where
  "dbrelay_readline input = readline_loop 1024 [] input"

subsection \<open>The text buffer\<close>

text \<open>
  The buffer, its size and the length the tool keeps beside it. A size is a natural number: an
  input of a gigabyte, where the \<^verbatim>\<open>int\<close> of the code ends, is out of scope.
\<close>

record editor =
  mybuf :: string
  bufsz :: nat
  buflen :: nat
  ed_line :: int

function grow :: "nat \<Rightarrow> nat \<Rightarrow> nat" where
  "grow need sz = (if need > sz \<and> sz > 0 then grow need (2 * sz) else sz)"
  by pat_completeness auto
termination by (relation "measure (\<lambda>(need, sz). need - sz)") auto

declare grow.simps [simp del]

text \<open>\<^verbatim>\<open>strcpy(mybuf + buflen, s)\<close>, the room made before.\<close>

definition put_text :: "string \<Rightarrow> editor \<Rightarrow> editor result" where
  "put_text s ed =
     (if buflen ed + length s < bufsz ed
      then Inr (ed\<lparr>mybuf := take (buflen ed) (mybuf ed) @ s, buflen := buflen ed + length s\<rparr>)
      else Inl Buffer_Overflow)"

definition append_line :: "string \<Rightarrow> editor \<Rightarrow> editor result" where
  "append_line s ed =
     put_text (s @ [NL]) (ed\<lparr>bufsz := grow (buflen ed + length s + 2) (bufsz ed)\<rparr>)"

definition clear_text :: "editor \<Rightarrow> editor" where
  "clear_text ed = ed\<lparr>ed_line := 0, mybuf := [], buflen := 0\<rparr>"

lemma fgets_cut:
  assumes "1 < n" "fgets n input = Some (chunk, rest)"
  shows "input = chunk @ rest \<and> chunk \<noteq> [] \<and> length chunk < n \<and>
    (if NL \<in> set (take (n - 1) input) then \<exists>l. chunk = l @ [NL] \<and> NL \<notin> set l
     else chunk = take (n - 1) input)"
proof -
  let ?m = "take (n - 1) input"
  have ne: "input \<noteq> []" using assms(2) by (auto simp: fgets_def)
  show ?thesis
  proof (cases "NL \<in> set ?m")
    case True
    then obtain l r where m: "?m = l @ NL # r" "NL \<notin> set l" by (meson split_list_first)
    have "takeWhile (\<lambda>c. c \<noteq> NL) ?m = l" using m by (auto simp: takeWhile_append)
    with assms(2) ne True have c: "chunk = l @ [NL]" "rest = drop (length (l @ [NL])) input"
      by (auto simp: fgets_def Let_def)
    have "take (length (l @ [NL])) ?m = l @ [NL]" by (subst m(1)) simp
    moreover have len: "length (l @ [NL]) \<le> length ?m" by (subst m(1)) simp
    moreover have short: "length (l @ [NL]) \<le> n - 1" using len by simp
    ultimately have "take (length (l @ [NL])) input = l @ [NL]"
      using take_take[of "length (l @ [NL])" "n - 1" input] by (simp only: min_absorb1)
    then have "input = (l @ [NL]) @ drop (length (l @ [NL])) input"
      using append_take_drop_id[of "length (l @ [NL])" input] by simp
    with c have "input = chunk @ rest" by simp
    moreover have "chunk \<noteq> []" "length chunk < n" "\<exists>l. chunk = l @ [NL] \<and> NL \<notin> set l"
      using c(1) m(2) short assms(1) by auto
    ultimately show ?thesis using True by simp
  next
    case False
    then have tw: "takeWhile (\<lambda>c. c \<noteq> NL) ?m = ?m" unfolding takeWhile_eq_all_conv by blast
    have "Some (chunk, rest) = Some (?m, drop (length ?m) input)"
      using assms(2) ne False unfolding fgets_def Let_def tw
      by (simp only: if_False append_Nil2)
    then have c: "chunk = ?m" "rest = drop (length ?m) input" by simp_all
    moreover have "drop (length ?m) input = drop (n - 1) input"
      by (cases "n - 1 \<le> length input") simp_all
    ultimately have "input = chunk @ rest" by (simp only: append_take_drop_id)
    moreover have "chunk \<noteq> []" "length chunk < n" using c(1) assms(1) ne by auto
    ultimately show ?thesis using c(1) False by (simp only: if_False simp_thms)
  qed
qed

lemma fgets_shorter:
  assumes "1 < n" "fgets n input = Some (chunk, rest)"
  shows "length rest < length input"
proof -
  from fgets_cut[OF assms] have "input = chunk @ rest" "chunk \<noteq> []" by blast+
  then show ?thesis by simp
qed

function slurp_loop :: "string \<Rightarrow> editor \<Rightarrow> editor result" where
  "slurp_loop input ed =
     (case fgets 1024 input of
        None \<Rightarrow> Inr ed
      | Some (chunk, input) \<Rightarrow>
          let s = cstr chunk
          in rbind (put_text s (ed\<lparr>bufsz := grow (buflen ed + length s + 2) (bufsz ed)\<rparr>)) (\<lambda>ed.
               slurp_loop input (ed\<lparr>ed_line := ed_line ed + 1\<rparr>)))"
  by pat_completeness auto
termination
  by (relation "measure (\<lambda>(input, ed). length input)") (auto dest: fgets_shorter[rotated])

declare slurp_loop.simps [simp del]

text \<open>A file that cannot be opened is told of and changes nothing; no name is a null pointer.\<close>

definition slurp_input_file :: "(string \<Rightarrow> string option) \<Rightarrow> string option \<Rightarrow> editor \<Rightarrow> editor result" where
  "slurp_input_file files fname ed =
     (case fname of
        None \<Rightarrow> Inl Null_Deref
      | Some n \<Rightarrow> (case files n of None \<Rightarrow> Inr ed | Some input \<Rightarrow> slurp_loop input ed))"

subsection \<open>The commands\<close>

text \<open>\<^verbatim>\<open>strtok\<close> with its position: the token, none at the end, and the text behind it.\<close>

definition strtok :: "char list \<Rightarrow> string \<Rightarrow> string option \<times> string" where
  "strtok ds s =
     (let s = dropWhile (\<lambda>c. c \<in> set ds) s
      in if s = [] then (None, [])
         else (Some (takeWhile (\<lambda>c. c \<notin> set ds) s), drop 1 (dropWhile (\<lambda>c. c \<notin> set ds) s)))"

definition blanks :: "char list" where "blanks = [CHR '' '', TAB]"
definition blanks_eol :: "char list" where "blanks_eol = [CHR '' '', TAB, NL, CR]"

definition starts_with :: "string \<Rightarrow> string \<Rightarrow> bool" where
  "starts_with s w \<longleftrightarrow> length w \<le> length s \<and> strncmp_eq s w (length w)"

record ('d, 'w) tool_env =
  t_admin :: "('d, 'w) admin_env"
  t_time :: "int \<Rightarrow> string"
  t_build :: string
  t_key :: "32 word"

text \<open>
  \<open>dangling\<close> tells that the first parameter points into a copy of the text that was freed: the
  next command that reads the parameters faults.
\<close>

record ('d, 'w) tool =
  t_request :: dbrelay_request
  t_editor :: editor
  dangling :: bool
  t_world :: "('d, 'w) world"

definition with_param :: "string \<Rightarrow> string option \<Rightarrow> dbrelay_request \<Rightarrow> dbrelay_request" where
  "with_param c p r = r\<lparr>cmd := c, params := (params r)[0 := p]\<rparr>"

text \<open>A command with a parameter of the text; a query or a command that reads what is there.\<close>

definition param_command ::
    "('d, 'w) tool_env \<Rightarrow> string \<Rightarrow> string option \<Rightarrow> ('d, 'w) tool \<Rightarrow> (string \<times> ('d, 'w) tool) result option" where
  "param_command env c p t =
     (let r = with_param c p (t_request t)
      in loop_bind (dbrelay_db_cmd (t_admin env) r (t_world t)) (\<lambda>(out, w).
           Some (Inr (out, t\<lparr>t_request := r, dangling := (p \<noteq> None), t_world := w\<rparr>))))"

definition go_command :: "('d, 'w) tool_env \<Rightarrow> ('d, 'w) tool \<Rightarrow> (string \<times> ('d, 'w) tool) result option" where
  "go_command env t =
     (let buf = mybuf (t_editor t);
          rest = snd (strtok blanks buf);
          rest2 = snd (strtok blanks_eol rest)
      in if starts_with buf ''status'' then
           Some (Inr (dbrelay_db_status (t_time env) (t_build env) (t_key env) (w_table (t_world t)), t))
         else if starts_with buf ''kill'' then param_command env ''kill'' (fst (strtok blanks_eol rest)) t
         else if starts_with buf ''list tables'' then
           if dangling t then Some (Inl Out_Of_Bounds)
           else
             let r = (t_request t)\<lparr>cmd := ''tables''\<rparr>
             in loop_bind (dbrelay_db_cmd (t_admin env) r (t_world t)) (\<lambda>(out, w).
                  Some (Inr (out, t\<lparr>t_request := r, t_world := w\<rparr>)))
         else if starts_with buf ''list columns'' then param_command env ''columns'' (fst (strtok blanks_eol rest2)) t
         else if starts_with buf ''list keys'' then param_command env ''pkey'' (fst (strtok blanks_eol rest2)) t
         else if dangling t then Some (Inl Out_Of_Bounds)
         else
           let r = (t_request t)\<lparr>sql := Some buf\<rparr>
           in loop_bind (dbrelay_db_run_query (a_query (t_admin env)) r (t_world t)) (\<lambda>(out, w).
                Some (Inr (out, t\<lparr>t_request := r, t_world := w\<rparr>))))"

definition first_word :: "string \<Rightarrow> string" where
  "first_word s = (case fst (strtok blanks s) of None \<Rightarrow> [] | Some c \<Rightarrow> c)"

definition is_exit :: "string \<Rightarrow> bool" where
  "is_exit c \<longleftrightarrow> strcasecmp_eq c ''exit'' \<or> strcasecmp_eq c ''quit'' \<or> strcasecmp_eq c ''bye''"

text \<open>One line: whether the tool ends, what it prints, and its state.\<close>

definition tool_line ::
    "('d, 'w) tool_env \<Rightarrow> (string \<Rightarrow> string option) \<Rightarrow> string \<Rightarrow> ('d, 'w) tool \<Rightarrow>
     (bool \<times> string list \<times> ('d, 'w) tool) result option" where
  "tool_line env files s t =
     (let c = first_word s
      in if is_exit c then Some (Inr (True, [], t))
         else if strcasecmp_eq c ''go'' then
           loop_bind (go_command env t) (\<lambda>(out, t').
             Some (Inr (False, [''mybuf '' @ mybuf (t_editor t) @ [NL], out @ [NL]],
               t'\<lparr>t_editor := clear_text (t_editor t')\<rparr>)))
         else if strcasecmp_eq c ''reset'' then
           Some (Inr (False, [], t\<lparr>t_editor := clear_text (t_editor t)\<rparr>))
         else if strcasecmp_eq c ''load'' then
           and_then (slurp_input_file files (fst (strtok blanks (snd (strtok blanks s)))) (t_editor t))
             (\<lambda>ed. Some (Inr (False, [], t\<lparr>t_editor := ed\<rparr>)))
         else
           and_then (append_line s (t_editor t)) (\<lambda>ed. Some (Inr (False, [], t\<lparr>t_editor := ed\<rparr>))))"

text \<open>
  The loop of \<^verbatim>\<open>main\<close>: a prompt with the number of the line, a line, its command. The
  environment can be another one at every turn \<open>n\<close>.
\<close>

partial_function (option) tool_loop ::
    "(nat \<Rightarrow> ('d, 'w) tool_env) \<Rightarrow> (string \<Rightarrow> string option) \<Rightarrow> nat \<Rightarrow> string \<Rightarrow> ('d, 'w) tool \<Rightarrow>
     (string list \<times> ('d, 'w) tool) result option" where
  "tool_loop envs files n input t =
     (let t = t\<lparr>t_editor := (t_editor t)\<lparr>ed_line := ed_line (t_editor t) + 1\<rparr>\<rparr>;
          prompt = show_int (ed_line (t_editor t)) @ ''> ''
      in Option.bind (dbrelay_readline input) (\<lambda>(s, input).
           case s of
             None \<Rightarrow> Some (Inr ([prompt], t))
           | Some s \<Rightarrow>
               loop_bind (tool_line (envs n) files s t) (\<lambda>(ended, out, t).
                 if ended then Some (Inr (prompt # out, t))
                 else
                   loop_bind (tool_loop envs files (n + 1) input t) (\<lambda>(out', t).
                     Some (Inr (prompt # out @ out', t))))))"

definition new_editor :: editor where
  "new_editor = \<lparr>mybuf = [], bufsz = 4096, buflen = 0, ed_line = 0\<rparr>"

text \<open>What it prints; none when the required options are missing and it only shows its usage.\<close>

definition tool_main ::
    "(nat \<Rightarrow> ('d, 'w) tool_env) \<Rightarrow> (string \<Rightarrow> string option) \<Rightarrow> string list \<Rightarrow> string \<Rightarrow>
     ('d, 'w) world \<Rightarrow> (string list option \<times> ('d, 'w) world) result option" where
  "tool_main envs files argv input w =
     and_then (populate_request argv (dbrelay_alloc_request\<lparr>sql_port := ''1433'', log_level := 0\<rparr>)) (\<lambda>(ok, opts).
       if \<not> ok then Some (Inr (None, w))
       else
         case o_input_file opts of
           Some fname \<Rightarrow>
             and_then (slurp_input_file files (Some fname) new_editor) (\<lambda>ed.
               loop_bind (dbrelay_db_run_query (a_query (t_admin (envs 0)))
                 ((o_request opts)\<lparr>sql := Some (mybuf ed)\<rparr>) w) (\<lambda>(out, w). Some (Inr (Some [out @ [NL]], w))))
         | None \<Rightarrow>
             loop_bind (tool_loop envs files 0 input
               \<lparr>t_request = o_request opts, t_editor = new_editor, dangling = False, t_world = w\<rparr>)
               (\<lambda>(out, t). Some (Inr (Some out, t_world t))))"

subsection \<open>Reading lines\<close>

lemma length_cstr: "length (cstr s) \<le> length s"
  by (simp add: cstr_def length_takeWhile_le)

text \<open>What a turn of the loop finds, with the room for the next one.\<close>

lemma readline_turn:
  assumes "1 < sz - length acc" "fgets (sz - length acc) input = Some (chunk, rest)"
  shows "length rest < length input" "input = chunk @ rest"
    "1 < (if length (acc @ cstr chunk) + 1024 \<ge> sz then sz + 1024 else sz) - length (acc @ cstr chunk)"
proof -
  from fgets_cut[OF assms] have c: "input = chunk @ rest" "chunk \<noteq> []" "length chunk < sz - length acc"
    by blast+
  then show "length rest < length input" "input = chunk @ rest" by simp_all
  from c(3) length_cstr[of chunk] have "length (acc @ cstr chunk) < sz" by simp
  then show "1 < (if length (acc @ cstr chunk) + 1024 \<ge> sz then sz + 1024 else sz) - length (acc @ cstr chunk)"
    by (cases "length (acc @ cstr chunk) + 1024 \<ge> sz") simp_all
qed

lemma readline_loop_ends:
  "1 < sz - length acc \<Longrightarrow> \<exists>line rest. readline_loop sz acc input = Some (line, rest) \<and>
     (length rest < length input \<or> input = [])"
proof (induction "length input" arbitrary: sz acc input rule: less_induct)
  case less
  show ?case
  proof (cases "fgets (sz - length acc) input")
    case None
    then have "input = []" by (auto simp: fgets_def Let_def split: if_splits)
    with None show ?thesis by (subst readline_loop.simps) simp
  next
    case (Some cr)
    obtain chunk rest where cr: "cr = (chunk, rest)" by (cases cr)
    note turn = readline_turn[OF less.prems Some[unfolded cr]]
    from less.hyps[OF turn(1) turn(3)] obtain line rest' where
      "readline_loop (if length (acc @ cstr chunk) + 1024 \<ge> sz then sz + 1024 else sz) (acc @ cstr chunk) rest =
        Some (line, rest')" "length rest' < length rest \<or> rest = []" by blast
    moreover from this(1) have "length rest' \<le> length rest" if "rest = []"
      using that by (subst (asm) readline_loop.simps) (auto simp: fgets_def)
    ultimately show ?thesis using turn(1)
      by (subst readline_loop.simps) (fastforce simp: Some cr Let_def)
  qed
qed

lemma readline_loop_line:
  assumes "1 < sz - length acc" "c_string (takeWhile (\<lambda>c. c \<noteq> NL) input)"
  shows "readline_loop sz acc input =
    Some (if input = [] \<and> acc = [] then None else Some (acc @ takeWhile (\<lambda>c. c \<noteq> NL) input),
      drop 1 (dropWhile (\<lambda>c. c \<noteq> NL) input))"
  using assms
proof (induction "length input" arbitrary: sz acc input rule: less_induct)
  case less
  show ?case
  proof (cases "fgets (sz - length acc) input")
    case None
    then have "input = []" by (auto simp: fgets_def Let_def split: if_splits)
    with None show ?thesis by (subst readline_loop.simps) simp
  next
    case (Some cr)
    obtain chunk rest where cr: "cr = (chunk, rest)" by (cases cr)
    note turn = readline_turn[OF less.prems(1) Some[unfolded cr]]
    from fgets_cut[OF less.prems(1) Some[unfolded cr]] have c: "chunk \<noteq> []"
      "if NL \<in> set (take (sz - length acc - 1) input) then \<exists>l. chunk = l @ [NL] \<and> NL \<notin> set l
       else chunk = take (sz - length acc - 1) input" by blast+
    show ?thesis
    proof (cases "NL \<in> set (take (sz - length acc - 1) input)")
      case True
      with c(2) obtain l where l: "chunk = l @ [NL]" "NL \<notin> set l" by auto
      have tw: "takeWhile (\<lambda>c. c \<noteq> NL) (l @ NL # t) = l" "dropWhile (\<lambda>c. c \<noteq> NL) (l @ NL # t) = NL # t" for t
        using l(2) by (auto simp: takeWhile_append dropWhile_append)
      have inp: "input = l @ NL # rest" using turn(2) l(1) by simp
      with less.prems(2) tw have "c_string chunk" by (simp add: l(1))
      then have "cstr chunk = l @ [NL]" using l(1) by (simp add: cstr_id)
      with Some cr inp tw show ?thesis by (subst readline_loop.simps) simp
    next
      case False
      with c(2) have nl: "NL \<notin> set chunk" by simp
      have tw: "takeWhile (\<lambda>c. c \<noteq> NL) (chunk @ rest) = chunk @ takeWhile (\<lambda>c. c \<noteq> NL) rest"
        "dropWhile (\<lambda>c. c \<noteq> NL) (chunk @ rest) = dropWhile (\<lambda>c. c \<noteq> NL) rest"
        using nl by (auto simp: takeWhile_append dropWhile_append)
      have twi: "takeWhile (\<lambda>c. c \<noteq> NL) input = chunk @ takeWhile (\<lambda>c. c \<noteq> NL) rest"
        "dropWhile (\<lambda>c. c \<noteq> NL) input = dropWhile (\<lambda>c. c \<noteq> NL) rest"
        unfolding turn(2) by (rule tw)+
      have cs: "c_string chunk" "c_string (takeWhile (\<lambda>c. c \<noteq> NL) rest)"
        using less.prems(2) twi(1) by simp_all
      have id: "cstr chunk = chunk" by (simp add: cstr_id cs(1))
      from less.hyps[OF turn(1) turn(3) cs(2)] have
        "readline_loop (if length (acc @ chunk) + 1024 \<ge> sz then sz + 1024 else sz) (acc @ chunk) rest =
         Some (Some (acc @ chunk @ takeWhile (\<lambda>c. c \<noteq> NL) rest), drop 1 (dropWhile (\<lambda>c. c \<noteq> NL) rest))"
        using c(1) by (simp add: id)
      moreover have "NL \<notin> set (cstr chunk)" by (simp add: id nl)
      moreover have "input \<noteq> []" using turn(2) c(1) by simp
      ultimately show ?thesis using twi id
        by (subst readline_loop.simps) (simp add: Some cr Let_def)
    qed
  qed
qed

lemma readline_line:
  "c_string l \<Longrightarrow> NL \<notin> set l \<Longrightarrow> dbrelay_readline (l @ NL # rest) = Some (Some l, rest)"
proof -
  assume l: "c_string l" "NL \<notin> set l"
  then have "takeWhile (\<lambda>c. c \<noteq> NL) (l @ NL # rest) = l" "dropWhile (\<lambda>c. c \<noteq> NL) (l @ NL # rest) = NL # rest"
    by (auto simp: takeWhile_append dropWhile_append)
  with readline_loop_line[of 1024 "[]" "l @ NL # rest"] l(1) show ?thesis
    by (simp add: dbrelay_readline_def)
qed

subsection \<open>The buffer grows in time\<close>

definition ed_wf :: "editor \<Rightarrow> bool" where
  "ed_wf ed \<longleftrightarrow> buflen ed = length (mybuf ed) \<and> buflen ed < bufsz ed"

lemma grow_enough: "0 < sz \<Longrightarrow> need \<le> grow need sz"
proof (induction need sz rule: grow.induct)
  case (1 need sz)
  then show ?case by (subst grow.simps) auto
qed

lemma put_grown:
  assumes "ed_wf ed" "length s < n"
  shows "put_text s (ed\<lparr>bufsz := grow (buflen ed + n) (bufsz ed)\<rparr>) =
    Inr (ed\<lparr>mybuf := mybuf ed @ s, bufsz := grow (buflen ed + n) (bufsz ed), buflen := buflen ed + length s\<rparr>)"
proof -
  have "buflen ed + n \<le> grow (buflen ed + n) (bufsz ed)"
    using assms(1) by (intro grow_enough) (simp add: ed_wf_def)
  with assms show ?thesis by (simp add: put_text_def ed_wf_def)
qed

lemma append_line_appends:
  assumes "ed_wf ed"
  shows "append_line s ed = Inr (ed\<lparr>mybuf := mybuf ed @ s @ [NL],
      bufsz := grow (buflen ed + length s + 2) (bufsz ed), buflen := buflen ed + length s + 1\<rparr>) \<and>
    buflen ed + length s + 1 < grow (buflen ed + length s + 2) (bufsz ed)"
proof -
  have "buflen ed + length s + 2 \<le> grow (buflen ed + length s + 2) (bufsz ed)"
    using assms by (intro grow_enough) (simp add: ed_wf_def)
  with put_grown[OF assms, of "s @ [NL]" "length s + 2"] show ?thesis
    by (simp add: append_line_def add.assoc)
qed

lemma slurp_loop_appends:
  "ed_wf ed \<Longrightarrow> \<exists>ed'. slurp_loop input ed = Inr ed' \<and> ed_wf ed' \<and>
     (c_string input \<longrightarrow> mybuf ed' = mybuf ed @ input)"
proof (induction input ed rule: slurp_loop.induct)
  case (1 input ed)
  show ?case
  proof (cases "fgets 1024 input")
    case None
    then have "input = []" by (auto simp: fgets_def Let_def split: if_splits)
    with None 1(2) show ?thesis by (subst slurp_loop.simps) simp
  next
    case (Some cr)
    obtain chunk rest where cr: "cr = (chunk, rest)" by (cases cr)
    let ?s = "cstr chunk"
    let ?ed = "ed\<lparr>mybuf := mybuf ed @ ?s, bufsz := grow (buflen ed + length ?s + 2) (bufsz ed),
      buflen := buflen ed + length ?s\<rparr>"
    have put: "put_text ?s (ed\<lparr>bufsz := grow (buflen ed + length ?s + 2) (bufsz ed)\<rparr>) = Inr ?ed"
      using put_grown[OF 1(2), of ?s "length ?s + 2"] by (simp add: add.assoc)
    have "buflen ed + length ?s + 2 \<le> grow (buflen ed + length ?s + 2) (bufsz ed)"
      using 1(2) by (intro grow_enough) (simp add: ed_wf_def)
    then have wf: "ed_wf (?ed\<lparr>ed_line := ed_line ?ed + 1\<rparr>)" using 1(2) by (simp add: ed_wf_def)
    from 1(1)[OF Some cr[symmetric] refl put wf] obtain ed' where ed': "slurp_loop rest (?ed\<lparr>ed_line := ed_line ?ed + 1\<rparr>) = Inr ed'"
      "ed_wf ed'" "c_string rest \<longrightarrow> mybuf ed' = mybuf (?ed\<lparr>ed_line := ed_line ?ed + 1\<rparr>) @ rest" by blast
    have "1 < (1024::nat)" "fgets 1024 input = Some (chunk, rest)" using Some cr by simp_all
    from fgets_cut[OF this] have inp: "input = chunk @ rest" by blast
    have "c_string (chunk @ rest) \<longrightarrow> mybuf ed' = mybuf ed @ chunk @ rest"
      using ed'(3) by (simp add: cstr_id)
    then have "c_string input \<longrightarrow> mybuf ed' = mybuf ed @ input" by (simp only: inp)
    moreover have "slurp_loop input ed = Inr ed'" using ed'(1) put
      by (subst slurp_loop.simps) (simp add: Some cr Let_def)
    ultimately show ?thesis using ed'(2) by blast
  qed
qed

subsection \<open>A typed query\<close>

text \<open>A line that is text and no command.\<close>

definition text_line :: "string \<Rightarrow> bool" where
  "text_line s \<longleftrightarrow> c_string s \<and> NL \<notin> set s \<and> \<not> is_exit (first_word s) \<and>
     \<not> strcasecmp_eq (first_word s) ''go'' \<and> \<not> strcasecmp_eq (first_word s) ''reset'' \<and>
     \<not> strcasecmp_eq (first_word s) ''load''"

definition typed :: "string list \<Rightarrow> string" where
  "typed ls = concat (map (\<lambda>l. l @ [NL]) ls)"

lemma typed_simps [simp]: "typed [] = []" "typed (l # ls) = l @ NL # typed ls"
  by (simp_all add: typed_def)

definition prompt_of :: "int \<Rightarrow> string" where
  "prompt_of n = show_int n @ ''> ''"

fun prompts :: "int \<Rightarrow> nat \<Rightarrow> string list" where
  "prompts k 0 = []"
| "prompts k (Suc n) = prompt_of (k + 1) # prompts (k + 1) n"

lemma text_line_step:
  assumes "text_line l" "ed_wf (t_editor t)"
  shows "\<exists>ed. tool_line env files l t = Some (Inr (False, [], t\<lparr>t_editor := ed\<rparr>)) \<and> ed_wf ed \<and>
    mybuf ed = mybuf (t_editor t) @ l @ [NL] \<and> ed_line ed = ed_line (t_editor t)"
proof -
  from append_line_appends[OF assms(2), of l] obtain ed where
    ed: "append_line l (t_editor t) = Inr ed" "mybuf ed = mybuf (t_editor t) @ l @ [NL]"
      "ed_line ed = ed_line (t_editor t)" "ed_wf ed"
    using assms(2) by (auto simp: ed_wf_def)
  have "tool_line env files l t = Some (Inr (False, [], t\<lparr>t_editor := ed\<rparr>))"
    using assms(1) ed(1) by (simp add: tool_line_def text_line_def)
  with ed(2-4) show ?thesis by blast
qed

lemma tool_collects:
  "list_all text_line ls \<Longrightarrow> ed_wf (t_editor t) \<Longrightarrow>
   \<exists>ed. ed_wf ed \<and> mybuf ed = mybuf (t_editor t) @ typed ls \<and> ed_line ed = ed_line (t_editor t) + int (length ls) \<and>
     tool_loop envs files n (typed ls @ rest) t =
       loop_bind (tool_loop envs files (n + length ls) rest (t\<lparr>t_editor := ed\<rparr>)) (\<lambda>(out, t').
         Some (Inr (prompts (ed_line (t_editor t)) (length ls) @ out, t')))"
proof (induction ls arbitrary: n t)
  case Nil
  have "loop_bind r (\<lambda>a. Some (Inr a)) = r" for r :: "(string list \<times> ('a, 'b) tool) result option"
  proof (cases r)
    case (Some x)
    then show ?thesis by (cases x) auto
  qed simp
  with Nil show ?case by (intro exI[of _ "t_editor t"]) simp
next
  case (Cons l ls)
  let ?t = "t\<lparr>t_editor := (t_editor t)\<lparr>ed_line := ed_line (t_editor t) + 1\<rparr>\<rparr>"
  from Cons.prems have l: "text_line l" "list_all text_line ls" "ed_wf (t_editor ?t)"
    by (simp_all add: ed_wf_def)
  from text_line_step[OF l(1,3), of "envs n" files] obtain ed where
    ed: "tool_line (envs n) files l ?t = Some (Inr (False, [], ?t\<lparr>t_editor := ed\<rparr>))" "ed_wf ed"
    "mybuf ed = mybuf (t_editor t) @ l @ [NL]" "ed_line ed = ed_line (t_editor t) + 1" by auto
  from Cons.IH[OF l(2), of "?t\<lparr>t_editor := ed\<rparr>" "n + 1"] ed(2) obtain ed' where
    ed': "ed_wf ed'" "mybuf ed' = mybuf ed @ typed ls" "ed_line ed' = ed_line ed + int (length ls)"
    "tool_loop envs files (n + 1) (typed ls @ rest) (t\<lparr>t_editor := ed\<rparr>) =
       loop_bind (tool_loop envs files (n + 1 + length ls) rest (t\<lparr>t_editor := ed'\<rparr>)) (\<lambda>(out, t').
         Some (Inr (prompts (ed_line ed) (length ls) @ out, t')))" by auto
  have "dbrelay_readline (l @ NL # typed ls @ rest) = Some (Some l, typed ls @ rest)"
    using l(1) by (intro readline_line) (simp_all add: text_line_def)
  with ed(1) have "tool_loop envs files n (typed (l # ls) @ rest) t =
      loop_bind (tool_loop envs files (n + 1) (typed ls @ rest) (t\<lparr>t_editor := ed\<rparr>)) (\<lambda>(out, t').
        Some (Inr (prompt_of (ed_line (t_editor t) + 1) # out, t')))"
    by (subst tool_loop.simps) (simp add: Let_def prompt_of_def)
  also have "\<dots> = loop_bind (tool_loop envs files (n + 1 + length ls) rest (t\<lparr>t_editor := ed'\<rparr>)) (\<lambda>(out, t').
      Some (Inr (prompts (ed_line (t_editor t)) (length (l # ls)) @ out, t')))"
    unfolding ed'(4) ed(4)
  proof (cases "tool_loop envs files (n + 1 + length ls) rest (t\<lparr>t_editor := ed'\<rparr>)")
    case (Some x)
    then show "loop_bind (loop_bind (tool_loop envs files (n + 1 + length ls) rest (t\<lparr>t_editor := ed'\<rparr>))
        (\<lambda>(out, t'). Some (Inr (prompts (ed_line (t_editor t) + 1) (length ls) @ out, t'))))
        (\<lambda>(out, t'). Some (Inr (prompt_of (ed_line (t_editor t) + 1) # out, t'))) =
      loop_bind (tool_loop envs files (n + 1 + length ls) rest (t\<lparr>t_editor := ed'\<rparr>))
        (\<lambda>(out, t'). Some (Inr (prompts (ed_line (t_editor t)) (length (l # ls)) @ out, t')))"
      by (cases x) auto
  qed simp
  finally show ?case using ed' ed by (intro exI[of _ ed']) simp
qed

definition command_text :: "string \<Rightarrow> bool" where
  "command_text s \<longleftrightarrow> starts_with s ''status'' \<or> starts_with s ''kill'' \<or> starts_with s ''list tables'' \<or>
     starts_with s ''list columns'' \<or> starts_with s ''list keys''"

lemma go_word: "first_word ''go'' = ''go''" "first_word ''quit'' = ''quit''" "\<not> is_exit ''go''" "is_exit ''quit''"
  "strcasecmp_eq ''go'' ''go''"
  by (simp_all add: first_word_def strtok_def blanks_def is_exit_def strcasecmp_eq_def tolower_def Let_def)

lemma tool_goes:
  assumes "go_command (envs n) (t\<lparr>t_editor := (t_editor t)\<lparr>ed_line := ed_line (t_editor t) + 1\<rparr>\<rparr>) =
      Some (Inr (out, t'))"
  shows "tool_loop envs files n (''go'' @ NL # ''quit'' @ [NL]) t =
    Some (Inr ([prompt_of (ed_line (t_editor t) + 1), ''mybuf '' @ mybuf (t_editor t) @ [NL], out @ [NL], prompt_of 1],
      t'\<lparr>t_editor := (clear_text (t_editor t'))\<lparr>ed_line := 1\<rparr>\<rparr>))"
proof -
  have rd: "dbrelay_readline (''go'' @ NL # ''quit'' @ [NL]) = Some (Some ''go'', ''quit'' @ [NL])"
    by (rule readline_line) simp_all
  have rd2: "dbrelay_readline (''quit'' @ [NL]) = Some (Some ''quit'', [])"
    by (rule readline_line) simp_all
  have quit: "tool_loop envs files (n + 1) (''quit'' @ [NL]) u =
      Some (Inr ([prompt_of (ed_line (t_editor u) + 1)], u\<lparr>t_editor := (t_editor u)\<lparr>ed_line := ed_line (t_editor u) + 1\<rparr>\<rparr>))" for u
    by (subst tool_loop.simps) (simp add: rd2[simplified] Let_def tool_line_def go_word prompt_of_def)
  have go: "tool_line (envs n) files ''go'' (t\<lparr>t_editor := (t_editor t)\<lparr>ed_line := ed_line (t_editor t) + 1\<rparr>\<rparr>) =
      Some (Inr (False, [''mybuf '' @ mybuf (t_editor t) @ [NL], out @ [NL]], t'\<lparr>t_editor := clear_text (t_editor t')\<rparr>))"
    using assms by (simp add: tool_line_def go_word)
  show ?thesis
    by (subst tool_loop.simps)
      (simp add: rd[simplified] go quit[simplified] Let_def prompt_of_def clear_text_def)
qed

lemma getopt_pairs:
  "getopt [''-h'', h, ''-u'', u] = [(CHR ''h'', h), (CHR ''u'', u)]"
  by (simp add: getopt_def option_letters_def)

lemma populate_host_user:
  assumes "length h < DBRELAY_NAME_SZ" "length u < DBRELAY_OBJ_SZ"
  shows "populate_request [''-h'', h, ''-u'', u] r =
    Inr (True, \<lparr>o_request = r\<lparr>sql_server := h, sql_user := u\<rparr>, o_required = 2, o_input_file = None\<rparr>)"
  using assms by (simp add: populate_request_def getopt_pairs store_option_def into_array_def Let_def)

subsection \<open>Properties\<close>

text \<open>
  Reading a line ends on every input, bytes of any value included, and takes something off the
  input unless there was nothing left, when it gives none.
\<close>

lemma readline_ends:
  "\<exists>line rest. dbrelay_readline input = Some (line, rest) \<and>
     (if input = [] then line = None else length rest < length input)"
proof (cases "input = []")
  case True
  then show ?thesis
    by (simp add: dbrelay_readline_def) (subst readline_loop.simps, simp add: fgets_def)
next
  case False
  with readline_loop_ends[of 1024 "[]" input] show ?thesis by (simp add: dbrelay_readline_def)
qed

text \<open>A computation that comes to an end, with a result or a fault, and what keeps that.\<close>

definition ends :: "'a option \<Rightarrow> bool" where
  "ends m \<longleftrightarrow> m \<noteq> None"

lemma ends_simps [simp]: "ends (Some x)" "\<not> ends None"
  by (simp_all add: ends_def)

lemma ends_binds:
  "ends m \<Longrightarrow> (\<And>x. m = Some (Inr x) \<Longrightarrow> ends (k x)) \<Longrightarrow> ends (loop_bind m k)"
  "(\<And>x. r = Inr x \<Longrightarrow> ends (k x)) \<Longrightarrow> ends (and_then r k)"
proof -
  assume "ends m" "\<And>x. m = Some (Inr x) \<Longrightarrow> ends (k x)"
  then show "ends (loop_bind m k)" by (cases m; cases "the m") (auto simp: loop_bind_def)
next
  assume "\<And>x. r = Inr x \<Longrightarrow> ends (k x)"
  then show "ends (and_then r k)" by (cases r) auto
qed

lemma ends_splits:
  "(\<And>a b. p = (a, b) \<Longrightarrow> ends (f a b)) \<Longrightarrow> ends (case p of (a, b) \<Rightarrow> f a b)"
  "(c \<Longrightarrow> ends m1) \<Longrightarrow> (\<not> c \<Longrightarrow> ends m2) \<Longrightarrow> ends (if c then m1 else m2)"
  "(o1 = None \<Longrightarrow> ends m0) \<Longrightarrow> (\<And>x. o1 = Some x \<Longrightarrow> ends (g x)) \<Longrightarrow>
     ends (case o1 of None \<Rightarrow> m0 | Some x \<Rightarrow> g x)"
  by (auto split: prod.splits option.splits)

lemmas ends_intros = ends_binds ends_splits

text \<open>Every query and every command of the environment comes to an end, with a result or a fault.\<close>

definition settles :: "('d, 'w) tool_env \<Rightarrow> bool" where
  "settles env \<longleftrightarrow> (\<forall>r w. ends (dbrelay_db_run_query (a_query (t_admin env)) r w) \<and>
     ends (dbrelay_db_cmd (t_admin env) r w))"

lemma tool_line_ends: "settles env \<Longrightarrow> ends (tool_line env files s t)"
  unfolding tool_line_def go_command_def param_command_def Let_def settles_def
  by (auto intro!: ends_intros)

lemma tool_loop_ends:
  assumes "\<And>n. settles (envs n)"
  shows "ends (tool_loop envs files n input t)"
proof (induction "length input" arbitrary: n input t rule: less_induct)
  case less
  from readline_ends[of input] obtain line rest where r: "dbrelay_readline input = Some (line, rest)"
    "if input = [] then line = None else length rest < length input" by blast
  show ?case
  proof (cases line)
    case None
    with r(1) show ?thesis by (subst tool_loop.simps) simp
  next
    case (Some s)
    with r(2) have "length rest < length input" by (auto split: if_splits)
    from less.hyps[OF this] tool_line_ends[OF assms] r(1) Some show ?thesis
      by (subst tool_loop.simps) (auto simp: Let_def intro!: ends_intros)
  qed
qed

text \<open>C36.
  The tool comes to an end on every input, every file and all options, bytes of any value included,
  as long as each query and command does that it runs: its own loops always end.
\<close>

theorem tool_terminates:
  assumes "\<forall>n. settles (envs n)"
  shows "tool_main envs files argv input w \<noteq> None"
proof -
  have "ends (dbrelay_db_run_query (a_query (t_admin (envs 0))) r w)" for r w
    using assms by (simp add: settles_def)
  moreover have "ends (tool_loop envs files n inp t)" for n inp t using tool_loop_ends assms by blast
  ultimately have "ends (tool_main envs files argv input w)"
    unfolding tool_main_def by (intro ends_intros) auto
  then show ?thesis by (simp add: ends_def)
qed


text \<open>C34.
  A session of the tool with a host and a user, some lines of text, \<open>go\<close> and \<open>quit\<close> prints
  a prompt for each line, the text, and what the query of exactly these lines over this host and
  user is answered with, and leaves the world as that query does.
\<close>

theorem tool_runs_typed_query:
  assumes "length h < DBRELAY_NAME_SZ" "length u < DBRELAY_OBJ_SZ"
    and "list_all text_line ls" "\<not> command_text (typed ls)"
    and "dbrelay_db_run_query (a_query (t_admin (envs (length ls))))
        (dbrelay_alloc_request\<lparr>sql_port := ''1433'', log_level := 0, sql_server := h, sql_user := u,
           sql := Some (typed ls)\<rparr>) w = Some (Inr (reply, w'))"
  shows "tool_main envs files [''-h'', h, ''-u'', u] (typed ls @ ''go'' @ NL # ''quit'' @ [NL]) w =
    Some (Inr (Some (prompts 0 (length ls) @
      [prompt_of (int (length ls) + 1), ''mybuf '' @ typed ls @ [NL], reply @ [NL], prompt_of 1]), w'))"
proof -
  let ?r = "dbrelay_alloc_request\<lparr>sql_port := ''1433'', log_level := 0\<rparr>"
  let ?t = "\<lparr>t_request = ?r\<lparr>sql_server := h, sql_user := u\<rparr>, t_editor = new_editor, dangling = False, t_world = w\<rparr>"
  have "ed_wf (t_editor ?t)" by (simp add: ed_wf_def new_editor_def)
  from tool_collects[OF assms(3) this, of envs files 0 "''go'' @ NL # ''quit'' @ [NL]"] obtain ed where
    ed: "mybuf ed = typed ls" "ed_line ed = int (length ls)"
    "tool_loop envs files 0 (typed ls @ ''go'' @ NL # ''quit'' @ [NL]) ?t =
       loop_bind (tool_loop envs files (length ls) (''go'' @ NL # ''quit'' @ [NL]) (?t\<lparr>t_editor := ed\<rparr>))
         (\<lambda>(out, t'). Some (Inr (prompts 0 (length ls) @ out, t')))"
    by (auto simp: new_editor_def)
  let ?u = "?t\<lparr>t_editor := ed\<rparr>"
  let ?u1 = "?u\<lparr>t_editor := ed\<lparr>ed_line := ed_line ed + 1\<rparr>\<rparr>"
  have "go_command (envs (length ls)) ?u1 = Some (Inr (reply,
      ?u1\<lparr>t_request := (t_request ?u1)\<lparr>sql := Some (typed ls)\<rparr>, t_world := w'\<rparr>))"
    using assms(4,5) ed(1) by (simp add: go_command_def command_text_def Let_def)
  then have "tool_loop envs files (length ls) (''go'' @ NL # ''quit'' @ [NL]) ?u =
      Some (Inr ([prompt_of (int (length ls) + 1), ''mybuf '' @ typed ls @ [NL], reply @ [NL], prompt_of 1],
        ?u1\<lparr>t_request := (t_request ?u1)\<lparr>sql := Some (typed ls)\<rparr>, t_world := w',
          t_editor := (clear_text (ed\<lparr>ed_line := ed_line ed + 1\<rparr>))\<lparr>ed_line := 1\<rparr>\<rparr>))"
    using tool_goes[of "envs" "length ls" ?u reply] ed(1,2) by simp
  with ed(3) show ?thesis
    by (simp add: tool_main_def populate_host_user[OF assms(1,2)])
qed

text \<open>
  After a command with a parameter the request keeps a pointer into a copy of the text that was
  freed, and the next query reads it.
\<close>

lemma stale_parameter_faults:
  assumes "param_command env c (Some p) t = Some (Inr (out, t'))" "\<not> command_text (mybuf ed)"
  shows "go_command env' (t'\<lparr>t_editor := ed\<rparr>) = Some (Inl Out_Of_Bounds)"
proof -
  from assms(1) have "dangling t'" by (auto simp: param_command_def loop_bind_eq_Inr_iff Let_def)
  with assms(2) show ?thesis by (simp add: go_command_def command_text_def Let_def)
qed

subsection \<open>Samples\<close>

definition sample_tool :: "(memory_db, unit) tool_env" where
  "sample_tool = \<lparr>t_admin = sample_admin, t_time = (\<lambda>n. ''now''), t_build = ''1'', t_key = 7\<rparr>"

text \<open>An environment whose queries all end: connections are made, but the database is never there.\<close>

definition gone_api :: "memory_db dbapi" where
  "gone_api = memory_api\<lparr>api_connected := (\<lambda>h d. Inr False)\<rparr>"

definition gone_tool :: "(memory_db, unit) tool_env" where
  "gone_tool = sample_tool\<lparr>t_admin := sample_admin\<lparr>a_query := sample_query_env\<lparr>q_api := gone_api\<rparr>\<rparr>\<rparr>"

lemma sample_connect_some: "dbrelay_socket_connect sample_calls path 10 = Inr (s, e) \<Longrightarrow> s \<noteq> - 1"
  by (auto simp: dbrelay_socket_connect_def sample_calls_def split: if_splits)

lemma gone_run_ends: "ends (dbrelay_db_run_query (sample_query_env\<lparr>q_api := gone_api\<rparr>) r w)"
proof -
  let ?env = "sample_query_env\<lparr>q_api := gone_api\<rparr>"
  have "connect_calls (with_handle h sample_pass) = sample_calls" for h
    by (simp add: sample_pass_def with_handle_def)
  then have "ends (dbrelay_wait_for_connection (map (with_handle h) (q_passes ?env)) r0 t)" for h r0 t
    by (auto simp: sample_query_env_def Let_def dest: sample_connect_some intro!: ends_intros)
  moreover have "ends (query_over_connector ?env r0 i s j w0)" for r0 i s j w0
    by (simp add: query_over_connector_def sample_query_env_def dbrelay_conn_initialize_def broken_channel_def)
  moreover have "ends (query_directly ?env r0 h q j w0)" for r0 h q j w0
    by (auto simp: query_directly_def gone_api_def intro!: ends_intros)
  moreover have "ends (finish_query ?env r0 i x)" for r0 i x
    by (cases x; cases "fst x") (auto simp: finish_query_def Let_def intro!: ends_intros)
  ultimately show ?thesis unfolding dbrelay_db_run_query_def Let_def
    by (auto simp del: dbrelay_wait_for_connection.simps intro!: ends_intros)
qed

lemma gone_settles: "settles gone_tool"
proof -
  let ?adm = "sample_admin\<lparr>a_query := sample_query_env\<lparr>q_api := gone_api\<rparr>\<rparr>"
  have "\<exists>wire'. dbrelay_conn_kill (q_channel (a_query ?adm) s) wire = Some wire'" for s wire
    by (simp add: sample_query_env_def dbrelay_conn_kill_def send_and_recv_def broken_channel_def)
  then have "ends (map_option f (dbrelay_conn_kill (q_channel (a_query ?adm) s) wire))" for f s wire
    by (simp add: ends_def)
  then have "ends (dbrelay_admin_kill ?adm path w)" for path w
    unfolding dbrelay_admin_kill_def by (auto intro!: ends_intros)
  then have "ends (dbrelay_db_cmd ?adm r w)" for r w
    unfolding dbrelay_db_cmd_def dbrelay_admin_tables_def dbrelay_admin_columns_def dbrelay_admin_pkey_def
      catalog_query_def using gone_run_ends by (auto intro!: ends_intros)
  then show ?thesis using gone_run_ends by (simp add: settles_def gone_tool_def)
qed

theorem tool_terminates_witness:
  "tool_main (\<lambda>n. gone_tool) Map.empty [''-h'', ''db1'', ''-u'', ''me''] (''select 1'' @ NL # ''go'' @ [NUL, NL]) sample_world \<noteq> None"
  by (rule tool_terminates) (simp add: gone_settles)


theorem tool_runs_typed_query_witness:
  "\<exists>reply. tool_main (\<lambda>n. sample_tool) Map.empty [''-h'', ''db1'', ''-u'', []]
      (''select 1'' @ NL # ''go'' @ NL # ''quit'' @ [NL]) sample_world =
     Some (Inr (Some ([''1> ''] @ [''2> '', ''mybuf '' @ ''select 1'' @ [NL, NL], reply @ [NL], ''1> '']), sample_world))"
proof -
  let ?r = "dbrelay_alloc_request\<lparr>sql_port := ''1433'', log_level := 0, sql_server := ''db1'', sql_user := [],
     sql := Some (typed [''select 1''])\<rparr>"
  have "\<exists>reply. dbrelay_db_run_query (a_query (t_admin sample_tool)) ?r sample_world = Some (Inr (reply, sample_world))"
    by (simp add: dbrelay_db_run_query_def dbrelay_check_request_def)
  then obtain reply where 1: "dbrelay_db_run_query (a_query (t_admin sample_tool)) ?r sample_world =
      Some (Inr (reply, sample_world))" by blast
  have 2: "list_all text_line [''select 1'']" "\<not> command_text (typed [''select 1''])"
    by (simp_all add: text_line_def first_word_def strtok_def blanks_def is_exit_def strcasecmp_eq_def
        tolower_def command_text_def starts_with_def strncmp_eq_def Let_def)
  have 3: "length ''db1'' < DBRELAY_NAME_SZ" "length ([] :: string) < DBRELAY_OBJ_SZ"
    by (simp_all add: DBRELAY_NAME_SZ_def DBRELAY_OBJ_SZ_def)
  from tool_runs_typed_query[OF 3 2 1[folded list.size(3)], of Map.empty] show ?thesis
    by (simp add: prompt_of_def show_int_def show_nat.simps digit_char_def char_of_def bit_0)
qed

end
