(* ===== verification/Log.thy ===== *)
theory Log
  imports Request
begin

section \<open>Logging (src/log.c)\<close>

text \<open>
  The five functions write a message when the level of the request is not above the number of
  their own. The numbers come from the build: those of the command line tool are in src/dbrelay.h,
  in the server they are nginx's, here the parameter \<open>lvl\<close>. What the format makes of its
  arguments is a text. It goes through an array that is cleared before; in the server a long text
  can fill it without a terminator.
\<close>

datatype severity = Debug | Info | Notice | Warn | Error

fun cmdline_level :: "severity \<Rightarrow> int" where
  "cmdline_level Debug = 1"
| "cmdline_level Info = 2"
| "cmdline_level Notice = 3"
| "cmdline_level Warn = 4"
| "cmdline_level Error = 5"

text \<open>The severities are ordered as their numbers in the tool are.\<close>

instantiation severity :: linorder
begin

definition less_eq_severity :: "severity \<Rightarrow> severity \<Rightarrow> bool" where
  "less_eq_severity a b \<longleftrightarrow> cmdline_level a \<le> cmdline_level b"

definition less_severity :: "severity \<Rightarrow> severity \<Rightarrow> bool" where
  "less_severity a b \<longleftrightarrow> cmdline_level a < cmdline_level b"

instance
proof
  fix a b :: severity
  show "a \<le> b \<Longrightarrow> b \<le> a \<Longrightarrow> a = b"
    by (cases a; cases b) (simp_all add: less_eq_severity_def)
qed (auto simp: less_eq_severity_def less_severity_def)

end

definition NGX_MAX_ERROR_STR :: nat where "NGX_MAX_ERROR_STR = 4096"

datatype log_build = Server nat | Tool

text \<open>\<open>Server n\<close> is the server with arrays of \<open>n\<close> bytes. The line that is written.\<close>

definition dbrelay_log :: "log_build \<Rightarrow> string \<Rightarrow> string result" where
  "dbrelay_log build msg =
     (case build of
        Server n \<Rightarrow>
          (let buf = take n msg
           in if length buf < n then Inr (buf @ [NL]) else Inl Out_Of_Bounds)
      | Tool \<Rightarrow> Inr (take (NGX_MAX_ERROR_STR - 1) msg @ [NL]))"

definition log_at ::
    "(severity \<Rightarrow> int) \<Rightarrow> log_build \<Rightarrow> severity \<Rightarrow> dbrelay_request \<Rightarrow> string \<Rightarrow> string option result" where
  "log_at lvl build sev r msg =
     (if log_level r > lvl sev then Inr None
      else rbind (dbrelay_log build msg) (\<lambda>line. Inr (Some line)))"

definition dbrelay_log_debug ::
    "(severity \<Rightarrow> int) \<Rightarrow> log_build \<Rightarrow> dbrelay_request \<Rightarrow> string \<Rightarrow> string option result" where
  "dbrelay_log_debug lvl build = log_at lvl build Debug"

definition dbrelay_log_info ::
    "(severity \<Rightarrow> int) \<Rightarrow> log_build \<Rightarrow> dbrelay_request \<Rightarrow> string \<Rightarrow> string option result" where
  "dbrelay_log_info lvl build = log_at lvl build Info"

definition dbrelay_log_notice ::
    "(severity \<Rightarrow> int) \<Rightarrow> log_build \<Rightarrow> dbrelay_request \<Rightarrow> string \<Rightarrow> string option result" where
  "dbrelay_log_notice lvl build = log_at lvl build Notice"

definition dbrelay_log_warn ::
    "(severity \<Rightarrow> int) \<Rightarrow> log_build \<Rightarrow> dbrelay_request \<Rightarrow> string \<Rightarrow> string option result" where
  "dbrelay_log_warn lvl build = log_at lvl build Warn"

definition dbrelay_log_error ::
    "(severity \<Rightarrow> int) \<Rightarrow> log_build \<Rightarrow> dbrelay_request \<Rightarrow> string \<Rightarrow> string option result" where
  "dbrelay_log_error lvl build = log_at lvl build Error"

lemmas log_functions = dbrelay_log_debug_def dbrelay_log_info_def dbrelay_log_notice_def
  dbrelay_log_warn_def dbrelay_log_error_def log_at_def

subsection \<open>Properties\<close>

lemma index_critical: "index_loop log_levels ''critical'' 0 cur = 5"
  by (simp add: log_levels_def)

lemma index_levels:
  assumes "v \<in> set log_levels" "v \<noteq> ''critical''"
  shows "index_loop log_levels v 0 cur \<le> 4"
  using assms by (auto simp: log_levels_def)

lemma store_log_level:
  "store_value r ''log_level'' v = r\<lparr>log_level := index_loop log_levels v 0 (log_level r)\<rparr>"
  by (simp add: store_value_def)

text \<open>In the server, whose numbers fall with the severity while the levels a request can name rise,
  no level that a request names holds back anything but errors: with \<open>critical\<close> the errors are
  dropped and all the messages below them are written, with every other name all are written.
\<close>

theorem server_levels_inverted:
  assumes "\<forall>sev. lvl sev = (case sev of Error \<Rightarrow> 4 | Warn \<Rightarrow> 5 | Notice \<Rightarrow> 6 | Info \<Rightarrow> 7 | Debug \<Rightarrow> 8)"
    and "length msg < n" "v \<in> set log_levels"
  shows "log_at lvl (Server n) sev (store_value r ''log_level'' v) msg =
    Inr (if v = ''critical'' \<and> sev = Error then None else Some (msg @ [NL]))"
proof (cases "v = ''critical''")
  case True
  show ?thesis using assms(1,2)
    by (cases sev) (simp_all add: True store_log_level index_critical log_at_def dbrelay_log_def Let_def)
next
  case False
  note low = index_levels[OF assms(3) False, of "log_level r"]
  show ?thesis using assms(1,2) low False
    by (cases sev) (simp_all add: store_log_level log_at_def dbrelay_log_def Let_def)
qed

theorem server_levels_inverted_witness:
  "log_at (\<lambda>sev. case sev of Error \<Rightarrow> 4 | Warn \<Rightarrow> 5 | Notice \<Rightarrow> 6 | Info \<Rightarrow> 7 | Debug \<Rightarrow> 8) (Server 2048) Error
     (store_value zero_request ''log_level'' ''critical'') ''m'' = Inr None"
  using server_levels_inverted[of "\<lambda>sev. case sev of Error \<Rightarrow> 4 | Warn \<Rightarrow> 5 | Notice \<Rightarrow> 6 | Info \<Rightarrow> 7 | Debug \<Rightarrow> 8"
      "''m''" 2048 "''critical''" Error zero_request] by (simp add: log_levels_def)

lemma log_written: "(log_at cmdline_level Tool sev r msg = Inr None) = (cmdline_level sev < log_level r)"
  by (simp add: log_at_def dbrelay_log_def)

text \<open>
  In the tool, whose numbers rise with the severity, a level holds back exactly what is below it:
  when a message is held back, so is every one that is less severe, and the level of a severity
  holds back what is below it and lets it through.
\<close>

lemma tool_levels:
  shows "a \<le> b \<Longrightarrow> log_at cmdline_level Tool b r msg = Inr None \<Longrightarrow> log_at cmdline_level Tool a r msg' = Inr None"
    and "(log_at cmdline_level Tool a (r\<lparr>log_level := cmdline_level b\<rparr>) msg = Inr None) = (a < b)"
  unfolding log_written by (simp_all add: less_eq_severity_def less_severity_def)

end
