(* ===== verification/Shmem.thy ===== *)
theory Shmem
  imports Pool
begin

section \<open>The shared segment and its lock (src/shmem.c)\<close>

text \<open>
  The System V segment that holds the connection table, and the semaphore that guards it.
  An \<open>ipc\<close> state has the table (none before creation and after destruction), the value of
  the semaphore, the adjustments the kernel keeps for \<^verbatim>\<open>SEM_UNDO\<close>, and the processes
  between \<open>dbrelay_get_shmem\<close> and \<open>dbrelay_release_shmem\<close>. A call of \<^verbatim>\<open>semop\<close>
  that the kernel refuses (\<^verbatim>\<open>EINTR\<close>, \<^verbatim>\<open>EIDRM\<close>) is the argument \<open>fail\<close>;
  \<open>None\<close> is a process that waits.
\<close>

record ipc =
  shm :: "table option"
  semval :: "nat option"
  undo :: "int \<Rightarrow> int"
  attached :: "int list"

definition no_ipc :: ipc where
  "no_ipc = \<lparr>shm = None, semval = None, undo = (\<lambda>_. 0), attached = []\<rparr>"

definition dbrelay_create_shmem :: "ipc \<Rightarrow> ipc" where
  "dbrelay_create_shmem s =
     s\<lparr>shm := Some empty_table, semval := Some 1, undo := (\<lambda>_. 0)\<rparr>"

definition dbrelay_destroy_shmem :: "ipc \<Rightarrow> ipc" where
  "dbrelay_destroy_shmem s = s\<lparr>shm := None, semval := None\<rparr>"

text \<open>
  The source compares the result of \<^verbatim>\<open>semop\<close> with \<open>1\<close>, a value it never returns, so a
  refused call goes on like a granted one.
\<close>

definition dbrelay_lock_shmem :: "int \<Rightarrow> bool \<Rightarrow> ipc \<Rightarrow> ipc option" where
  "dbrelay_lock_shmem p fail s =
     (case semval s of
        None \<Rightarrow> Some s
      | Some v \<Rightarrow>
          if fail then Some s
          else if v = 0 then None
          else Some (s\<lparr>semval := Some (v - 1), undo := (undo s)(p := undo s p + 1)\<rparr>))"

definition dbrelay_unlock_shmem :: "int \<Rightarrow> ipc \<Rightarrow> ipc" where
  "dbrelay_unlock_shmem p s =
     (case semval s of
        None \<Rightarrow> s
      | Some v \<Rightarrow> s\<lparr>semval := Some (v + 1), undo := (undo s)(p := undo s p - 1)\<rparr>)"

definition dbrelay_get_shmem :: "int \<Rightarrow> bool \<Rightarrow> ipc \<Rightarrow> (ipc \<times> table option) option" where
  "dbrelay_get_shmem p fail s =
     (case dbrelay_lock_shmem p fail s of
        None \<Rightarrow> None
      | Some s \<Rightarrow>
          (case shm s of
             None \<Rightarrow> Some (s, None)
           | Some t \<Rightarrow> Some (s\<lparr>attached := p # attached s\<rparr>, Some t)))"

definition dbrelay_release_shmem :: "int \<Rightarrow> ipc \<Rightarrow> ipc" where
  "dbrelay_release_shmem p s =
     dbrelay_unlock_shmem p (s\<lparr>attached := removeAll p (attached s)\<rparr>)"

text \<open>The kernel's part when a process ends: its segment is detached, its adjustment applied.\<close>

definition process_exit :: "int \<Rightarrow> ipc \<Rightarrow> ipc" where
  "process_exit p s =
     s\<lparr>semval := map_option (\<lambda>v. nat (int v + undo s p)) (semval s), undo := (undo s)(p := 0),
       attached := removeAll p (attached s)\<rparr>"

subsection \<open>The processes on the segment\<close>

inductive shm_step :: "bool \<Rightarrow> ipc \<Rightarrow> ipc \<Rightarrow> bool" for faults :: bool where
  attach: "p \<notin> set (attached s) \<Longrightarrow> (fail \<Longrightarrow> faults) \<Longrightarrow>
    dbrelay_get_shmem p fail s = Some (s', Some t) \<Longrightarrow> shm_step faults s s'"
| work: "p \<in> set (attached s) \<Longrightarrow> shm s = Some t \<Longrightarrow> pool_step t t' \<Longrightarrow>
    shm_step faults s (s\<lparr>shm := Some t'\<rparr>)"
| detach: "p \<in> set (attached s) \<Longrightarrow> shm_step faults s (dbrelay_release_shmem p s)"
| exits: "shm_step faults s (process_exit p s)"

inductive_cases shm_stepE: "shm_step faults s s'"

text \<open>At most one process is inside, and the semaphore and the adjustments say which.\<close>

definition lock_ok :: "ipc \<Rightarrow> bool" where
  "lock_ok s \<longleftrightarrow>
     attached s = [] \<and> semval s = Some 1 \<and> undo s = (\<lambda>_. 0) \<or>
     (\<exists>p. attached s = [p] \<and> semval s = Some 0 \<and> undo s = (\<lambda>_. 0)(p := 1))"

definition ipc_ok :: "ipc \<Rightarrow> bool" where
  "ipc_ok s \<longleftrightarrow> lock_ok s \<and> pred_option table_wf (shm s)"

lemma lock_ok_attach:
  "lock_ok s \<Longrightarrow> p \<notin> set (attached s) \<Longrightarrow> dbrelay_get_shmem p False s = Some (s', Some t) \<Longrightarrow>
     lock_ok s' \<and> shm s' = shm s"
  by (auto simp: lock_ok_def dbrelay_get_shmem_def dbrelay_lock_shmem_def
      split: option.splits if_splits)

lemma lock_ok_detach: "lock_ok s \<Longrightarrow> p \<in> set (attached s) \<Longrightarrow> lock_ok (dbrelay_release_shmem p s)"
  by (auto simp: lock_ok_def dbrelay_release_shmem_def dbrelay_unlock_shmem_def)

lemma lock_ok_exit: "lock_ok s \<Longrightarrow> lock_ok (process_exit p s)"
  unfolding lock_ok_def process_exit_def
  by (elim disjE exE; cases "p \<in> set (attached s)") auto

lemma release_shm [simp]: "shm (dbrelay_release_shmem p s) = shm s"
  by (simp add: dbrelay_release_shmem_def dbrelay_unlock_shmem_def split: option.splits)

lemma exit_shm [simp]: "shm (process_exit p s) = shm s"
  by (simp add: process_exit_def)

lemma shm_step_ok: "shm_step False s s' \<Longrightarrow> ipc_ok s \<Longrightarrow> ipc_ok s'"
proof (induction rule: shm_step.induct)
  case (attach p s fail s' t)
  then show ?case using lock_ok_attach[of s p s' t] by (cases fail) (simp_all add: ipc_ok_def)
next
  case (work p s t t')
  then show ?case using pool_step_wf[of t t'] by (simp add: ipc_ok_def lock_ok_def)
qed (simp_all add: ipc_ok_def lock_ok_detach lock_ok_exit)

lemma create_ok: "ipc_ok (dbrelay_create_shmem no_ipc)"
  by (simp add: ipc_ok_def lock_ok_def dbrelay_create_shmem_def no_ipc_def empty_table_wf)

interpretation shmem: invariant_system
  "\<lambda>s. s = dbrelay_create_shmem no_ipc" "shm_step False" ipc_ok
  by unfold_locales (auto simp: create_ok intro: shm_step_ok)

subsection \<open>Properties\<close>


text \<open>C18.
  The lock is never lost: in every reachable state a process that is not inside gets the segment
  at once when nobody is inside, and gets it after the process inside releases it or dies.
\<close>

theorem shmem_lock_available:
  assumes "(shm_step False)\<^sup>*\<^sup>* (dbrelay_create_shmem no_ipc) s"
  shows "case attached s of
       [] \<Rightarrow> dbrelay_lock_shmem p False s \<noteq> None
     | q # _ \<Rightarrow> dbrelay_lock_shmem p False s = None \<and>
         dbrelay_lock_shmem p False (dbrelay_release_shmem q s) \<noteq> None \<and>
         dbrelay_lock_shmem p False (process_exit q s) \<noteq> None"
  using shmem.reachable_inv[OF _ assms]
  by (auto simp: ipc_ok_def lock_ok_def dbrelay_lock_shmem_def dbrelay_release_shmem_def
      dbrelay_unlock_shmem_def process_exit_def)

text \<open>The run of two processes of which one has its \<^verbatim>\<open>semop\<close> refused.\<close>

definition held :: "int list \<Rightarrow> nat \<Rightarrow> (int \<Rightarrow> int) \<Rightarrow> ipc" where
  "held ps v u = \<lparr>shm = Some empty_table, semval = Some v, undo = u, attached = ps\<rparr>"

lemma held_attach:
  "p \<notin> set ps \<Longrightarrow> shm_step True (held ps (Suc v) u) (held (p # ps) v (u(p := u p + 1)))"
  "p \<notin> set ps \<Longrightarrow> shm_step True (held ps v u) (held (p # ps) v u)"
  by (rule shm_step.attach[where fail = False and t = empty_table]; simp add: held_def dbrelay_get_shmem_def
      dbrelay_lock_shmem_def)
    (rule shm_step.attach[where fail = True and t = empty_table]; simp add: held_def dbrelay_get_shmem_def
      dbrelay_lock_shmem_def)

lemma held_detach:
  "p \<in> set ps \<Longrightarrow>
     shm_step True (held ps v u) (held (removeAll p ps) (Suc v) (u(p := u p - 1)))"
  using shm_step.detach[of p "held ps v u" True]
  by (simp add: held_def dbrelay_release_shmem_def dbrelay_unlock_shmem_def)

text \<open>One refused \<^verbatim>\<open>semop\<close> is not noticed, and the lock does not recover from it: two processes
  are then inside the segment together, and after both have released it the semaphore is two, so
  from then on two processes can be inside without any further fault.
\<close>

theorem refused_semop_breaks_lock:
  "(shm_step True)\<^sup>*\<^sup>* (dbrelay_create_shmem no_ipc) (held [2, 1] 0 ((\<lambda>_. 0)(1 := 1))) \<and>
   (shm_step True)\<^sup>*\<^sup>* (held [2, 1] 0 ((\<lambda>_. 0)(1 := 1))) (held [] 2 ((\<lambda>_. 0)(2 := -1)))"
proof
  have c: "dbrelay_create_shmem no_ipc = held [] 1 (\<lambda>_. 0)"
    by (simp add: dbrelay_create_shmem_def no_ipc_def held_def)
  have "shm_step True (held [] 1 (\<lambda>_. 0)) (held [1] 0 ((\<lambda>_. 0)(1 := 1)))"
    using held_attach(1)[of 1 "[]" 0 "\<lambda>_. 0"] by simp
  moreover have "shm_step True (held [1] 0 ((\<lambda>_. 0)(1 := 1))) (held [2, 1] 0 ((\<lambda>_. 0)(1 := 1)))"
    by (rule held_attach(2)) simp
  ultimately show "(shm_step True)\<^sup>*\<^sup>* (dbrelay_create_shmem no_ipc)
      (held [2, 1] 0 ((\<lambda>_. 0)(1 := 1)))"
    unfolding c by (meson converse_rtranclp_into_rtranclp rtranclp.rtrancl_refl)
  have "shm_step True (held [2, 1] 0 ((\<lambda>_. 0)(1 := 1))) (held [1] 1 ((\<lambda>_. 0)(1 := 1, 2 := -1)))"
    using held_detach[of 2 "[2, 1]" 0 "(\<lambda>_. 0)(1 := 1)"] by simp
  moreover have "shm_step True (held [1] 1 ((\<lambda>_. 0)(1 := 1, 2 := -1)))
      (held [] 2 ((\<lambda>_. 0)(2 := -1)))"
  proof -
    have "((\<lambda>_. 0)(1 := 1, 2 := -1))(1 := 0) = ((\<lambda>_. 0)(2 := -1 :: int) :: int \<Rightarrow> int)" by auto
    then show ?thesis
      using held_detach[of 1 "[1]" 1 "(\<lambda>_. 0)(1 := 1, 2 := -1)"] by (simp add: numeral_2_eq_2)
  qed
  ultimately show "(shm_step True)\<^sup>*\<^sup>* (held [2, 1] 0 ((\<lambda>_. 0)(1 := 1)))
      (held [] 2 ((\<lambda>_. 0)(2 := -1)))"
    by (meson converse_rtranclp_into_rtranclp rtranclp.rtrancl_refl)
qed

lemma one_inside:
  "(shm_step False)\<^sup>*\<^sup>* (dbrelay_create_shmem no_ipc) (held [5] 0 ((\<lambda>_. 0)(5 := 1)))"
proof -
  have "shm_step False (dbrelay_create_shmem no_ipc) (held [5] 0 ((\<lambda>_. 0)(5 := 1)))"
    by (rule shm_step.attach[where p = 5 and fail = False and t = empty_table])
      (simp_all add: dbrelay_create_shmem_def no_ipc_def held_def dbrelay_get_shmem_def
        dbrelay_lock_shmem_def)
  then show ?thesis ..
qed


theorem shmem_lock_available_witness:
  "dbrelay_lock_shmem 6 False (held [5] 0 ((\<lambda>_. 0)(5 := 1))) = None \<and>
   dbrelay_lock_shmem 6 False (process_exit 5 (held [5] 0 ((\<lambda>_. 0)(5 := 1)))) \<noteq> None"
  using shmem_lock_available[OF one_inside, of 6] by (simp add: held_def)

end
