(* ===== verification/Spec2Isabelle.thy ===== *)
theory Spec2Isabelle
  imports Shared_Stack Catalog Process Http_Conf Mysql Odbc Cmdline Log Shmem
begin

text \<open>
  DB Relay (ngx_dbrelay) is an nginx module that takes SQL in HTTP requests, runs it on SQL Server,
  MySQL or over ODBC, and answers with JSON. This development models its C code, src/src, and
  proves what makes its parts and their composition correct.

  \<^bold>\<open>The program.\<close> A worker of nginx gets a request (src/ngx_http_dbrelay_module.c), parses its
  query string or body into a request structure, and dispatches it: a query (db.c), the status page
  (db.c) or a command (admin.c). A query gets a slot in the connection table (db.c), which lives in
  shared memory behind a semaphore (shmem.c). Without a connection name the worker opens a database
  connection of its own through a driver (mssql.c, mysql.c, odbc.c); with one it talks over a local
  socket (socket.c, client.c) to a connector process (connector.c), which keeps the connection open
  for all workers. Results are written with the JSON writer (json.c) into a string buffer
  (stringbuf.c). The same code runs in a command line tool (main.c). Messages go through log.c.

  \<^bold>\<open>The theories\<close>, each with the source it models; definitions carry the names of the C
  functions, helpers of a function are named in the texts beside them.

  \<^item> \<open>Prelude\<close>: faults as values (\<open>c_fault\<close>: a null pointer, an access out of bounds, a buffer
    run over), the result type, binds for results and for loops that may not end, C strings and
    their library functions, numbers printed and read, the locale \<open>invariant_system\<close> of states and steps that keep an
    invariant, which \<open>Pool\<close>, \<open>Shmem\<close> and \<open>Process\<close> interpret.
  \<^item> \<open>Stringbuf\<close> (stringbuf.c): the linked list on a heap of cells, the same buffer as a list, and
    the locale \<open>text_buffer\<close> that both interpret.
  \<^item> \<open>Json\<close>, \<open>Json_Tree\<close> (json.c): the writer; trees, the text of a tree, and the lemma that the
    calls that emit a tree write its text; strings read back.
  \<^item> \<open>Request\<close> (dbrelay.h, db.c, write_value of the module): the request and connection records and
    how a key and a value are stored. \<open>Query_String\<close>: the three parsers, for a query, for a body in
    memory, for a body in a file. \<open>Params\<close> (dbrelay_resolve_params): placeholders.
  \<^item> \<open>Pool\<close> (the table in db.c): allocation, sharing, release and the sweep, with the invariant of
    every interleaving. \<open>Shmem\<close> (shmem.c): the segment and its semaphore as a step relation of many
    processes, some of which die or whose calls are refused.
  \<^item> \<open>Socket\<close> (socket.c): waiting, sending, and the cutting of a stream into lines.
  \<^item> \<open>Result\<close> (dbrelay_exec_query, dbrelay_db_fill_data): result sets to JSON over a table of driver
    functions. Every function of the table gives a result, so a fault of a driver is a fault of the
    code that called it. \<open>Driver\<close>: the contract of a driver as a locale; \<open>Serving\<close>: the same
    contract for a whole query, from the login to the closing, with what the database runs and what it
    refuses as predicates. \<open>Mssql\<close>, \<open>Mysql\<close>, \<open>Odbc\<close>: the three drivers over their client
    libraries, each an interpretation of both; \<open>Mssql_Catalog\<close> the queries the first makes for
    the commands.
  \<^item> \<open>Connector\<close> (connector.c): the lines it understands and what it answers. \<open>Process\<close>: its main
    loop with clients, timer and signal. \<open>Client\<close> (client.c): the worker's side. \<open>Session\<close>: both
    sides connected by a socket that may cut the bytes anywhere.
  \<^item> \<open>Run_Query\<close> (dbrelay_db_run_query), \<open>Status\<close> (dbrelay_db_status): a query and the status page
    in a worker, with the state of its driver. \<open>System\<close>: a query through table, socket, connector and database. \<open>Admin\<close> (admin.c).
  \<^item> \<open>Http_Module\<close>, \<open>Http_Conf\<close> (the module): headers, origins, the handler, the response, the end
    of the master; directives and the serving of a location. \<open>Stack\<close>: an HTTP request, with its pairs in
    the query part or in the body, through login, slot and driver to SQL Server, MySQL or ODBC and
    back, with results, a refused query or a refused login; \<open>Shared_Stack\<close>: the same over a shared
    connection, through a connector process; \<open>Catalog\<close>: the commands for the columns and the key
    of a table.
  \<^item> \<open>Cmdline\<close> (main.c): options, reading lines, the text buffer, commands and the main loop.
    \<open>Log\<close> (log.c): the filter by level. At the end of this file: the main loop of a connector
    with the SQL Server driver.

  \<^bold>\<open>How the code is modelled.\<close> A C structure is a record, an array with a size a list or string
  whose every write is checked against the size; a check that fails is a fault in the result. State
  that C keeps in globals, in shared memory or in a library is passed explicitly. A loop whose end
  depends on a peer, a driver or the input is a \<open>partial_function (option)\<close>, or runs over the list
  of the environment's answers; \<open>None\<close> means that it goes on for ever, or that the list of answers
  ended while it was still waiting. So a theorem that gives \<open>Some (Inr x)\<close> says that the code
  returns, without a fault, with \<open>x\<close>; there is no fuel. Widths are kept where they matter: the count of users and
  the flags are words, the lengths of MySQL columns are cut to an int, a descriptor is a 32 bit word.

  \<^bold>\<open>Parameters.\<close> Code that is not in src/ is an argument: nginx's unescaping of a URI, its request
  and its reading of bodies; the system calls and the clock; db-library, the MySQL client library
  and the ODBC manager as records of functions on a state of their own. What is relied on of them is
  a hypothesis in terms of their documentation, such as \<open>lib_sets\<close> in \<open>Mssql\<close>: successive calls give
  the columns and rows of a list of result sets. Every theorem with hypotheses has a witness on
  concrete functions.

  \<^bold>\<open>What the lemmas show.\<close> For each component, first the operations alone (every branch, faults
  included), then its invariant and contract, then the composition. The main results: a query is
  answered with the document of the result sets, in a worker (\<open>Run_Query\<close>), through a connector
  (\<open>System\<close>) and over HTTP with both (\<open>Stack\<close>, \<open>Shared_Stack\<close>), and a refused one with the
  messages of the driver; the three parsers agree
  (\<open>Query_String\<close>); the table is well formed under every interleaving, and a
  connection is shared only by requests with all the same keys (\<open>Pool\<close>); at most one process is in
  the shared segment (\<open>Shmem\<close>); no byte of a session is lost however the kernel cuts it
  (\<open>Socket\<close>, \<open>Session\<close>); the drivers keep their contract and run over none of their
  buffers; every field of a parsed request fits (\<open>Http_Module\<close>); the connector ends exactly when it
  has been idle for its limit (\<open>Process\<close>); the tool ends on every input (\<open>Cmdline\<close>).

  \<^bold>\<open>What does not hold.\<close> Some theorems and lemmas state what the code does where it plainly means
  something else: the text of a query can end itself and give commands (\<open>Session\<close>), parameters
  beyond the placeholders repeat the query (\<open>Params\<close>), one refused \<^verbatim>\<open>semop\<close> breaks the lock
  (\<open>Shmem\<close>), a connection in use can be closed twice (\<open>Pool\<close>), a failed greeting keeps its slot
  (\<open>System\<close>), the kill command signals nobody that is there (\<open>Admin\<close>), the end of the master kills
  one connector only (\<open>Http_Module\<close>), an error of \<^verbatim>\<open>SQLMoreResults\<close> never ends (\<open>Odbc\<close>), a live
  MySQL connection is opened again (\<open>Mysql\<close>), a failed login kills the worker of the MySQL and the
  ODBC driver (\<open>Stack\<close>), the lines of an error come joined over a shared connection
  (\<open>Shared_Stack\<close>), a client that leaves before any query kills a connector to SQL Server (here), the levels of the log are inverted in the server
  (\<open>Log\<close>).

  \<^bold>\<open>Not modelled.\<close> src/emit.c and src/status.c: fragments of db.c that no makefile names and that
  do not compile by themselves. Code between \<^verbatim>\<open>#if 0\<close> and the test program of socket.c. The
  sending of buffers by nginx and the registration structures it reads; \<^verbatim>\<open>fork\<close>, \<^verbatim>\<open>exec\<close> and signal
  handlers beyond their effect on the processes that go on; the readline library; freeing of memory,
  except where a freed cell could be used again (\<open>Stringbuf\<close>, the structures of the drivers, the
  parameters of the tool); running out of memory, except where the code checks for it.
\<close>

section \<open>The main loop of a connector with the SQL Server driver\<close>

text \<open>
  Until the first query is run the handle of the connector is what the stack of \<^verbatim>\<open>main\<close>
  held, and the driver has no structure. A line that is not the command for it leaves both alone.
\<close>

definition asks_nothing :: "happening \<Rightarrow> bool" where
  "asks_nothing h \<longleftrightarrow> (\<forall>l t t'. h = Got_Line l t t' \<longrightarrow> \<not> check_command (chop_newline l) ''RUN'')"

definition unused :: "handle \<Rightarrow> 'd \<Rightarrow> 'd process \<Rightarrow> bool" where
  "unused g d P \<longleftrightarrow> conn_db (p_conn P) = g \<and> dbstate (p_conn P) = d"

lemma process_line_driver:
  assumes "process_line ga gf l st = Inr (ret, st')"
  shows "conn_db st' = conn_db st \<and> dbstate st' = dbstate st" and "ret = RUN \<longrightarrow> check_command (chop_newline l) ''RUN''"
  using assms unfolding process_line_def Let_def by (auto split: if_splits option.splits)

lemma line_driver:
  assumes "peer_line p l st = Some (Inr (nxt, st', evs))" "\<not> check_command (chop_newline l) ''RUN''"
  shows "conn_db st' = conn_db st \<and> dbstate st' = dbstate st"
proof -
  from assms(1) obtain ret st1 where r: "process_line (peer_arg p) (peer_flag p) l st = Inr (ret, st1)"
    by (auto simp: peer_line_def handle_line_def and_then_eq_Inr_iff)
  from process_line_driver[OF r] assms r show ?thesis
    by (cases ret) (auto simp: peer_line_def handle_line_def)
qed

lemma client_gone_driver: "unused g d P \<Longrightarrow> unused g d (client_gone api P)"
  by (auto simp: unused_def client_gone_def end_client_def rbind_eq_Inr_iff split: sum.split)

lemma line_turn_unused:
  assumes "unused g d P" "line_turn p l t t' P = Some (Inr (Q, evs))" "\<not> check_command (chop_newline l) ''RUN''"
  shows "unused g d Q"
proof -
  from assms(2) obtain nxt st where line: "peer_line p l (p_conn P) = Some (Inr (nxt, st, evs))"
    and q: "Q = (case nxt of Next_Line \<Rightarrow> (after_handling t t' evs P)\<lparr>p_conn := st, p_clock := t'\<rparr>
      | Next_Client \<Rightarrow> client_gone (peer_api p) ((after_handling t t' evs P)\<lparr>p_conn := st, p_clock := t'\<rparr>)
      | Exit_Process \<Rightarrow> (after_handling t t' evs P)\<lparr>p_conn := st, p_clock := t', p_phase := Ended By_Command\<rparr>)"
    by (auto simp: line_turn_def loop_bind_eq_Inr_iff Let_def)
  have "unused g d ((after_handling t t' evs P)\<lparr>p_conn := st, p_clock := t'\<rparr>)"
    using assms(1) line_driver[OF line assms(3)] by (simp add: unused_def)
  from client_gone_driver[OF this] this q show ?thesis by (cases nxt) (auto simp: unused_def)
qed

lemma unused_step:
  assumes "main_step p P h evs Q" "unused g d P" "asks_nothing h"
  shows "unused g d Q"
  using assms
proof (induction rule: main_step.induct)
  case (got P s t t' line Q evs)
  then show ?case by (auto simp: asks_nothing_def intro: line_turn_unused)
next
  case (lost P s t)
  then have "unused g d (P\<lparr>p_clock := t\<rparr>)" by (simp add: unused_def)
  then show ?case by (rule client_gone_driver)
qed (auto simp: unused_def)

interpretation before_query: invariant_system "\<lambda>P. \<exists>t. P = main_start g t d" "moves p asks_nothing" "unused g d"
    for p :: "'d peer" and g d
  by unfold_locales (auto simp: moves_def unused_def main_start_def set_timer_def dest: unused_step[unfolded unused_def])

text \<open>C40.
  A connector with the SQL Server driver does not survive a client that leaves before a query was run, or
  an \<^verbatim>\<open>accept\<close> that fails before: to see whether its connection is alive it reads through a
  handle that was never set, whatever clients did until then.
\<close>

theorem unused_connector_crashes:
  assumes "main_run p (main_start g t0 d) hs evs P" "list_all asks_nothing hs"
    and "main_step p P (Lost t) evs' Q"
    and "peer_api p = dbrelay_mssql_api lib stale" "\<forall>a. m_structs d a = None"
  shows "p_phase Q = Ended (Crashed (case g of None \<Rightarrow> Null_Deref | Some a \<Rightarrow> Out_Of_Bounds))"
proof -
  have "unused g d P"
    by (rule before_query.reachable_inv[OF _ run_moves[OF assms(1,2)]]) blast
  moreover from assms(3) have "Q = client_gone (peer_api p) (P\<lparr>p_clock := t\<rparr>)" by (auto elim: lostE)
  ultimately show ?thesis using assms(4,5)
    by (cases g) (simp_all add: client_gone_def end_client_def unused_def dbrelay_mssql_api_def
        dbrelay_mssql_isalive_def m_proc_def m_deref_def)
qed

theorem unused_connector_crashes_witness:
  "\<exists>Q. main_step (sql_peer True []) (accept_turn 5 1 0 (main_start None 0 own_mssql)) (Lost 2) [] Q \<and>
     p_phase Q = Ended (Crashed Null_Deref)"
proof -
  let ?P = "accept_turn 5 1 0 (main_start None 0 own_mssql)" and ?p = "sql_peer True []"
  have "main_step ?p (main_start None 0 own_mssql) (Accepted 5 1) [] ?P"
    by (rule main_step.accept) (simp_all add: main_start_def set_timer_def due_def)
  from main_run.further[OF this main_run.still] have run: "main_run ?p (main_start None 0 own_mssql) [Accepted 5 1] [] ?P"
    by simp
  have phase: "p_phase ?P = Serving 5"
    by (simp add: accept_turn_def main_start_def set_timer_def zero_request_def Let_def)
  have step: "main_step ?p ?P (Lost 2) [] (client_gone (peer_api ?p) (?P\<lparr>p_clock := 2\<rparr>))"
    by (rule main_step.lost[OF phase]) (simp_all add: due_def, simp add: main_start_def set_timer_def)
  have "peer_api ?p = dbrelay_mssql_api (tape_lib True []) []" "\<forall>a. m_structs own_mssql a = None"
    by (simp_all add: sql_peer_def own_mssql_def)
  from unused_connector_crashes[OF run _ step this] step show ?thesis by (auto simp: asks_nothing_def)
qed

end
